theory Spec2Isabelle
  imports Complex_Main "HOL-Library.Word"
begin

section \<open>Characters and limits\<close>

text \<open>
  The library works on C \<open>char\<close>s. A byte is an Isabelle \<^typ>\<open>char\<close>; comparisons of
  the source are made on the value the byte has as a signed \<open>char\<close> (the x86 ABI),
  so that \<open>tok->token == EOF\<close> holds exactly for the byte \<open>0xFF\<close>, which is what
  \<open>buffer[size] = EOF\<close> stores.
\<close>

definition char_val :: "char \<Rightarrow> int" where
  "char_val c = (if of_char c < (128::int) then of_char c else of_char c - 256)"

abbreviation NUL :: char where "NUL \<equiv> CHR 0x00"
abbreviation LF :: char where "LF \<equiv> CHR 0x0A"
abbreviation CR :: char where "CR \<equiv> CHR 0x0D"
abbreviation TAB :: char where "TAB \<equiv> CHR 0x09"
abbreviation EOF_byte :: char where "EOF_byte \<equiv> CHR 0xFF"

definition EOF :: int where "EOF = - 1"

definition MYTOML_MAX_ID_LENGTH :: int where "MYTOML_MAX_ID_LENGTH = 256"
definition MYTOML_MAX_STRING_LENGTH :: int where "MYTOML_MAX_STRING_LENGTH = 4096"
definition MYTOML_MAX_NUM_LINES :: int where "MYTOML_MAX_NUM_LINES = 16777216"
definition MYTOML_MAX_SUBKEYS :: int where "MYTOML_MAX_SUBKEYS = 131072"
definition MYTOML_MAX_ARRAY_LENGTH :: int where "MYTOML_MAX_ARRAY_LENGTH = 131072"

section \<open>Tokenizer\<close>

text \<open>
  \<open>struct Tokenizer\<close>. \<open>strm\<close> is \<open>input.stream\<close>, the whole buffer; the array
  \<open>lines\<close> is the list of its entries that were written, as pairs of index and
  value, every other entry being zero after \<open>calloc\<close>. C leaves a read outside the
  buffer or outside \<open>lines\<close> undefined: the model records it in \<open>fault\<close> and stops
  reading, and every entry point reports a faulted run as \<open>UndefinedBehaviour\<close>.
\<close>

record Tokenizer =
  strm :: "char list"
  cursor :: int
  token :: char
  prev :: char
  prev_prev :: char
  is_null :: bool
  newline :: bool
  line :: int
  col :: int
  lines :: "(int \<times> int) list"
  fault :: bool

definition lines_get :: "(int \<times> int) list \<Rightarrow> int \<Rightarrow> int" where
  "lines_get ls i = (case map_of ls i of None \<Rightarrow> 0 | Some v \<Rightarrow> v)"

definition lines_set :: "(int \<times> int) list \<Rightarrow> int \<Rightarrow> int \<Rightarrow> (int \<times> int) list" where
  "lines_set ls i v = (i, v) # filter (\<lambda>p. fst p \<noteq> i) ls"

definition new_tokenizer :: "char list \<Rightarrow> Tokenizer" where
  "new_tokenizer s =
     \<lparr> strm = s, cursor = 0, token = NUL, prev = NUL, prev_prev = NUL,
       is_null = True, newline = False, line = 0, col = 0, lines = [],
       fault = False \<rparr>"

text \<open>\<open>_mytoml_tokenizer_next_token\<close>: the returned int is 1 when a byte was read.\<close>

definition next_read :: "Tokenizer \<Rightarrow> Tokenizer" where
  "next_read t1 =
     (let t2 = t1\<lparr> token := strm t1 ! nat (cursor t1), cursor := cursor t1 + 1 \<rparr>;
          t3 = (if newline t2 \<and> prev t2 \<noteq> NUL \<and> prev t2 \<noteq> CHR '' '' \<and>
                   prev t2 \<noteq> TAB \<and> prev t2 \<noteq> LF
                then t2\<lparr> newline := False \<rparr> else t2);
          t4 = (if token t3 = LF then t3\<lparr> newline := True \<rparr> else t3);
          t5 = (if prev t4 = LF
                then (let t' = (if line t4 < MYTOML_MAX_NUM_LINES
                                then t4\<lparr> lines := lines_set (lines t4) (line t4) (col t4) \<rparr>
                                else t4)
                      in t'\<lparr> line := line t' + 1, col := 0 \<rparr>)
                else t4\<lparr> col := col t4 + 1 \<rparr>)
      in if char_val (token t5) = EOF then t5\<lparr> token := NUL, is_null := False \<rparr>
         else t5)"

definition mytoml_tokenizer_next_token :: "Tokenizer \<Rightarrow> int \<times> Tokenizer" where
  "mytoml_tokenizer_next_token tok =
     (let t1 = tok\<lparr> prev_prev := prev tok, prev := token tok \<rparr>
      in if is_null t1 \<or> cursor t1 = 0
         then (if 0 \<le> cursor t1 \<and> cursor t1 < int (length (strm t1))
               then (1, next_read t1)
               else (1, t1\<lparr> token := NUL, is_null := False, fault := True \<rparr>))
         else (0, t1))"

definition advance :: "Tokenizer \<Rightarrow> Tokenizer" where
  "advance tok = snd (mytoml_tokenizer_next_token tok)"

text \<open>
  The \<open>while\<close> loop of \<open>_mytoml_tokenizer_backtrace\<close> over the line table, on the
  locals \<open>pre_count\<close> and \<open>col\<close>; it decrements \<open>tok->line\<close> before each read of
  \<open>lines\<close>.
\<close>

function walk_lines :: "int \<Rightarrow> int \<Rightarrow> Tokenizer \<Rightarrow> int \<times> int \<times> Tokenizer" where
  "walk_lines pre_count c tok =
     (if line tok \<ge> 0 \<and> pre_count > c
      then (let l = line tok - 1
            in if l < 0 \<or> l \<ge> MYTOML_MAX_NUM_LINES
               then (pre_count - c, 0, tok\<lparr> line := l, fault := True \<rparr>)
               else walk_lines (pre_count - c) (lines_get (lines tok) l) (tok\<lparr> line := l \<rparr>))
      else (pre_count, c, tok))"
  by pat_completeness auto
termination
  by (relation "measure (\<lambda>(p, c, t). nat (line t + 1))") auto

declare walk_lines.simps [simp del]

definition mytoml_tokenizer_backtrace :: "Tokenizer \<Rightarrow> int \<Rightarrow> Tokenizer" where
  "mytoml_tokenizer_backtrace tok count =
     (let pre_count = count + 2
      in if count > 0 \<and> cursor tok > pre_count
         then (let t1 = tok\<lparr> cursor := cursor tok - pre_count, is_null := True \<rparr>;
                   (pc, c, t2) = walk_lines pre_count (col t1) t1;
                   t3 = t2\<lparr> col := c - pc \<rparr>;
                   t4 = (if line t3 < 0 then t3\<lparr> line := 0 \<rparr> else t3);
                   t5 = (if col t4 < 0 then t4\<lparr> col := 0 \<rparr> else t4)
               in advance (advance t5))
         else tok)"

definition mytoml_tokenizer_has_token :: "Tokenizer \<Rightarrow> bool" where
  "mytoml_tokenizer_has_token tok = is_null tok"

section \<open>Values and keys\<close>

datatype TomlValueType =
  TOML_INT | TOML_BOOL | TOML_FLOAT | TOML_ARRAY | TOML_STRING | TOML_DATETIME |
  TOML_DATELOCAL | TOML_TIMELOCAL | TOML_INLINETABLE | TOML_DATETIMELOCAL

datatype TomlKeyType = TOML_KEY | TOML_TABLE | TOML_KEYLEAF | TOML_TABLELEAF | TOML_ARRAYTABLE

datatype error = ParseFailure | OutOfFuel | UndefinedBehaviour | NotModelled

text \<open>
  A C \<open>double\<close>. A finite value is kept as the exact rational it stands for: the
  rounding to binary64 is not modelled (integers of magnitude up to \<open>2^53\<close> are exact
  in C as well). \<open>NegZero\<close> is \<open>-0.0\<close>, which compares equal to zero.
\<close>

datatype cdouble = Finite rat | NegZero | PosInf | NegInf | NotANumber

text \<open>
  Key nodes live in a store and are named by their address, since the parser keeps
  pointers to them and changes them in place. \<open>struct TomlValue_t\<close> is owned by one key
  or one array, so it is kept by value; \<open>data\<close> is the \<open>void *\<close> payload, which for an
  inline table is the address of a key. \<open>len\<close> is the length of \<open>arr\<close>. The \<open>format\<close>
  field belongs to date-times, which are left out.
\<close>

type_synonym addr = nat

datatype vdata = DNull | DDouble cdouble | DString string | DKey addr

datatype TomlValue =
  TomlValue (vtype: TomlValueType) (arr: "TomlValue list") (vdata: vdata)
            (precision: int) (scientific: bool)

record TomlKey =
  ktype :: TomlKeyType
  key_id :: string
  subkeys :: "(string \<times> addr) list"
  kvalue :: "TomlValue option"
  idx :: "64 word"

type_synonym store = "TomlKey list"

text \<open>
  Modelled from the spec: the hash map \<open>khash_t(str)\<close> of \<open>khash.h\<close>, which is not
  among the sources. The spec describes it as a map from identifier to child key
  node, keys unique within the map, iteration order unspecified. It is an association
  list with unique keys here; iteration follows the order of insertion.
\<close>

definition kh_get :: "(string \<times> addr) list \<Rightarrow> string \<Rightarrow> addr option" where
  "kh_get m k = map_of m k"

definition kh_set :: "(string \<times> addr) list \<Rightarrow> string \<Rightarrow> addr \<Rightarrow> (string \<times> addr) list" where
  "kh_set m k v =
     (if map_of m k = None then m @ [(k, v)]
      else map (\<lambda>(k', v'). if k' = k then (k', v) else (k', v')) m)"

definition kh_size :: "(string \<times> addr) list \<Rightarrow> int" where
  "kh_size m = int (length m)"

text \<open>
  \<open>_mytoml_value_new_key\<close>: \<open>k->idx = -1\<close> on the \<open>size_t\<close> field \<open>idx\<close> stores
  \<open>SIZE_MAX\<close>.
\<close>

definition mytoml_value_new_key :: "store \<Rightarrow> TomlKeyType \<Rightarrow> addr \<times> store" where
  "mytoml_value_new_key h t =
     (length h,
      h @ [\<lparr> ktype = t, key_id = [], subkeys = [], kvalue = None, idx = - 1 \<rparr>])"

definition mytoml_value_has_sub_key :: "store \<Rightarrow> addr \<Rightarrow> addr \<Rightarrow> addr option" where
  "mytoml_value_has_sub_key h key subkey = kh_get (subkeys (h ! key)) (key_id (h ! subkey))"

definition mytoml_value_keys_compatible :: "TomlKeyType \<Rightarrow> TomlKeyType \<Rightarrow> bool" where
  "mytoml_value_keys_compatible existing current =
     (if existing = TOML_KEYLEAF then False
      else if existing = TOML_TABLELEAF \<and> current = TOML_TABLELEAF then False
      else if (existing = TOML_TABLELEAF \<or> existing = TOML_KEY) \<and> current = TOML_TABLE
        then True
      else if existing = TOML_TABLE \<and> current = TOML_TABLELEAF then True
      else if existing = TOML_ARRAYTABLE \<and> current = TOML_TABLE then True
      else if current = existing then True
      else False)"

text \<open>
  \<open>_mytoml_value_add_sub_key\<close>. The returned pointer is \<open>None\<close> for \<open>NULL\<close>. The call
  on the active row of an array table is the only recursion; the first argument
  bounds its depth.
\<close>

fun mytoml_value_add_sub_key ::
  "nat \<Rightarrow> store \<Rightarrow> addr \<Rightarrow> addr \<Rightarrow> error + (addr option \<times> store)" where
  "mytoml_value_add_sub_key 0 h key subkey = Inl OutOfFuel"
| "mytoml_value_add_sub_key (Suc n) h key subkey =
     (case mytoml_value_has_sub_key h key subkey of
        Some s \<Rightarrow>
          (if mytoml_value_keys_compatible (ktype (h ! s)) (ktype (h ! subkey))
           then (if ktype (h ! subkey) = TOML_TABLELEAF
                 then Inr (Some s, h[s := (h ! s)\<lparr> ktype := TOML_TABLELEAF \<rparr>])
                 else Inr (Some s, h))
           else Inr (None, h))
      | None \<Rightarrow>
          (if kh_size (subkeys (h ! key)) < MYTOML_MAX_SUBKEYS
           then (if ktype (h ! key) = TOML_ARRAYTABLE
                 then (case kvalue (h ! key) of
                         None \<Rightarrow> Inl UndefinedBehaviour
                       | Some v \<Rightarrow>
                           (if unat (idx (h ! key)) < length (arr v)
                            then (case vdata (arr v ! unat (idx (h ! key))) of
                                    DKey r \<Rightarrow> mytoml_value_add_sub_key n h r subkey
                                  | _ \<Rightarrow> Inl UndefinedBehaviour)
                            else Inl UndefinedBehaviour))
                 else Inr (Some subkey,
                           h[key := (h ! key)\<lparr> subkeys :=
                               kh_set (subkeys (h ! key)) (key_id (h ! subkey)) subkey \<rparr>]))
           else Inr (None, h)))"

text \<open>\<open>toml_get_key\<close>; the key argument is \<open>None\<close> for a \<open>NULL\<close> pointer.\<close>

definition toml_get_key :: "store \<Rightarrow> addr option \<Rightarrow> string \<Rightarrow> addr option" where
  "toml_get_key h key i =
     (case key of
        None \<Rightarrow> None
      | Some k \<Rightarrow> (if key_id (h ! k) = i then Some k else kh_get (subkeys (h ! k)) i))"

section \<open>Lexical predicates\<close>

definition is_whitesapce :: "char \<Rightarrow> bool" where
  "is_whitesapce c = (c = CHR '' '' \<or> c = TAB)"

definition is_newline :: "char \<Rightarrow> bool" where
  "is_newline c = (c = LF)"

definition is_return :: "char \<Rightarrow> bool" where
  "is_return c = (c = CR)"

definition is_comment_start :: "char \<Rightarrow> bool" where
  "is_comment_start c = (c = CHR ''#'')"

definition is_equal :: "char \<Rightarrow> bool" where
  "is_equal c = (c = CHR ''='')"

definition is_escape :: "char \<Rightarrow> bool" where
  "is_escape c = (c = CHR 0x5C)"

definition is_basic_string_start :: "char \<Rightarrow> bool" where
  "is_basic_string_start c = (c = CHR 0x22)"

definition is_literal_string_start :: "char \<Rightarrow> bool" where
  "is_literal_string_start c = (c = CHR 0x27)"

definition is_table_start :: "char \<Rightarrow> bool" where
  "is_table_start c = (c = CHR ''['')"

definition is_table_end :: "char \<Rightarrow> bool" where
  "is_table_end c = (c = CHR '']'')"

definition is_inline_table_start :: "char \<Rightarrow> bool" where
  "is_inline_table_start c = (c = CHR ''{'')"

definition is_inline_table_end :: "char \<Rightarrow> bool" where
  "is_inline_table_end c = (c = CHR ''}'')"

definition is_inline_table_seperator :: "char \<Rightarrow> bool" where
  "is_inline_table_seperator c = (c = CHR '','')"

definition is_dot :: "char \<Rightarrow> bool" where
  "is_dot c = (c = CHR ''.'')"

definition is_digit :: "char \<Rightarrow> bool" where
  "is_digit c = (char_val c \<ge> char_val (CHR ''0'') \<and> char_val c \<le> char_val (CHR ''9''))"

definition is_hex_digit :: "char \<Rightarrow> bool" where
  "is_hex_digit c =
     ((char_val c \<ge> char_val (CHR ''A'') \<and> char_val c \<le> char_val (CHR ''F'')) \<or>
      (char_val c \<ge> char_val (CHR ''a'') \<and> char_val c \<le> char_val (CHR ''f'')))"

definition is_number_start :: "char \<Rightarrow> bool" where
  "is_number_start c = ((c = CHR ''+'' \<or> c = CHR ''-'') \<or> is_digit c)"

definition is_bare_ascii :: "char \<Rightarrow> bool" where
  "is_bare_ascii c =
     ((char_val c \<ge> char_val (CHR ''A'') \<and> char_val c \<le> char_val (CHR ''Z'')) \<or>
      (char_val c \<ge> char_val (CHR ''a'') \<and> char_val c \<le> char_val (CHR ''z'')) \<or>
      (c = CHR ''_'' \<or> c = CHR ''-'') \<or> is_digit c)"

definition is_control :: "char \<Rightarrow> bool" where
  "is_control c =
     ((char_val c \<ge> 0x0 \<and> char_val c \<le> 0x8) \<or> (char_val c \<ge> 0xA \<and> char_val c \<le> 0x1F) \<or>
      char_val c = 0x7F)"

definition is_control_multi :: "char \<Rightarrow> bool" where
  "is_control_multi c =
     ((char_val c \<ge> 0x0 \<and> char_val c \<le> 0x8) \<or> (char_val c = 0xB \<or> char_val c = 0xC) \<or>
      (char_val c \<ge> 0xE \<and> char_val c \<le> 0x1F) \<or> char_val c = 0x7F)"

definition is_control_literal :: "char \<Rightarrow> bool" where
  "is_control_literal c =
     ((char_val c \<noteq> 0x9 \<and> char_val c \<noteq> 0xA \<and> char_val c \<ge> 0x0 \<and> char_val c \<le> 0x1F) \<or>
      char_val c = 0x7F)"

definition is_number_end :: "char \<Rightarrow> string \<Rightarrow> bool" where
  "is_number_end c e = (c \<in> set e)"

definition is_decimal_point :: "char \<Rightarrow> bool" where
  "is_decimal_point c = (c = CHR ''.'')"

definition is_underscore :: "char \<Rightarrow> bool" where
  "is_underscore c = (c = CHR ''_'')"

definition is_array_start :: "char \<Rightarrow> bool" where
  "is_array_start c = (c = CHR ''['')"

definition is_array_end :: "char \<Rightarrow> bool" where
  "is_array_end c = (c = CHR '']'')"

definition is_array_seperator :: "char \<Rightarrow> bool" where
  "is_array_seperator c = (c = CHR '','')"

section \<open>Parser\<close>

text \<open>
  Every parse routine that returns a pointer returns \<open>NULL\<close> on failure, and every
  caller passes the \<open>NULL\<close> on: \<open>failed\<close> is that result. Each loop of the parser is a
  recursive function whose first argument bounds the number of iterations; a run that
  exhausts it ends in \<open>OutOfFuel\<close>, never in a parse result.
\<close>

definition failed :: "Tokenizer \<Rightarrow> error + 'a" where
  "failed tok = (if fault tok then Inl UndefinedBehaviour else Inl ParseFailure)"

text \<open>The text of a zero-initialised \<open>char\<close> buffer as a C string: up to the first \<open>NUL\<close>.\<close>

definition c_str :: "string \<Rightarrow> string" where
  "c_str s = takeWhile (\<lambda>c. c \<noteq> NUL) s"

fun mytoml_parser_parse_whitespace :: "nat \<Rightarrow> Tokenizer \<Rightarrow> error + Tokenizer" where
  "mytoml_parser_parse_whitespace 0 tok = Inl OutOfFuel"
| "mytoml_parser_parse_whitespace (Suc n) tok =
     (if mytoml_tokenizer_has_token tok
      then (if \<not> is_whitesapce (token tok) then Inr tok
            else mytoml_parser_parse_whitespace n (advance tok))
      else Inr tok)"

definition mytoml_parser_parse_newline :: "Tokenizer \<Rightarrow> bool \<times> Tokenizer" where
  "mytoml_parser_parse_newline tok =
     (if is_newline (token tok) then (True, tok)
      else if is_return (token tok)
        then (let (a, t1) = mytoml_tokenizer_next_token tok
              in if is_newline (token t1) then (True, t1)
                 else (False, mytoml_tokenizer_backtrace t1 (if a \<noteq> 0 then 1 else 0)))
      else (False, tok))"

text \<open>
  \<open>_mytoml_parser_bare_key\<close>; the locals \<open>id\<close> (its length is \<open>idx\<close>) and \<open>done\<close>
  are arguments of the loop.
\<close>

definition make_key :: "store \<Rightarrow> TomlKeyType \<Rightarrow> string \<Rightarrow> addr \<times> store" where
  "make_key h t i =
     (let (k, h1) = mytoml_value_new_key h t
      in (k, h1[k := (h1 ! k)\<lparr> key_id := c_str i \<rparr>]))"

fun bare_key_loop ::
  "nat \<Rightarrow> Tokenizer \<Rightarrow> store \<Rightarrow> char \<Rightarrow> TomlKeyType \<Rightarrow> TomlKeyType \<Rightarrow> string \<Rightarrow> bool \<Rightarrow>
     error + (addr \<times> Tokenizer \<times> store)" where
  "bare_key_loop 0 tok h e branch leaf i dn = Inl OutOfFuel"
| "bare_key_loop (Suc n) tok h e branch leaf i dn =
     (if mytoml_tokenizer_has_token tok
      then (if \<not> int (length i) < MYTOML_MAX_ID_LENGTH then failed tok
            else if is_dot (token tok)
              then (if length i \<noteq> 0
                    then (let (k, h1) = make_key h branch i in Inr (k, tok, h1))
                    else failed tok)
            else if token tok = e
              then (if length i \<noteq> 0
                    then (let (k, h1) = make_key h leaf i in Inr (k, tok, h1))
                    else failed tok)
            else if is_whitesapce (token tok)
              then (case mytoml_parser_parse_whitespace n tok of
                      Inl err \<Rightarrow> Inl err
                    | Inr t1 \<Rightarrow> bare_key_loop n t1 h e branch leaf i True)
            else if is_bare_ascii (token tok) \<and> \<not> dn
              then bare_key_loop n (advance tok) h e branch leaf (i @ [token tok]) dn
            else failed tok)
      else failed tok)"

definition mytoml_parser_bare_key ::
  "nat \<Rightarrow> Tokenizer \<Rightarrow> store \<Rightarrow> char \<Rightarrow> TomlKeyType \<Rightarrow> TomlKeyType \<Rightarrow>
     error + (addr \<times> Tokenizer \<times> store)" where
  "mytoml_parser_bare_key n tok h e branch leaf = bare_key_loop n tok h e branch leaf [] False"

subsection \<open>The C library's number conversions\<close>

text \<open>
  \<open>strtoul\<close> and \<open>strtod\<close> of the C library, on a C string, in the "C" locale. Both
  return the value and the number of bytes they consumed (\<open>end - nptr\<close>; \<open>0\<close> when
  there is no conversion). \<open>unsigned long\<close> has 64 bits. \<open>strtod\<close> is modelled for the
  decimal forms and for \<open>INF\<close>, \<open>INFINITY\<close> and \<open>NAN\<close>; it is \<open>None\<close> on a hexadecimal
  prefix or on \<open>NAN(\<close>, which the model leaves out. \<open>strtoul\<close> skips the prefix \<open>0x\<close>
  in base 16, as C99 has it; the prefix \<open>0b\<close> that C23 adds in base 2 is left out.
\<close>

definition c_isspace :: "char \<Rightarrow> bool" where
  "c_isspace c = (c = CHR '' '' \<or> (0x09 \<le> char_val c \<and> char_val c \<le> 0x0D))"

definition digit_val :: "char \<Rightarrow> int option" where
  "digit_val c =
     (let v = char_val c
      in if 48 \<le> v \<and> v \<le> 57 then Some (v - 48)
         else if 97 \<le> v \<and> v \<le> 122 then Some (v - 87)
         else if 65 \<le> v \<and> v \<le> 90 then Some (v - 55)
         else None)"

text \<open>The longest prefix of digits of the base: the value and the number of digits.\<close>

fun take_digits :: "int \<Rightarrow> string \<Rightarrow> int \<Rightarrow> nat \<Rightarrow> int \<times> nat" where
  "take_digits b [] acc cnt = (acc, cnt)"
| "take_digits b (c # cs) acc cnt =
     (case digit_val c of
        None \<Rightarrow> (acc, cnt)
      | Some d \<Rightarrow> (if d < b then take_digits b cs (acc * b + d) (Suc cnt) else (acc, cnt)))"

definition ULONG_MAX :: int where "ULONG_MAX = 2 ^ 64 - 1"

definition sign_len :: "string \<Rightarrow> nat" where
  "sign_len s = (case s of [] \<Rightarrow> 0 | c # _ \<Rightarrow> (if c = CHR ''+'' \<or> c = CHR ''-'' then 1 else 0))"

definition is_neg :: "string \<Rightarrow> bool" where
  "is_neg s = (case s of [] \<Rightarrow> False | c # _ \<Rightarrow> c = CHR ''-'')"

definition hex_prefix :: "string \<Rightarrow> bool" where
  "hex_prefix s =
     (case s of
        a # b # _ \<Rightarrow> a = CHR ''0'' \<and> (b = CHR ''x'' \<or> b = CHR ''X'')
      | _ \<Rightarrow> False)"

definition strtoul :: "string \<Rightarrow> int \<Rightarrow> int \<times> nat" where
  "strtoul s b =
     (let s1 = dropWhile c_isspace s;
          ws = length s - length s1;
          sl = sign_len s1;
          s2 = drop sl s1;
          pl = (if b = 16 \<and> hex_prefix s2 \<and>
                   (case drop 2 s2 of [] \<Rightarrow> False
                    | c # _ \<Rightarrow> (case digit_val c of None \<Rightarrow> False | Some d \<Rightarrow> d < 16))
                then 2 else 0);
          (v, cnt) = take_digits b (drop pl s2) 0 0
      in if cnt = 0 then (0, 0)
         else (if v > ULONG_MAX then ULONG_MAX
               else if is_neg s1 then (2 ^ 64 - v) mod 2 ^ 64 else v,
               ws + sl + pl + cnt))"

definition to_upper :: "char \<Rightarrow> char" where
  "to_upper c =
     (if 97 \<le> char_val c \<and> char_val c \<le> 122 then char_of (nat (char_val c - 32)) else c)"

definition starts_with_ci :: "string \<Rightarrow> string \<Rightarrow> bool" where
  "starts_with_ci s p = (map to_upper (take (length p) s) = p)"

definition pow10 :: "int \<Rightarrow> rat" where
  "pow10 e = (if e \<ge> 0 then 10 ^ nat e else 1 / 10 ^ nat (- e))"

definition signed_zero :: "bool \<Rightarrow> rat \<Rightarrow> cdouble" where
  "signed_zero neg v = (if v = 0 \<and> neg then NegZero else Finite (if neg then - v else v))"

definition strtod :: "string \<Rightarrow> (cdouble \<times> nat) option" where
  "strtod s =
     (let s1 = dropWhile c_isspace s;
          ws = length s - length s1;
          sl = sign_len s1;
          neg = is_neg s1;
          s2 = drop sl s1
      in if starts_with_ci s2 ''INFINITY'' then Some (if neg then NegInf else PosInf, ws + sl + 8)
         else if starts_with_ci s2 ''INF'' then Some (if neg then NegInf else PosInf, ws + sl + 3)
         else if starts_with_ci s2 ''NAN''
           then (if take 1 (drop 3 s2) = ''('' then None else Some (NotANumber, ws + sl + 3))
         else if hex_prefix s2 then None
         else (let (ip, ipn) = take_digits 10 s2 0 0;
                   r1 = drop ipn s2;
                   dot = (take 1 r1 = ''.'');
                   (fp, fpn) = (if dot then take_digits 10 (drop 1 r1) 0 0 else (0, 0));
                   dotn = (if dot then 1 else 0);
                   r2 = drop (dotn + fpn) r1;
                   hasexp = (take 1 r2 = ''e'' \<or> take 1 r2 = ''E'');
                   r3 = drop 1 r2;
                   esl = sign_len r3;
                   (ev, en) = take_digits 10 (drop esl r3) 0 0;
                   useexp = (hasexp \<and> en > 0);
                   ex = (if useexp then (if is_neg r3 then - ev else ev) else 0);
                   mant = of_int (ip * 10 ^ fpn + fp) :: rat
               in if ipn = 0 \<and> fpn = 0 then Some (Finite 0, 0)
                  else Some (signed_zero neg (mant * pow10 (ex - int fpn)),
                             ws + sl + ipn + dotn + fpn + (if useexp then 1 + esl + en else 0))))"

text \<open>Comparisons of a \<open>double\<close> with a constant, as the source makes them.\<close>

definition is_zero :: "cdouble \<Rightarrow> bool" where
  "is_zero d = (d = Finite 0 \<or> d = NegZero)"

subsection \<open>Escapes\<close>

fun append_checked :: "string \<Rightarrow> string \<Rightarrow> int \<Rightarrow> string option" where
  "append_checked v [] m = Some v"
| "append_checked v (c # cs) m =
     (let v' = v @ [c] in if int (length v') < m then append_checked v' cs m else None)"

text \<open>
  \<open>_mytoml_parser_parse_unicode\<close> and \<open>_mytoml_parser_parse_escape\<close> return the number
  of bytes written to \<open>escaped\<close>; the model returns the bytes, and the number is their
  length.
\<close>

definition utf8_bytes :: "int \<Rightarrow> int \<Rightarrow> string" where
  "utf8_bytes num len =
     (if num \<le> 0x0 \<and> num \<le> 0x7F
      then (if len < 1 then [] else [char_of (and num 0x7F)])
      else if num \<ge> 0x80 \<and> num \<le> 0x7FF
        then (if len < 2 then []
              else [char_of (and (or 0xC0 (drop_bit 6 num)) 0xDF),
                    char_of (and (or 0x80 num) 0xBF)])
      else if num \<ge> 0x800 \<and> num \<le> 0xFFFF
        then (if len < 3 then []
              else [char_of (and (or 0xE0 (drop_bit 12 num)) 0xEF),
                    char_of (and (or 0x80 (drop_bit 6 num)) 0xBF),
                    char_of (and (or 0x80 num) 0xBF)])
      else (if len < 4 then []
            else [char_of (and (or 0xF0 (drop_bit 18 num)) 0xF7),
                  char_of (and (or 0x80 (drop_bit 12 num)) 0xBF),
                  char_of (and (or 0x80 (drop_bit 6 num)) 0xBF),
                  char_of (and (or 0x80 num) 0xBF)]))"

fun parse_unicode_loop ::
  "nat \<Rightarrow> Tokenizer \<Rightarrow> string \<Rightarrow> int \<Rightarrow> error + (string \<times> Tokenizer)" where
  "parse_unicode_loop 0 tok code len = Inl OutOfFuel"
| "parse_unicode_loop (Suc n) tok code len =
     (if mytoml_tokenizer_has_token tok
      then (if length code > 8 then Inr ([], tok)
            else if is_hex_digit (token tok) \<or> is_digit (token tok)
              then parse_unicode_loop n (advance tok) (code @ [token tok]) len
            else if length code \<noteq> 4 \<and> length code \<noteq> 8 then Inr ([], tok)
            else (let (num, used) = strtoul (c_str code) 16
                  in if used \<noteq> length code then Inr ([], tok)
                     else if (num \<ge> 0x0 \<and> num \<le> 0xD7FF) \<or> (num \<ge> 0xE000 \<and> num \<le> 0x10FFFF)
                       then Inr (utf8_bytes num len, tok)
                     else Inr ([], tok)))
      else Inr ([], tok))"

definition mytoml_parser_parse_unicode ::
  "nat \<Rightarrow> Tokenizer \<Rightarrow> int \<Rightarrow> error + (string \<times> Tokenizer)" where
  "mytoml_parser_parse_unicode n tok len = parse_unicode_loop n tok [] len"

definition mytoml_parser_parse_escape ::
  "nat \<Rightarrow> Tokenizer \<Rightarrow> int \<Rightarrow> error + (string \<times> Tokenizer)" where
  "mytoml_parser_parse_escape n tok len =
     (if len < 1 then Inr ([], tok)
      else if token tok = CHR ''b'' then Inr ([CHR 0x08], advance tok)
      else if token tok = CHR ''t'' then Inr ([TAB], advance tok)
      else if token tok = CHR ''n'' then Inr ([LF], advance tok)
      else if token tok = CHR ''f'' then Inr ([CHR 0x0C], advance tok)
      else if token tok = CHR ''r'' then Inr ([CR], advance tok)
      else if token tok = CHR 0x22 then Inr ([CHR 0x22], advance tok)
      else if token tok = CHR 0x5C then Inr ([CHR 0x5C], advance tok)
      else if token tok = CHR ''u'' then mytoml_parser_parse_unicode n (advance tok) len
      else if token tok = CHR ''U'' then mytoml_parser_parse_unicode n (advance tok) len
      else Inr ([], tok))"

subsection \<open>Keys\<close>

fun basic_quoted_key_loop ::
  "nat \<Rightarrow> Tokenizer \<Rightarrow> store \<Rightarrow> char \<Rightarrow> TomlKeyType \<Rightarrow> TomlKeyType \<Rightarrow> string \<Rightarrow>
     error + (addr \<times> Tokenizer \<times> store)" where
  "basic_quoted_key_loop 0 tok h e branch leaf i = Inl OutOfFuel"
| "basic_quoted_key_loop (Suc n) tok h e branch leaf i =
     (if mytoml_tokenizer_has_token tok
      then (if \<not> int (length i) < MYTOML_MAX_ID_LENGTH then failed tok
            else if is_basic_string_start (token tok)
              then (let t1 = advance tok
                    in case (if is_whitesapce (token t1)
                             then mytoml_parser_parse_whitespace n t1 else Inr t1) of
                         Inl err \<Rightarrow> Inl err
                       | Inr t2 \<Rightarrow>
                           (if is_dot (token t2)
                            then (let (k, h1) = make_key h branch i in Inr (k, t2, h1))
                            else if token t2 = e
                              then (let (k, h1) = make_key h leaf i in Inr (k, t2, h1))
                            else failed t2))
            else if is_newline (token tok) then failed tok
            else if is_escape (token tok)
              then (case mytoml_parser_parse_escape n (advance tok) 5 of
                      Inl err \<Rightarrow> Inl err
                    | Inr (esc, t2) \<Rightarrow>
                        (if length esc = 0 then failed t2
                         else if \<not> length esc < 5 then failed t2
                         else (case append_checked i esc MYTOML_MAX_ID_LENGTH of
                                 None \<Rightarrow> failed t2
                               | Some i' \<Rightarrow>
                                   basic_quoted_key_loop n
                                     (advance (mytoml_tokenizer_backtrace t2 1))
                                     h e branch leaf i')))
            else if is_control (token tok) then failed tok
            else basic_quoted_key_loop n (advance tok) h e branch leaf (i @ [token tok]))
      else failed tok)"

definition mytoml_parser_basic_quoted_key ::
  "nat \<Rightarrow> Tokenizer \<Rightarrow> store \<Rightarrow> char \<Rightarrow> TomlKeyType \<Rightarrow> TomlKeyType \<Rightarrow>
     error + (addr \<times> Tokenizer \<times> store)" where
  "mytoml_parser_basic_quoted_key n tok h e branch leaf =
     basic_quoted_key_loop n tok h e branch leaf []"

fun literal_quoted_key_loop ::
  "nat \<Rightarrow> Tokenizer \<Rightarrow> store \<Rightarrow> char \<Rightarrow> TomlKeyType \<Rightarrow> TomlKeyType \<Rightarrow> string \<Rightarrow>
     error + (addr \<times> Tokenizer \<times> store)" where
  "literal_quoted_key_loop 0 tok h e branch leaf i = Inl OutOfFuel"
| "literal_quoted_key_loop (Suc n) tok h e branch leaf i =
     (if mytoml_tokenizer_has_token tok
      then (if \<not> int (length i) < MYTOML_MAX_ID_LENGTH then failed tok
            else if is_literal_string_start (token tok)
              then (let t1 = advance tok
                    in case (if is_whitesapce (token t1)
                             then mytoml_parser_parse_whitespace n t1 else Inr t1) of
                         Inl err \<Rightarrow> Inl err
                       | Inr t2 \<Rightarrow>
                           (if is_dot (token t2)
                            then (let (k, h1) = make_key h branch i in Inr (k, t2, h1))
                            else if token t2 = e
                              then (let (k, h1) = make_key h leaf i in Inr (k, t2, h1))
                            else failed t2))
            else if is_newline (token tok) then failed tok
            else if is_control_literal (token tok) then failed tok
            else literal_quoted_key_loop n (advance tok) h e branch leaf (i @ [token tok]))
      else failed tok)"

definition mytoml_parser_literal_quoted_key ::
  "nat \<Rightarrow> Tokenizer \<Rightarrow> store \<Rightarrow> char \<Rightarrow> TomlKeyType \<Rightarrow> TomlKeyType \<Rightarrow>
     error + (addr \<times> Tokenizer \<times> store)" where
  "mytoml_parser_literal_quoted_key n tok h e branch leaf =
     literal_quoted_key_loop n tok h e branch leaf []"

text \<open>
  The segment of a dotted path under the cursor: \<open>_mytoml_parser_parse_key\<close>,
  \<open>_mytoml_parser_parse_table\<close> and \<open>_mytoml_parser_parse_array_table\<close> choose among the
  three key parsers in the same way and add the parsed key to \<open>key\<close>, returning \<open>NULL\<close>
  when either step does.
\<close>

definition parse_segment ::
  "nat \<Rightarrow> Tokenizer \<Rightarrow> store \<Rightarrow> addr \<Rightarrow> char \<Rightarrow> TomlKeyType \<Rightarrow> TomlKeyType \<Rightarrow>
     error + (addr \<times> Tokenizer \<times> store)" where
  "parse_segment n tok h key e branch leaf =
     (case (if is_basic_string_start (token tok)
            then mytoml_parser_basic_quoted_key n (advance tok) h e branch leaf
            else if is_literal_string_start (token tok)
              then mytoml_parser_literal_quoted_key n (advance tok) h e branch leaf
            else mytoml_parser_bare_key n tok h e branch leaf) of
        Inl err \<Rightarrow> Inl err
      | Inr (subkey, t1, h1) \<Rightarrow>
          (case mytoml_value_add_sub_key n h1 key subkey of
             Inl err \<Rightarrow> Inl err
           | Inr (None, h2) \<Rightarrow> failed t1
           | Inr (Some s, h2) \<Rightarrow> Inr (s, t1, h2)))"

fun mytoml_parser_parse_key ::
  "nat \<Rightarrow> Tokenizer \<Rightarrow> store \<Rightarrow> addr \<Rightarrow> bool \<Rightarrow> error + (addr \<times> Tokenizer \<times> store)" where
  "mytoml_parser_parse_key 0 tok h key expecting = Inl OutOfFuel"
| "mytoml_parser_parse_key (Suc n) tok h key expecting =
     (if mytoml_tokenizer_has_token tok
      then (if is_equal (token tok)
            then (if expecting then failed tok else Inr (key, advance tok, h))
            else if is_dot (token tok)
              then (if expecting then failed tok
                    else mytoml_parser_parse_key n (advance tok) h key True)
            else if is_whitesapce (token tok)
              then (case mytoml_parser_parse_whitespace n tok of
                      Inl err \<Rightarrow> Inl err
                    | Inr t1 \<Rightarrow> mytoml_parser_parse_key n t1 h key expecting)
            else (case parse_segment n tok h key (CHR ''='') TOML_KEY TOML_KEYLEAF of
                    Inl err \<Rightarrow> Inl err
                  | Inr (s, t1, h1) \<Rightarrow> mytoml_parser_parse_key n t1 h1 s False))
      else failed tok)"

fun mytoml_parser_parse_table ::
  "nat \<Rightarrow> Tokenizer \<Rightarrow> store \<Rightarrow> addr \<Rightarrow> bool \<Rightarrow> error + (addr \<times> Tokenizer \<times> store)" where
  "mytoml_parser_parse_table 0 tok h key expecting = Inl OutOfFuel"
| "mytoml_parser_parse_table (Suc n) tok h key expecting =
     (if mytoml_tokenizer_has_token tok
      then (if is_table_end (token tok)
            then (if expecting then failed tok else Inr (key, advance tok, h))
            else if is_dot (token tok)
              then (if expecting then failed tok
                    else mytoml_parser_parse_table n (advance tok) h key True)
            else if is_whitesapce (token tok)
              then (case mytoml_parser_parse_whitespace n tok of
                      Inl err \<Rightarrow> Inl err
                    | Inr t1 \<Rightarrow> mytoml_parser_parse_table n t1 h key expecting)
            else (case parse_segment n tok h key (CHR '']'') TOML_TABLE TOML_TABLELEAF of
                    Inl err \<Rightarrow> Inl err
                  | Inr (s, t1, h1) \<Rightarrow> mytoml_parser_parse_table n t1 h1 s False))
      else failed tok)"

fun mytoml_parser_parse_array_table ::
  "nat \<Rightarrow> Tokenizer \<Rightarrow> store \<Rightarrow> addr \<Rightarrow> bool \<Rightarrow> error + (addr \<times> Tokenizer \<times> store)" where
  "mytoml_parser_parse_array_table 0 tok h key expecting = Inl OutOfFuel"
| "mytoml_parser_parse_array_table (Suc n) tok h key expecting =
     (if mytoml_tokenizer_has_token tok
      then (if is_table_end (token tok)
            then (if expecting then failed tok
                  else (let t1 = advance tok
                        in if \<not> is_table_end (token t1) then failed t1
                           else Inr (key, advance t1, h)))
            else if is_dot (token tok)
              then (if expecting then failed tok
                    else mytoml_parser_parse_array_table n (advance tok) h key True)
            else if is_whitesapce (token tok)
              then (case mytoml_parser_parse_whitespace n tok of
                      Inl err \<Rightarrow> Inl err
                    | Inr t1 \<Rightarrow> mytoml_parser_parse_array_table n t1 h key expecting)
            else (case parse_segment n tok h key (CHR '']'') TOML_TABLE TOML_ARRAYTABLE of
                    Inl err \<Rightarrow> Inl err
                  | Inr (s, t1, h1) \<Rightarrow> mytoml_parser_parse_array_table n t1 h1 s False))
      else failed tok)"

subsection \<open>Value constructors\<close>

definition mytoml_value_new_string :: "string \<Rightarrow> TomlValue" where
  "mytoml_value_new_string s = TomlValue TOML_STRING [] (DString (c_str s)) 0 False"

definition mytoml_value_new_number :: "cdouble \<Rightarrow> TomlValueType \<Rightarrow> int \<Rightarrow> bool \<Rightarrow> TomlValue" where
  "mytoml_value_new_number d t p sci = TomlValue t [] (DDouble d) p sci"

definition mytoml_value_new_array :: TomlValue where
  "mytoml_value_new_array = TomlValue TOML_ARRAY [] DNull 0 False"

text \<open>
  \<open>_mytoml_value_new_table\<close> adds every subkey of \<open>k\<close> to a new key of kind
  \<open>TOML_KEY\<close> and ignores what \<open>_mytoml_value_add_sub_key\<close> returns.
\<close>

fun copy_subkeys :: "nat \<Rightarrow> store \<Rightarrow> addr \<Rightarrow> addr list \<Rightarrow> error + store" where
  "copy_subkeys n h dst [] = Inr h"
| "copy_subkeys n h dst (s # ss) =
     (case mytoml_value_add_sub_key n h dst s of
        Inl err \<Rightarrow> Inl err
      | Inr (r, h1) \<Rightarrow> copy_subkeys n h1 dst ss)"

definition mytoml_value_new_table :: "nat \<Rightarrow> store \<Rightarrow> addr \<Rightarrow> error + (TomlValue \<times> store)" where
  "mytoml_value_new_table n h k =
     (let (hk, h1) = mytoml_value_new_key h TOML_KEY
      in case copy_subkeys n h1 hk (map snd (subkeys (h1 ! k))) of
           Inl err \<Rightarrow> Inl err
         | Inr h2 \<Rightarrow> Inr (TomlValue TOML_INLINETABLE [] (DKey hk) 0 False, h2))"

text \<open>
  The loop that adds the entries of a parsed inline table to the key it is assigned
  to; \<open>False\<close> when one of them is refused.
\<close>

fun merge_subkeys :: "nat \<Rightarrow> store \<Rightarrow> addr \<Rightarrow> addr list \<Rightarrow> error + (bool \<times> store)" where
  "merge_subkeys n h dst [] = Inr (True, h)"
| "merge_subkeys n h dst (s # ss) =
     (case mytoml_value_add_sub_key n h dst s of
        Inl err \<Rightarrow> Inl err
      | Inr (None, h1) \<Rightarrow> Inr (False, h1)
      | Inr (Some e, h1) \<Rightarrow> merge_subkeys n h1 dst ss)"

subsection \<open>Comments, booleans, inf and nan\<close>

fun mytoml_parser_parse_comment :: "nat \<Rightarrow> Tokenizer \<Rightarrow> error + (bool \<times> Tokenizer)" where
  "mytoml_parser_parse_comment 0 tok = Inl OutOfFuel"
| "mytoml_parser_parse_comment (Suc n) tok =
     (if mytoml_tokenizer_has_token tok
      then (let (nl, t2) = mytoml_parser_parse_newline (advance tok)
            in if nl then Inr (True, advance t2)
               else if is_control (token t2) then Inr (False, t2)
               else mytoml_parser_parse_comment n t2)
      else Inr (True, tok))"

definition mytoml_parser_parse_lnf_nan :: "Tokenizer \<Rightarrow> bool \<Rightarrow> cdouble \<times> Tokenizer" where
  "mytoml_parser_parse_lnf_nan tok negative =
     (let (r1, t1) =
            (if token tok = CHR ''i''
             then (let t = advance (advance tok)
                   in (if prev t = CHR ''n'' \<and> token t = CHR ''f''
                       then (if negative then NegInf else PosInf) else Finite 0, t))
             else (Finite 0, tok));
          (r2, t2) =
            (if token t1 = CHR ''n''
             then (let t = advance (advance t1)
                   in (if prev t = CHR ''a'' \<and> token t = CHR ''n'' then NotANumber else r1, t))
             else (r1, t1))
      in (r2, advance t2))"

definition mytoml_parser_parse_boolean :: "Tokenizer \<Rightarrow> cdouble \<times> Tokenizer" where
  "mytoml_parser_parse_boolean tok =
     (let (r, t1) =
            (if token tok = CHR ''t''
             then (let t = advance (advance (advance tok))
                   in (if prev_prev t \<noteq> CHR ''r'' \<or> prev t \<noteq> CHR ''u'' \<or> token t \<noteq> CHR ''e''
                       then Finite 2 else Finite 1, t))
             else if token tok = CHR ''f''
               then (let t = advance (advance (advance tok))
                     in if prev_prev t \<noteq> CHR ''a'' \<or> prev t \<noteq> CHR ''l'' \<or> token t \<noteq> CHR ''s''
                        then (Finite 2, t)
                        else (let t' = advance t
                              in (if token t' = CHR ''e'' then Finite 0 else Finite 2, t')))
             else (Finite 2, tok))
      in (r, advance t1))"

subsection \<open>Numbers\<close>

text \<open>
  \<open>_mytoml_parser_parse_base_unit\<close>; \<open>value\<close> is the buffer of the caller, its length
  is \<open>idx\<close>. The result \<open>-1\<close> stands for failure, as in the source.
\<close>

fun base_unit_loop ::
  "nat \<Rightarrow> Tokenizer \<Rightarrow> int \<Rightarrow> string \<Rightarrow> string \<Rightarrow> error + (cdouble \<times> Tokenizer)" where
  "base_unit_loop 0 tok base num_end val = Inl OutOfFuel"
| "base_unit_loop (Suc n) tok base num_end val =
     (if mytoml_tokenizer_has_token tok
      then (if int (length val) \<ge> MYTOML_MAX_STRING_LENGTH then Inr (Finite (- 1), tok)
            else if is_number_end (token tok) num_end
              then (if length val = 0 then Inr (Finite (- 1), tok)
                    else (let (num, used) = strtoul (c_str val) base
                          in if used = length val then Inr (Finite (of_int num), tok)
                             else Inr (Finite (- 1), tok)))
            else if is_underscore (token tok)
              then (let t1 = advance tok
                    in if (is_digit (token t1) \<or> (base = 16 \<and> is_hex_digit (token t1))) \<and>
                          (is_digit (prev_prev t1) \<or> (base = 16 \<and> is_hex_digit (prev_prev t1)))
                       then base_unit_loop n (advance t1) base num_end (val @ [token t1])
                       else Inr (Finite (- 1), t1))
            else base_unit_loop n (advance tok) base num_end (val @ [token tok]))
      else Inr (Finite (- 1), tok))"

definition mytoml_parser_parse_base_unit ::
  "nat \<Rightarrow> Tokenizer \<Rightarrow> int \<Rightarrow> string \<Rightarrow> error + (cdouble \<times> Tokenizer)" where
  "mytoml_parser_parse_base_unit n tok base num_end = base_unit_loop n tok base num_end []"

text \<open>\<open>struct Number\<close>: what \<open>_mytoml_parser_parse_number\<close> fills in beside \<open>*d\<close>.\<close>

record Number =
  ntype :: TomlValueType
  nprecision :: int
  nscientific :: bool

text \<open>A byte of a zero-initialised buffer of which \<open>val\<close> is the part written so far.\<close>

definition buf_at :: "string \<Rightarrow> nat \<Rightarrow> char" where
  "buf_at val i = (if i < length val then val ! i else NUL)"

text \<open>
  The conversion that ends \<open>_mytoml_parser_parse_number\<close>; the source has it twice,
  at a terminator inside the loop and after the loop.
\<close>

definition number_finish ::
  "Tokenizer \<Rightarrow> string \<Rightarrow> Number \<Rightarrow> error + (Number \<times> cdouble \<times> Tokenizer)" where
  "number_finish tok val num =
     (case strtod (c_str val) of
        None \<Rightarrow> Inl NotModelled
      | Some (d, used) \<Rightarrow>
          (if used \<noteq> length val then failed tok
           else (let num' = (if nprecision num > 0
                             then num\<lparr> nprecision := nprecision num - 1 \<rparr> else num)
                 in if ntype num' = TOML_INT \<and> \<not> is_zero d
                    then (if buf_at val 0 = CHR ''0'' then failed tok
                          else if (buf_at val 0 = CHR ''+'' \<or> buf_at val 0 = CHR ''-'') \<and>
                                  buf_at val 1 = CHR ''0''
                            then failed tok
                          else Inr (num', d, tok))
                    else Inr (num', d, tok))))"

definition based_number ::
  "nat \<Rightarrow> Tokenizer \<Rightarrow> int \<Rightarrow> string \<Rightarrow> Number \<Rightarrow> error + (Number \<times> cdouble \<times> Tokenizer)" where
  "based_number n tok base num_end num =
     (case mytoml_parser_parse_base_unit n tok base num_end of
        Inl err \<Rightarrow> Inl err
      | Inr (b, t1) \<Rightarrow> (if b = Finite (- 1) then failed t1 else Inr (num, b, t1)))"

fun number_loop ::
  "nat \<Rightarrow> Tokenizer \<Rightarrow> string \<Rightarrow> string \<Rightarrow> Number \<Rightarrow> error + (Number \<times> cdouble \<times> Tokenizer)" where
  "number_loop 0 tok num_end val num = Inl OutOfFuel"
| "number_loop (Suc n) tok num_end val num =
     (if mytoml_tokenizer_has_token tok
      then (if \<not> int (length val) < MYTOML_MAX_STRING_LENGTH then failed tok
            else if is_number_end (token tok) num_end then number_finish tok val num
            else if length val = 0 \<and> token tok = CHR ''0''
              then (let t1 = advance tok
                    in if token t1 = CHR ''x'' then based_number n (advance t1) 16 num_end num
                       else if token t1 = CHR ''o'' then based_number n (advance t1) 8 num_end num
                       else if token t1 = CHR ''b'' then based_number n (advance t1) 2 num_end num
                       else number_loop n t1 num_end (val @ [CHR ''0'']) num)
            else if is_decimal_point (token tok) \<or> is_underscore (token tok)
              then (let (val1, num1) =
                          (if is_decimal_point (token tok)
                           then (val @ [token tok], num\<lparr> ntype := TOML_FLOAT, nprecision := 1 \<rparr>)
                           else (val, num))
                    in if \<not> int (length val1) < MYTOML_MAX_STRING_LENGTH then failed tok
                       else (let t1 = advance tok
                             in if is_digit (token t1) \<and> is_digit (prev_prev t1)
                                then number_loop n (advance t1) num_end (val1 @ [token t1])
                                       (if nprecision num1 > 0
                                        then num1\<lparr> nprecision := nprecision num1 + 1 \<rparr> else num1)
                                else failed t1))
            else if token tok = CHR ''i'' \<or> token tok = CHR ''n''
              then (if length val = 1 \<and> (prev tok = CHR ''+'' \<or> prev tok = CHR ''-'')
                    then (let (f, t1) = mytoml_parser_parse_lnf_nan tok (prev tok = CHR ''-'')
                          in if is_zero f then number_finish t1 val num
                             else Inr (num\<lparr> ntype := TOML_FLOAT, nprecision := 0 \<rparr>, f, t1))
                    else failed tok)
            else if token tok = CHR ''x'' \<or> token tok = CHR ''X'' \<or> token tok = CHR ''b'' \<or>
                    token tok = CHR ''B'' \<or> token tok = CHR ''o'' \<or> token tok = CHR ''O''
              then number_finish tok val num
            else (let num1 = (if nprecision num > 0
                              then num\<lparr> nprecision := nprecision num + 1 \<rparr> else num);
                      num2 = (if token tok = CHR ''e'' \<or> token tok = CHR ''E''
                              then num1\<lparr> ntype := TOML_FLOAT, nscientific := True \<rparr> else num1)
                  in number_loop n (advance tok) num_end (val @ [token tok]) num2))
      else number_finish tok val num)"

definition mytoml_parser_parse_number ::
  "nat \<Rightarrow> Tokenizer \<Rightarrow> string \<Rightarrow> error + (Number \<times> cdouble \<times> Tokenizer)" where
  "mytoml_parser_parse_number n tok num_end =
     number_loop n tok num_end []
       \<lparr> ntype = TOML_INT, nprecision = 0, nscientific = False \<rparr>"

subsection \<open>Strings\<close>

text \<open>
  The inner loop of \<open>_mytoml_parser_parse_basic_string\<close> that skips whitespace and
  newlines after a backslash at the end of a line; it returns \<open>hit\<close>.
\<close>

fun continuation_loop :: "nat \<Rightarrow> Tokenizer \<Rightarrow> bool \<Rightarrow> error + (bool \<times> Tokenizer)" where
  "continuation_loop 0 tok hit = Inl OutOfFuel"
| "continuation_loop (Suc n) tok hit =
     (let (c, t1) = (if is_whitesapce (token tok) then (True, tok)
                     else mytoml_parser_parse_newline tok)
      in if c
         then (case (if is_whitesapce (token t1)
                     then mytoml_parser_parse_whitespace n t1 else Inr t1) of
                 Inl err \<Rightarrow> Inl err
               | Inr t2 \<Rightarrow>
                   (let (nl, t3) = mytoml_parser_parse_newline t2
                    in if nl then continuation_loop n (advance t3) True
                       else continuation_loop n t3 hit))
         else Inr (hit, t1))"

text \<open>
  \<open>_mytoml_parser_parse_basic_string\<close>; \<open>val\<close> is the part of \<open>value\<close> written so far,
  its length is \<open>idx\<close>. The two calls of \<open>_mytoml_parser_parse_newline\<close> in the
  conditions are made in the order of the source.
\<close>

fun basic_string_loop ::
  "nat \<Rightarrow> Tokenizer \<Rightarrow> bool \<Rightarrow> string \<Rightarrow> error + (string \<times> Tokenizer)" where
  "basic_string_loop 0 tok multi val = Inl OutOfFuel"
| "basic_string_loop (Suc n) tok multi val =
     (if mytoml_tokenizer_has_token tok
      then (if \<not> int (length val) < MYTOML_MAX_STRING_LENGTH then failed tok
            else if is_basic_string_start (token tok)
              then (if \<not> multi then Inr (val, advance tok)
                    else (let (a, t1) = mytoml_tokenizer_next_token tok;
                              (b, t2) = mytoml_tokenizer_next_token t1
                          in if is_basic_string_start (token t2) \<and>
                                is_basic_string_start (prev t2)
                             then (let t3 = advance t2;
                                       (v1, t4) = (if is_basic_string_start (token t3)
                                                   then (val @ [CHR 0x22], advance t3)
                                                   else (val, t3))
                                   in if \<not> int (length v1) < MYTOML_MAX_STRING_LENGTH
                                      then failed t4
                                      else (if is_basic_string_start (token t4)
                                            then Inr (v1 @ [CHR 0x22], advance t4)
                                            else Inr (v1, t4)))
                             else basic_string_loop n
                                    (mytoml_tokenizer_backtrace t2 (a + b - 1)) multi
                                    (val @ [CHR 0x22])))
            else (let (nl1, t1) = mytoml_parser_parse_newline tok
                  in if nl1 \<and> \<not> multi then failed t1
                     else (let (nl2, t2) = mytoml_parser_parse_newline t1
                           in if nl2 \<and> multi \<and> length val = 0
                              then basic_string_loop n (advance t2) multi val
                              else if is_escape (token t2)
                                then (case mytoml_parser_parse_escape n (advance t2) 5 of
                                        Inl err \<Rightarrow> Inl err
                                      | Inr (esc, t4) \<Rightarrow>
                                          (if multi \<and> length esc = 0
                                           then (case continuation_loop n t4 False of
                                                   Inl err \<Rightarrow> Inl err
                                                 | Inr (hit, t5) \<Rightarrow>
                                                     (if \<not> hit then failed t5
                                                      else basic_string_loop n t5 multi val))
                                           else if length esc = 0 then failed t4
                                           else if \<not> length esc < 5 then failed t4
                                           else (case append_checked val esc
                                                        MYTOML_MAX_STRING_LENGTH of
                                                   None \<Rightarrow> failed t4
                                                 | Some v' \<Rightarrow>
                                                     basic_string_loop n
                                                       (advance (mytoml_tokenizer_backtrace t4 1))
                                                       multi v')))
                              else if \<not> multi \<and> is_control (token t2) then failed t2
                              else if multi \<and> is_control_multi (token t2) then failed t2
                              else basic_string_loop n (advance t2) multi
                                     (val @ [token t2]))))
      else failed tok)"

definition mytoml_parser_parse_basic_string ::
  "nat \<Rightarrow> Tokenizer \<Rightarrow> bool \<Rightarrow> error + (string \<times> Tokenizer)" where
  "mytoml_parser_parse_basic_string n tok multi = basic_string_loop n tok multi []"

fun literal_string_loop ::
  "nat \<Rightarrow> Tokenizer \<Rightarrow> bool \<Rightarrow> string \<Rightarrow> error + (string \<times> Tokenizer)" where
  "literal_string_loop 0 tok multi val = Inl OutOfFuel"
| "literal_string_loop (Suc n) tok multi val =
     (if mytoml_tokenizer_has_token tok
      then (if \<not> int (length val) < MYTOML_MAX_STRING_LENGTH then failed tok
            else if is_literal_string_start (token tok)
              then (if \<not> multi then Inr (val, advance tok)
                    else (let (a, t1) = mytoml_tokenizer_next_token tok;
                              (b, t2) = mytoml_tokenizer_next_token t1
                          in if is_literal_string_start (token t2) \<and>
                                is_literal_string_start (prev t2)
                             then (let t3 = advance t2;
                                       (v1, t4) = (if is_literal_string_start (token t3)
                                                   then (val @ [CHR 0x27], advance t3)
                                                   else (val, t3))
                                   in if \<not> int (length v1) < MYTOML_MAX_STRING_LENGTH
                                      then failed t4
                                      else (if is_literal_string_start (token t4)
                                            then Inr (v1 @ [CHR 0x27], advance t4)
                                            else Inr (v1, t4)))
                             else literal_string_loop n
                                    (mytoml_tokenizer_backtrace t2 (a + b - 1)) multi
                                    (val @ [CHR 0x27])))
            else (let (nl1, t1) = mytoml_parser_parse_newline tok
                  in if nl1 \<and> \<not> multi then failed t1
                     else (let (nl2, t2) = mytoml_parser_parse_newline t1
                           in if nl2 \<and> multi \<and> length val = 0
                              then literal_string_loop n (advance t2) multi val
                              else if is_control_literal (token t2) then failed t2
                              else literal_string_loop n (advance t2) multi
                                     (val @ [token t2]))))
      else failed tok)"

definition mytoml_parser_parse_literal_string ::
  "nat \<Rightarrow> Tokenizer \<Rightarrow> bool \<Rightarrow> error + (string \<times> Tokenizer)" where
  "mytoml_parser_parse_literal_string n tok multi = literal_string_loop n tok multi []"

text \<open>
  The string branches of \<open>_mytoml_parser_parse_value\<close>, entered on the opening quote:
  three quotes open a multi-line string, two quotes followed by whitespace or a newline
  are the empty string.
\<close>

definition string_value ::
  "nat \<Rightarrow> Tokenizer \<Rightarrow> bool \<Rightarrow> error + (TomlValue \<times> Tokenizer)" where
  "string_value n tok basic =
     (let q = (if basic then is_basic_string_start else is_literal_string_start);
          str = (if basic then mytoml_parser_parse_basic_string
                 else mytoml_parser_parse_literal_string);
          t1 = advance tok
      in if mytoml_tokenizer_has_token t1 \<and> q (token t1)
         then (let t2 = advance t1
               in if mytoml_tokenizer_has_token t2 \<and> q (token t2)
                  then (case str n (advance t2) True of
                          Inl err \<Rightarrow> Inl err
                        | Inr (v, t3) \<Rightarrow> Inr (mytoml_value_new_string v, t3))
                  else if is_whitesapce (token t2) then Inr (mytoml_value_new_string [], t2)
                  else (let (nl, t3) = mytoml_parser_parse_newline t2
                        in if nl then Inr (mytoml_value_new_string [], t3) else failed t3))
         else (case str n t1 False of
                 Inl err \<Rightarrow> Inl err
               | Inr (v, t3) \<Rightarrow> Inr (mytoml_value_new_string v, t3)))"

text \<open>
  The number branch of \<open>_mytoml_parser_parse_value\<close>: it reads two or four bytes ahead
  to tell a date or a time from a number, and backtracks. The date-time parser
  \<open>_mytoml_parser_parse_datetime\<close> is left out: the branches that call it end in
  \<open>NotModelled\<close>.
\<close>

definition number_value ::
  "nat \<Rightarrow> Tokenizer \<Rightarrow> string \<Rightarrow> error + (TomlValue \<times> Tokenizer)" where
  "number_value n tok num_end =
     (let (a, t1) = mytoml_tokenizer_next_token tok;
          (b, t2) = mytoml_tokenizer_next_token t1;
          num = (\<lambda>t. case mytoml_parser_parse_number n t num_end of
                        Inl err \<Rightarrow> Inl err
                      | Inr (nm, d, t') \<Rightarrow>
                          Inr (mytoml_value_new_number d (ntype nm) (nprecision nm)
                                 (nscientific nm), t'))
      in if mytoml_tokenizer_has_token t2 \<and> token t2 = CHR '':'' then Inl NotModelled
         else if \<not> is_digit (prev t2) \<or> \<not> is_digit (token t2)
           then num (mytoml_tokenizer_backtrace t2 (a + b))
         else (let (c, t3) = mytoml_tokenizer_next_token t2;
                   (d, t4) = mytoml_tokenizer_next_token t3
               in if mytoml_tokenizer_has_token t4 \<and> token t4 = CHR ''-'' then Inl NotModelled
                  else num (mytoml_tokenizer_backtrace t4 (a + b + c + d))))"

subsection \<open>Values, arrays and inline tables\<close>

text \<open>
  Assigning a parsed value to the key \<open>k\<close>, as \<open>_mytoml_parser_parse_key_value\<close> and
  \<open>_mytoml_parser_parse_inline_tabel\<close> do: the entries of an inline table are added
  to \<open>k\<close>, which is of kind \<open>TOML_KEY\<close> meanwhile; any other value is stored in it.
  \<open>None\<close> when an entry is refused.
\<close>

definition assign_value :: "nat \<Rightarrow> store \<Rightarrow> addr \<Rightarrow> TomlValue \<Rightarrow> error + store option" where
  "assign_value n h k v =
     (if vtype v = TOML_INLINETABLE
      then (case vdata v of
              DKey hk \<Rightarrow>
                (let h1 = h[k := (h ! k)\<lparr> ktype := TOML_KEY \<rparr>]
                 in case merge_subkeys n h1 k (map snd (subkeys (h1 ! hk))) of
                      Inl err \<Rightarrow> Inl err
                    | Inr (False, h2) \<Rightarrow> Inr None
                    | Inr (True, h2) \<Rightarrow> Inr (Some (h2[k := (h2 ! k)\<lparr> ktype := TOML_KEYLEAF \<rparr>])))
            | _ \<Rightarrow> Inl UndefinedBehaviour)
      else Inr (Some (h[k := (h ! k)\<lparr> kvalue := Some v \<rparr>])))"

fun mytoml_parser_parse_value ::
      "nat \<Rightarrow> Tokenizer \<Rightarrow> store \<Rightarrow> string \<Rightarrow> error + (TomlValue \<times> Tokenizer \<times> store)"
  and array_loop ::
      "nat \<Rightarrow> Tokenizer \<Rightarrow> store \<Rightarrow> TomlValue \<Rightarrow> bool \<Rightarrow>
         error + (TomlValue \<times> Tokenizer \<times> store)"
  and inline_tabel_loop ::
      "nat \<Rightarrow> Tokenizer \<Rightarrow> store \<Rightarrow> addr \<Rightarrow> bool \<Rightarrow> bool \<Rightarrow>
         error + (addr \<times> Tokenizer \<times> store)" where
  "mytoml_parser_parse_value 0 tok h num_end = Inl OutOfFuel"
| "mytoml_parser_parse_value (Suc n) tok h num_end =
     (if mytoml_tokenizer_has_token tok
      then (let (nl, t0) = mytoml_parser_parse_newline tok
            in if nl then failed t0
               else if is_whitesapce (token t0)
                 then (case mytoml_parser_parse_whitespace n t0 of
                         Inl err \<Rightarrow> Inl err
                       | Inr t1 \<Rightarrow> mytoml_parser_parse_value n t1 h num_end)
               else if is_basic_string_start (token t0)
                 then (case string_value n t0 True of
                         Inl err \<Rightarrow> Inl err
                       | Inr (v, t1) \<Rightarrow> Inr (v, t1, h))
               else if is_literal_string_start (token t0)
                 then (case string_value n t0 False of
                         Inl err \<Rightarrow> Inl err
                       | Inr (v, t1) \<Rightarrow> Inr (v, t1, h))
               else if is_number_start (token t0)
                 then (case number_value n t0 num_end of
                         Inl err \<Rightarrow> Inl err
                       | Inr (v, t1) \<Rightarrow> Inr (v, t1, h))
               else if is_array_start (token t0)
                 then array_loop n (advance t0) h mytoml_value_new_array True
               else if is_inline_table_start (token t0)
                 then (let (keys, h1) = mytoml_value_new_key h TOML_TABLE
                       in case inline_tabel_loop n (advance t0) h1 keys True True of
                            Inl err \<Rightarrow> Inl err
                          | Inr (ks, t1, h2) \<Rightarrow>
                              (case mytoml_value_new_table n h2 ks of
                                 Inl err \<Rightarrow> Inl err
                               | Inr (v, h3) \<Rightarrow> Inr (v, t1, h3)))
               else if token t0 = CHR ''t'' \<or> token t0 = CHR ''f''
                 then (let (b, t1) = mytoml_parser_parse_boolean t0
                       in if \<not> (b = Finite 1 \<or> is_zero b) then failed t1
                          else Inr (mytoml_value_new_number b TOML_BOOL 0 False, t1, h))
               else if token t0 = CHR ''i'' \<or> token t0 = CHR ''n''
                 then (let (f, t1) = mytoml_parser_parse_lnf_nan t0 False
                       in if is_zero f then failed t1
                          else Inr (mytoml_value_new_number f TOML_FLOAT 0 False, t1, h))
               else failed t0)
      else failed tok)"
| "array_loop 0 tok h a sep = Inl OutOfFuel"
| "array_loop (Suc n) tok h a sep =
     (if mytoml_tokenizer_has_token tok
      then (if \<not> int (length (arr a)) < MYTOML_MAX_ARRAY_LENGTH then failed tok
            else if is_array_end (token tok) then Inr (a, advance tok, h)
            else if is_array_seperator (token tok)
              then (if sep then failed tok else array_loop n (advance tok) h a True)
            else (let (nl, t1) = mytoml_parser_parse_newline tok
                  in if nl then array_loop n (advance t1) h a sep
                     else if is_whitesapce (token t1)
                       then (case mytoml_parser_parse_whitespace n t1 of
                               Inl err \<Rightarrow> Inl err
                             | Inr t2 \<Rightarrow> array_loop n t2 h a sep)
                     else if is_comment_start (token t1)
                       then (case mytoml_parser_parse_comment n t1 of
                               Inl err \<Rightarrow> Inl err
                             | Inr (ok, t2) \<Rightarrow>
                                 (if \<not> ok then failed t2 else array_loop n t2 h a sep))
                     else (if \<not> sep then failed t1
                           else (case mytoml_parser_parse_value n t1 h ''#,] \<newline>'' of
                                   Inl err \<Rightarrow> Inl err
                                 | Inr (v, t2, h1) \<Rightarrow>
                                     array_loop n t2 h1
                                       (TomlValue (vtype a) (arr a @ [v]) (vdata a)
                                          (precision a) (scientific a))
                                       False))))
      else failed tok)"
| "inline_tabel_loop 0 tok h keys sep first = Inl OutOfFuel"
| "inline_tabel_loop (Suc n) tok h keys sep first =
     (if mytoml_tokenizer_has_token tok
      then (if is_inline_table_end (token tok)
            then (if \<not> (\<not> sep \<or> first) then failed tok else Inr (keys, advance tok, h))
            else if is_inline_table_seperator (token tok)
              then (if sep then failed tok
                    else inline_tabel_loop n (advance tok) h keys True first)
            else (let (nl, t1) = mytoml_parser_parse_newline tok
                  in if nl then failed t1
                     else if is_whitesapce (token t1)
                       then (case mytoml_parser_parse_whitespace n t1 of
                               Inl err \<Rightarrow> Inl err
                             | Inr t2 \<Rightarrow> inline_tabel_loop n t2 h keys sep first)
                     else (if \<not> sep then failed t1
                           else (case mytoml_parser_parse_key n t1 h keys True of
                                   Inl err \<Rightarrow> Inl err
                                 | Inr (k, t2, h1) \<Rightarrow>
                                     (case mytoml_parser_parse_value n t2 h1 '', }'' of
                                        Inl err \<Rightarrow> Inl err
                                      | Inr (v, t3, h2) \<Rightarrow>
                                          (case assign_value n h2 k v of
                                             Inl err \<Rightarrow> Inl err
                                           | Inr None \<Rightarrow> failed t3
                                           | Inr (Some h3) \<Rightarrow>
                                               (case mytoml_parser_parse_whitespace n t3 of
                                                  Inl err \<Rightarrow> Inl err
                                                | Inr t4 \<Rightarrow>
                                                    inline_tabel_loop n t4 h3 keys
                                                      False False)))))))
      else failed tok)"

definition mytoml_parser_parse_array ::
  "nat \<Rightarrow> Tokenizer \<Rightarrow> store \<Rightarrow> TomlValue \<Rightarrow> error + (TomlValue \<times> Tokenizer \<times> store)" where
  "mytoml_parser_parse_array n tok h a = array_loop n tok h a True"

definition mytoml_parser_parse_inline_tabel ::
  "nat \<Rightarrow> Tokenizer \<Rightarrow> store \<Rightarrow> error + (addr \<times> Tokenizer \<times> store)" where
  "mytoml_parser_parse_inline_tabel n tok h =
     (let (keys, h1) = mytoml_value_new_key h TOML_TABLE
      in inline_tabel_loop n tok h1 keys True True)"

subsection \<open>Statements and entry points\<close>

text \<open>
  The array-of-tables branch of \<open>_mytoml_parser_parse_key_value\<close>, after the header
  was parsed to the key \<open>table\<close>. The check compares the \<open>size_t\<close> field \<open>idx\<close> with
  the \<open>int\<close> constant converted to \<open>size_t\<close> (64 bits). The new row is stored at
  \<open>arr[++idx]\<close>; the model has no way to leave a gap of unset entries before it.
\<close>

definition new_row :: "nat \<Rightarrow> Tokenizer \<Rightarrow> store \<Rightarrow> addr \<Rightarrow> error + (addr \<times> Tokenizer \<times> store)" where
  "new_row n tok h table =
     (let h1 = (if kvalue (h ! table) = None
                then h[table := (h ! table)\<lparr> kvalue := Some mytoml_value_new_array \<rparr>]
                else h)
      in if \<not> idx (h1 ! table) < word_of_int (MYTOML_MAX_ARRAY_LENGTH - 1) then failed tok
         else (let (k, h2) = mytoml_value_new_key h1 TOML_TABLE
               in case mytoml_value_new_table n h2 k of
                    Inl err \<Rightarrow> Inl err
                  | Inr (row, h3) \<Rightarrow>
                      (case kvalue (h3 ! table) of
                         None \<Rightarrow> Inl UndefinedBehaviour
                       | Some v \<Rightarrow>
                           (let i = idx (h3 ! table) + 1
                            in if unat i \<le> length (arr v)
                               then Inr (table, tok,
                                      h3[table := (h3 ! table)\<lparr> idx := i, kvalue :=
                                           Some (TomlValue (vtype v)
                                                  (take (unat i) (arr v) @ [row] @
                                                   drop (Suc (unat i)) (arr v))
                                                  (vdata v) (precision v) (scientific v)) \<rparr>])
                               else Inl NotModelled))))"

definition mytoml_parser_parse_key_value ::
  "nat \<Rightarrow> Tokenizer \<Rightarrow> store \<Rightarrow> addr \<Rightarrow> addr \<Rightarrow> error + (addr \<times> Tokenizer \<times> store)" where
  "mytoml_parser_parse_key_value n tok h key rootk =
     (if is_comment_start (token tok)
      then (case mytoml_parser_parse_comment n tok of
              Inl err \<Rightarrow> Inl err
            | Inr (ok, t1) \<Rightarrow> (if \<not> ok then failed t1 else Inr (key, t1, h)))
      else if is_whitesapce (token tok)
        then (case mytoml_parser_parse_whitespace n tok of
                Inl err \<Rightarrow> Inl err
              | Inr t1 \<Rightarrow> Inr (key, t1, h))
      else (let (nl, t1) = mytoml_parser_parse_newline tok
            in if nl then Inr (key, advance t1, h)
               else if is_table_start (token t1)
                 then (let t2 = advance t1
                       in if is_table_start (token t2)
                          then (case mytoml_parser_parse_array_table n (advance t2) h rootk True of
                                  Inl err \<Rightarrow> Inl err
                                | Inr (table, t3, h1) \<Rightarrow> new_row n t3 h1 table)
                          else mytoml_parser_parse_table n t2 h rootk True)
               else if prev t1 = NUL \<or> is_newline (prev t1) \<or>
                       (is_whitesapce (prev t1) \<and> newline t1)
                 then (case mytoml_parser_parse_key n t1 h key True of
                         Inl err \<Rightarrow> Inl err
                       | Inr (subkey, t2, h1) \<Rightarrow>
                           (case mytoml_parser_parse_value n t2 h1 ''# \<newline>'' of
                              Inl err \<Rightarrow> Inl err
                            | Inr (v, t3, h2) \<Rightarrow>
                                (case assign_value n h2 subkey v of
                                   Inl err \<Rightarrow> Inl err
                                 | Inr None \<Rightarrow> failed t3
                                 | Inr (Some h3) \<Rightarrow>
                                     (case mytoml_parser_parse_whitespace n t3 of
                                        Inl err \<Rightarrow> Inl err
                                      | Inr t4 \<Rightarrow> Inr (key, t4, h3)))))
               else failed t1))"

text \<open>
  The loop the three entry points share: parse statements while the tokenizer has a
  token, and return the root. A failed statement makes the entry point return
  \<open>NULL\<close>.
\<close>

fun load_loop :: "nat \<Rightarrow> Tokenizer \<Rightarrow> store \<Rightarrow> addr \<Rightarrow> addr \<Rightarrow> error + (addr \<times> store)" where
  "load_loop 0 tok h key rootk = Inl OutOfFuel"
| "load_loop (Suc n) tok h key rootk =
     (if mytoml_tokenizer_has_token tok
      then (case mytoml_parser_parse_key_value n tok h key rootk of
              Inl err \<Rightarrow> Inl err
            | Inr (key', t1, h1) \<Rightarrow> load_loop n t1 h1 key' rootk)
      else (if fault tok then Inl UndefinedBehaviour else Inr (rootk, h)))"

definition load_buffer :: "nat \<Rightarrow> char list \<Rightarrow> error + (addr \<times> store)" where
  "load_buffer n buf =
     (let (rootk, h) = mytoml_value_new_key [] TOML_TABLE;
          h1 = h[rootk := (h ! rootk)\<lparr> key_id := ''root'' \<rparr>]
      in load_loop n (advance (new_tokenizer buf)) h1 rootk rootk)"

definition MYTOML_MAX_FILE_SIZE :: int where "MYTOML_MAX_FILE_SIZE = 1073741824"

text \<open>
  \<open>toml_load_file_name\<close> on a file that can be opened and read, given by its content:
  \<open>_mytoml_tokenizer_load_input\<close> refuses a file of \<open>MYTOML_MAX_FILE_SIZE\<close> bytes or
  more, and otherwise copies the content into a buffer that it ends with \<open>EOF\<close>.
\<close>

definition toml_load_file_name :: "nat \<Rightarrow> char list \<Rightarrow> error + (addr \<times> store)" where
  "toml_load_file_name n content =
     (if int (length content) \<ge> MYTOML_MAX_FILE_SIZE then Inl ParseFailure
      else load_buffer n (content @ [EOF_byte]))"

text \<open>
  \<open>toml_loads\<close> on a C string: the buffer is \<open>strdup(toml)\<close>, the bytes of the string
  and the terminating \<open>NUL\<close>, and \<open>_mytoml_tokenizer_load_input\<close> is not called.
\<close>

definition toml_loads :: "nat \<Rightarrow> string \<Rightarrow> error + (addr \<times> store)" where
  "toml_loads n s = load_buffer n (c_str s @ [NUL])"

section \<open>Serializer\<close>

text \<open>
  \<open>_mytoml_string_dump\<close>, and the scalar cases of \<open>toml_value_dump_buffer\<close>: the text
  appended to the buffer. \<open>printf\<close>'s conversions of a \<open>double\<close> are parameters:
  \<open>fmt_g d\<close> is \<open>%g\<close> and \<open>fmt_f p d\<close> is \<open>%.*lf\<close> with precision \<open>p\<close>. The cases of
  arrays, inline tables and date-times are left out.
\<close>

definition string_dump_char :: "char \<Rightarrow> string" where
  "string_dump_char c =
     (if c = CHR 0x08 then [CHR 0x5C, CHR ''b'']
      else if c = LF then [CHR 0x5C, CHR ''n'']
      else if c = CR then [CHR 0x5C, CHR ''r'']
      else if c = TAB then [CHR 0x5C, CHR ''t'']
      else if c = CHR 0x0C then [CHR 0x5C, CHR ''f'']
      else if c = CHR 0x5C then [CHR 0x5C, CHR 0x5C]
      else if c = CHR 0x22 then [CHR 0x5C, CHR 0x22]
      else [c])"

definition mytoml_string_dump :: "string \<Rightarrow> string" where
  "mytoml_string_dump s = concat (map string_dump_char (c_str s))"

definition toml_value_dump_buffer ::
  "(cdouble \<Rightarrow> string) \<Rightarrow> (int \<Rightarrow> cdouble \<Rightarrow> string) \<Rightarrow> TomlValue \<Rightarrow> error + string" where
  "toml_value_dump_buffer fmt_g fmt_f v =
     (case (vtype v, vdata v) of
        (TOML_STRING, DString str) \<Rightarrow>
          Inr ([CHR ''{'', CHR 0x22] @ ''type'' @ [CHR 0x22] @ '': '' @ [CHR 0x22] @ ''string'' @
               [CHR 0x22] @ '', '' @ [CHR 0x22] @ ''value'' @ [CHR 0x22] @ '': '' @
               mytoml_string_dump str @ [CHR 0x22, CHR ''}''])
      | (TOML_FLOAT, DDouble f) \<Rightarrow>
          Inr ([CHR ''{'', CHR 0x22] @ ''type'' @ [CHR 0x22] @ '': '' @ [CHR 0x22] @ ''float'' @
               [CHR 0x22] @ '', '' @ [CHR 0x22] @ ''value'' @ [CHR 0x22] @ '': '' @
               (if f = PosInf
                then [CHR 0x22, CHR ''}''] @ [CHR 0x22] @ ''inf'' @ [CHR 0x22, CHR ''}'']
                else if f = NegInf then [CHR 0x22] @ ''-inf'' @ [CHR 0x22, CHR ''}'']
                else if f = NotANumber then [CHR 0x22] @ ''nan'' @ [CHR 0x22, CHR ''}'']
                else if scientific v then [CHR 0x22] @ fmt_g f @ [CHR 0x22, CHR ''}'']
                else if is_zero f then [CHR 0x22] @ ''0.0'' @ [CHR 0x22, CHR ''}'']
                else [CHR 0x22] @ fmt_f (precision v) f @ [CHR 0x22, CHR ''}'']))
      | (TOML_INT, DDouble f) \<Rightarrow>
          Inr ([CHR ''{'', CHR 0x22] @ ''type'' @ [CHR 0x22] @ '': '' @ [CHR 0x22] @ ''integer'' @
               [CHR 0x22] @ '', '' @ [CHR 0x22] @ ''value'' @ [CHR 0x22] @ '': '' @
               [CHR 0x22] @ fmt_f 0 f @ [CHR 0x22, CHR ''}''])
      | (TOML_BOOL, DDouble f) \<Rightarrow>
          Inr ([CHR ''{'', CHR 0x22] @ ''type'' @ [CHR 0x22] @ '': '' @ [CHR 0x22] @ ''bool'' @
               [CHR 0x22] @ '', '' @ [CHR 0x22] @ ''value'' @ [CHR 0x22] @ '': '' @
               (if \<not> is_zero f then [CHR 0x22] @ ''true'' @ [CHR 0x22, CHR ''}'']
                else [CHR 0x22] @ ''false'' @ [CHR 0x22, CHR ''}'']))
      | _ \<Rightarrow> Inl NotModelled)"

section \<open>Notions used in the statements\<close>

text \<open>\<open>k\<close> calls of \<open>_mytoml_tokenizer_next_token\<close>.\<close>

fun advance_n :: "nat \<Rightarrow> Tokenizer \<Rightarrow> Tokenizer" where
  "advance_n 0 tok = tok"
| "advance_n (Suc k) tok = advance (advance_n k tok)"

text \<open>
  What \<open>token\<close> holds after the byte \<open>s ! i\<close> was read: the byte, or \<open>NUL\<close> for the
  end-of-input byte.
\<close>

definition tok_at :: "char list \<Rightarrow> nat \<Rightarrow> char" where
  "tok_at s i = (if s ! i = EOF_byte then NUL else s ! i)"

text \<open>
  A store in which the root (address 0) has the subkey \<open>a\<close> of kind \<open>existing\<close>
  (address 1), and a newly parsed key \<open>a\<close> of kind \<open>current\<close> (address 2) is about
  to be added to the root.
\<close>

definition redefinition_store :: "TomlKeyType \<Rightarrow> TomlKeyType \<Rightarrow> store" where
  "redefinition_store existing current =
     [\<lparr> ktype = TOML_TABLE, key_id = ''root'', subkeys = [(''a'', 1)], kvalue = None,
        idx = - 1 \<rparr>,
      \<lparr> ktype = existing, key_id = ''a'', subkeys = [], kvalue = None, idx = - 1 \<rparr>,
      \<lparr> ktype = current, key_id = ''a'', subkeys = [], kvalue = None, idx = - 1 \<rparr>]"

text \<open>The \<open>Number\<close> that \<open>_mytoml_parser_parse_number\<close> starts from.\<close>

abbreviation num0 :: Number where
  "num0 \<equiv> \<lparr> ntype = TOML_INT, nprecision = 0, nscientific = False \<rparr>"

text \<open>
  The body of a number after its base marker, as the statements describe it: digits of
  the base, with single underscores between two digits only. \<open>separated b w\<close> says that
  \<open>w\<close> is such a body, \<open>digits_of w\<close> is \<open>w\<close> without its underscores, and
  \<open>digits_value b ds\<close> is the number that the digits \<open>ds\<close> denote in base \<open>b\<close>.
\<close>

definition base_digit :: "int \<Rightarrow> char \<Rightarrow> bool" where
  "base_digit b c = (case digit_val c of None \<Rightarrow> False | Some d \<Rightarrow> d < b)"

fun separated :: "int \<Rightarrow> string \<Rightarrow> bool" where
  "separated b [] = False"
| "separated b [c] = base_digit b c"
| "separated b (c # d # r) =
     (base_digit b c \<and> (if d = CHR ''_'' then separated b r else separated b (d # r)))"

definition digits_of :: "string \<Rightarrow> string" where
  "digits_of w = filter (\<lambda>c. c \<noteq> CHR ''_'') w"

definition digits_value :: "int \<Rightarrow> string \<Rightarrow> int" where
  "digits_value b ds =
     foldl (\<lambda>a c. a * b + (case digit_val c of None \<Rightarrow> 0 | Some d \<Rightarrow> d)) 0 ds"

section \<open>Properties of the tokenizer\<close>

lemma char_of_255: "char_of (255::int) = CHR 0xFF"
  by code_simp

lemma of_char_255: "of_char c = (255::int) \<longleftrightarrow> c = CHR 0xFF"
proof
  assume "of_char c = (255::int)"
  then have "char_of (of_char c :: int) = (char_of (255::int) :: char)" by simp
  then show "c = CHR 0xFF" by (simp add: char_of_255)
next
  assume "c = CHR 0xFF" then show "of_char c = (255::int)" by simp
qed

lemma of_char_bound: "of_char c < (256::int)" "0 \<le> (of_char c :: int)"
  by (cases c; simp)+

lemma char_val_EOF: "char_val c = EOF \<longleftrightarrow> c = EOF_byte"
  using of_char_255 [of c] of_char_bound [of c]
  by (auto simp add: char_val_def EOF_def)

lemma advance_step:
  assumes "strm t = s" and "cursor t = int c" and "is_null t" and "c < length s"
  shows "strm (advance t) = s"
    and "cursor (advance t) = int (Suc c)"
    and "is_null (advance t) = (s ! c \<noteq> EOF_byte)"
    and "token (advance t) = tok_at s c"
    and "prev (advance t) = token t"
    and "prev_prev (advance t) = prev t"
    and "fault (advance t) = fault t"
    and "line (advance t) = (if token t = LF then line t + 1 else line t)"
    and "col (advance t) = (if token t = LF then 0 else col t + 1)"
  using assms
  by (simp_all add: advance_def mytoml_tokenizer_next_token_def next_read_def Let_def
        char_val_EOF tok_at_def)

lemma advance_n_Suc: "advance_n (Suc j) t = advance (advance_n j t)"
  by simp

lemma advance_n_shift: "advance_n j (advance t) = advance (advance_n j t)"
  by (induction j) simp_all

lemma advance_n_live:
  assumes "strm t = s" and "cursor t = int c" and "is_null t" and "c + j \<le> length s"
    and "\<forall>i. c \<le> i \<and> i < c + j \<longrightarrow> s ! i \<noteq> EOF_byte"
  shows "strm (advance_n j t) = s \<and> cursor (advance_n j t) = int (c + j) \<and>
         is_null (advance_n j t) \<and> fault (advance_n j t) = fault t"
  using assms(4,5)
proof (induction j)
  case 0
  show ?case using assms(1-3) by simp
next
  case (Suc j)
  then have ih: "strm (advance_n j t) = s" "cursor (advance_n j t) = int (c + j)"
    "is_null (advance_n j t)" "fault (advance_n j t) = fault t"
    by simp_all
  have lt: "c + j < length s" using Suc.prems by simp
  have ne: "s ! (c + j) \<noteq> EOF_byte" using Suc.prems by simp
  show ?case
    using advance_step [OF ih(1) ih(2) ih(3) lt] ne ih(4)
    by simp
qed

lemma advance_n_token:
  assumes "strm t = s" and "cursor t = int c" and "is_null t" and "c + j < length s"
    and "\<forall>i. c \<le> i \<and> i < c + j \<longrightarrow> s ! i \<noteq> EOF_byte"
  shows "token (advance_n (Suc j) t) = tok_at s (c + j)"
    and "prev (advance_n (Suc j) t) = token (advance_n j t)"
    and "prev_prev (advance_n (Suc j) t) = prev (advance_n j t)"
    and "cursor (advance_n (Suc j) t) = int (Suc (c + j))"
    and "strm (advance_n (Suc j) t) = s"
    and "fault (advance_n (Suc j) t) = fault t"
    and "line (advance_n (Suc j) t) =
           (if token (advance_n j t) = LF then line (advance_n j t) + 1 else line (advance_n j t))"
    and "col (advance_n (Suc j) t) =
           (if token (advance_n j t) = LF then 0 else col (advance_n j t) + 1)"
proof -
  have le: "c + j \<le> length s" using assms(4) by simp
  have l: "strm (advance_n j t) = s" "cursor (advance_n j t) = int (c + j)"
    "is_null (advance_n j t)" "fault (advance_n j t) = fault t"
    using advance_n_live [OF assms(1-3) le assms(5)] by simp_all
  note st = advance_step [OF l(1) l(2) l(3) assms(4)]
  show "token (advance_n (Suc j) t) = tok_at s (c + j)" using st(4) by simp
  show "prev (advance_n (Suc j) t) = token (advance_n j t)" using st(5) by simp
  show "prev_prev (advance_n (Suc j) t) = prev (advance_n j t)" using st(6) by simp
  show "cursor (advance_n (Suc j) t) = int (Suc (c + j))" using st(2) by simp
  show "strm (advance_n (Suc j) t) = s" using st(1) by simp
  show "fault (advance_n (Suc j) t) = fault t" using st(7) l(4) by simp
  show "line (advance_n (Suc j) t) =
           (if token (advance_n j t) = LF then line (advance_n j t) + 1 else line (advance_n j t))"
    using st(8) by simp
  show "col (advance_n (Suc j) t) =
           (if token (advance_n j t) = LF then 0 else col (advance_n j t) + 1)"
    using st(9) by simp
qed

lemma tok_at_LF: "s ! i \<noteq> LF \<Longrightarrow> tok_at s i \<noteq> LF"
  by (simp add: tok_at_def)

lemma advance_n_col:
  assumes "strm t = s" and "cursor t = int c" and "is_null t" and "c + j \<le> length s"
    and "\<forall>i. c \<le> i \<and> i < c + j \<longrightarrow> s ! i \<noteq> EOF_byte"
    and "token t \<noteq> LF"
    and "\<forall>i. c \<le> i \<and> Suc i < c + j \<longrightarrow> s ! i \<noteq> LF"
  shows "line (advance_n j t) = line t \<and> col (advance_n j t) = col t + int j \<and>
         (token (advance_n j t) = (if j = 0 then token t else tok_at s (c + j - 1)))"
  using assms(4,5,7)
proof (induction j)
  case 0
  show ?case by simp
next
  case (Suc j)
  have lt: "c + j < length s" using Suc.prems by simp
  have ne: "\<forall>i. c \<le> i \<and> i < c + j \<longrightarrow> s ! i \<noteq> EOF_byte" using Suc.prems by simp
  have ih: "line (advance_n j t) = line t" "col (advance_n j t) = col t + int j"
    "token (advance_n j t) = (if j = 0 then token t else tok_at s (c + j - 1))"
    using Suc.IH Suc.prems by simp_all
  have nl: "token (advance_n j t) \<noteq> LF"
  proof (cases j)
    case 0
    then show ?thesis using ih(3) assms(6) by simp
  next
    case (Suc j')
    then have "s ! (c + j - 1) \<noteq> LF" using Suc.prems(3) by simp
    then show ?thesis using ih(3) Suc by (simp add: tok_at_LF)
  qed
  note tk = advance_n_token [OF assms(1-3) lt ne]
  show ?case using tk(1) tk(7) tk(8) nl ih by simp
qed

lemma walk_lines_frame:
  "walk_lines p c t = (p', c', t') \<Longrightarrow>
     strm t' = strm t \<and> cursor t' = cursor t \<and> is_null t' = is_null t \<and>
     token t' = token t \<and> prev t' = prev t \<and> prev_prev t' = prev_prev t"
proof (induction p c t arbitrary: p' c' t' rule: walk_lines.induct)
  case (1 pre_count c tok)
  show ?case
  proof (cases "line tok \<ge> 0 \<and> pre_count > c")
    case False
    then show ?thesis using "1.prems" by (subst (asm) walk_lines.simps) auto
  next
    case True
    show ?thesis
    proof (cases "line tok - 1 < 0 \<or> line tok - 1 \<ge> MYTOML_MAX_NUM_LINES")
      case oob: True
      then show ?thesis using "1.prems" True
        by (subst (asm) walk_lines.simps) (auto simp add: Let_def)
    next
      case inb: False
      have "walk_lines (pre_count - c) (lines_get (lines tok) (line tok - 1))
              (tok\<lparr> line := line tok - 1 \<rparr>) = (p', c', t')"
        using "1.prems" True inb by (subst (asm) walk_lines.simps) (simp add: Let_def)
      from "1.IH" [OF True refl inb this] show ?thesis by simp
    qed
  qed
qed

lemma walk_lines_stop:
  "\<not> (line t \<ge> 0 \<and> p > c) \<Longrightarrow> walk_lines p c t = (p, c, t)"
  by (subst walk_lines.simps) auto


text \<open>
  Claim C4, as amended. Take a tokenizer over the buffer \<open>s\<close> that has consumed \<open>k\<close>
  bytes, none of the first \<open>k - 1\<close> being the end-of-input byte, with \<open>token\<close>, \<open>prev\<close>
  and \<open>prev_prev\<close> holding the last three of them, and \<open>n\<close> with \<open>1 \<le> n\<close> and
  \<open>n + 2 < k\<close>. Then \<open>backtrace(n)\<close> followed by \<open>n\<close> advances gives back the same
  \<open>token\<close>, \<open>prev\<close>, \<open>prev_prev\<close> and cursor: the backtrace itself moves the cursor
  back by \<open>n + 2\<close> and advances twice. Line and column come back as well when the
  column is at least \<open>n + 2\<close> and none of the last \<open>n + 2\<close> bytes consumed is a newline,
  and then no read leaves the line table.
\<close>

theorem backtrace_then_advance:
  assumes s: "strm T = s" and k: "cursor T = int k" and len: "k \<le> length s"
    and eof: "\<forall>i. Suc i < k \<longrightarrow> s ! i \<noteq> EOF_byte"
    and tk: "token T = tok_at s (k - 1)" and pv: "prev T = s ! (k - 2)"
    and pp: "prev_prev T = s ! (k - 3)"
    and n: "1 \<le> n" and nk: "n + 2 < k"
  shows "token (advance_n n (mytoml_tokenizer_backtrace T (int n))) = token T \<and>
         prev (advance_n n (mytoml_tokenizer_backtrace T (int n))) = prev T \<and>
         prev_prev (advance_n n (mytoml_tokenizer_backtrace T (int n))) = prev_prev T \<and>
         cursor (advance_n n (mytoml_tokenizer_backtrace T (int n))) = cursor T \<and>
         (\<not> fault T \<and> 0 \<le> line T \<and> int n + 2 \<le> col T \<and>
          (\<forall>i. k - (n + 2) \<le> i \<and> i < k \<longrightarrow> s ! i \<noteq> LF) \<longrightarrow>
            line (advance_n n (mytoml_tokenizer_backtrace T (int n))) = line T \<and>
            col (advance_n n (mytoml_tokenizer_backtrace T (int n))) = col T \<and>
            \<not> fault (advance_n n (mytoml_tokenizer_backtrace T (int n))))"
proof -
  define c where "c = k - (n + 2)"
  define t1 where "t1 = T\<lparr> cursor := cursor T - (int n + 2), is_null := True \<rparr>"
  obtain pc cl t2 where w: "walk_lines (int n + 2) (col t1) t1 = (pc, cl, t2)"
    by (cases "walk_lines (int n + 2) (col t1) t1") auto
  define t3 where "t3 = t2\<lparr> col := cl - pc \<rparr>"
  define t4 where "t4 = (if line t3 < 0 then t3\<lparr> line := 0 \<rparr> else t3)"
  define t5 where "t5 = (if col t4 < 0 then t4\<lparr> col := 0 \<rparr> else t4)"
  define T' where "T' = advance_n n (mytoml_tokenizer_backtrace T (int n))"
  have bt: "mytoml_tokenizer_backtrace T (int n) = advance (advance t5)"
    using n nk k w
    by (simp add: mytoml_tokenizer_backtrace_def Let_def t1_def t3_def t4_def t5_def
          add.commute)
  have T'_eq: "T' = advance_n (Suc (Suc n)) t5"
  proof -
    have "advance_n n (advance (advance t5)) = advance_n (Suc (Suc n)) t5"
      by (simp add: advance_n_shift)
    then show ?thesis by (simp add: T'_def bt)
  qed
  note fr = walk_lines_frame [OF w]
  have f5: "strm t5 = s" "cursor t5 = int c" "is_null t5" "token t5 = token T"
    using fr s k nk by (simp_all add: t5_def t4_def t3_def t1_def c_def)
  have ck: "c + Suc n < length s" "c + n < length s" "c + n + 1 = k - 1" "c + Suc (Suc n) = k"
    using nk len by (simp_all add: c_def)
  have ne1: "\<forall>i. c \<le> i \<and> i < c + Suc n \<longrightarrow> s ! i \<noteq> EOF_byte"
    using eof ck by auto
  have ne0: "\<forall>i. c \<le> i \<and> i < c + n \<longrightarrow> s ! i \<noteq> EOF_byte"
    using ne1 by auto
  note a2 = advance_n_token [OF f5(1-3) ck(1) ne1]
  note a1 = advance_n_token [OF f5(1-3) ck(2) ne0]
  have tokT: "token T' = token T"
    using a2(1) tk ck by (simp add: T'_eq)
  have prevT: "prev T' = prev T"
  proof -
    have "prev T' = tok_at s (c + n)" using a2(2) a1(1) by (simp add: T'_eq)
    moreover have "c + n = k - 2" using ck by simp
    moreover have "s ! (k - 2) \<noteq> EOF_byte" using eof nk by simp
    ultimately show ?thesis using pv by (simp add: tok_at_def)
  qed
  have ppT: "prev_prev T' = prev_prev T"
  proof -
    have n1: "n = Suc (n - 1)" using n by simp
    have lt3: "c + (n - 1) < length s" using ck by simp
    have ne3: "\<forall>i. c \<le> i \<and> i < c + (n - 1) \<longrightarrow> s ! i \<noteq> EOF_byte"
      using ne0 by auto
    note a0 = advance_n_token [OF f5(1-3) lt3 ne3]
    have "prev (advance_n n t5) = token (advance_n (n - 1) t5)"
      using a0(2) n1 by simp
    have "prev_prev T' = prev (advance_n (Suc n) t5)" using a2(3) by (simp add: T'_eq)
    also have "\<dots> = token (advance_n n t5)" using a1(2) by simp
    also have "\<dots> = tok_at s (c + (n - 1))" using a0(1) n1 by simp
    finally have "prev_prev T' = tok_at s (k - 3)" using ck n by (simp add: c_def)
    moreover have "s ! (k - 3) \<noteq> EOF_byte" using eof nk by simp
    ultimately show ?thesis using pp by (simp add: tok_at_def)
  qed
  have curT: "cursor T' = cursor T"
    using a2(4) ck k by (simp add: T'_eq)
  have lc: "line T' = line T \<and> col T' = col T \<and> \<not> fault T'"
    if h: "\<not> fault T \<and> 0 \<le> line T \<and> int n + 2 \<le> col T \<and>
           (\<forall>i. k - (n + 2) \<le> i \<and> i < k \<longrightarrow> s ! i \<noteq> LF)"
  proof -
    have stop: "walk_lines (int n + 2) (col t1) t1 = (int n + 2, col t1, t1)"
      using h by (intro walk_lines_stop) (simp add: t1_def)
    have ct: "col t1 = col T" by (simp add: t1_def)
    have e: "pc = int n + 2" "cl = col T" "t2 = t1" using w stop ct by auto
    have t5e: "line t5 = line T" "col t5 = col T - (int n + 2)" "fault t5 = fault T"
      using e h by (simp_all add: t5_def t4_def t3_def t1_def)
    have tkl: "token t5 \<noteq> LF"
    proof -
      have "s ! (k - 1) \<noteq> LF" using h nk by simp
      then show ?thesis using f5(4) tk by (simp add: tok_at_LF)
    qed
    have nl: "\<forall>i. c \<le> i \<and> Suc i < c + Suc n \<longrightarrow> s ! i \<noteq> LF"
      using h ck by (auto simp add: c_def)
    have le1: "c + Suc n \<le> length s" using ck by simp
    note cc = advance_n_col [OF f5(1-3) le1 ne1 tkl nl]
    have tl: "token (advance_n (Suc n) t5) \<noteq> LF"
    proof -
      have "s ! (c + n) \<noteq> LF" using h ck by (simp add: c_def)
      then show ?thesis using cc by (simp add: tok_at_LF)
    qed
    show ?thesis
      using a2(6) a2(7) a2(8) tl cc t5e h by (simp add: T'_eq)
  qed
  show ?thesis
    using tokT prevT ppT curT lc unfolding T'_def by blast
qed


text \<open>
  Witness for C4: the tokenizer that has read \<open>abcde\<close> of \<open>abcdefgh\<close>, and \<open>n = 1\<close>.
\<close>

theorem backtrace_then_advance_witness:
  "strm (advance_n 5 (new_tokenizer ''abcdefgh'')) = ''abcdefgh'' \<and>
   cursor (advance_n 5 (new_tokenizer ''abcdefgh'')) = 5 \<and>
   token (advance_n 5 (new_tokenizer ''abcdefgh'')) = CHR ''e'' \<and>
   prev (advance_n 5 (new_tokenizer ''abcdefgh'')) = CHR ''d'' \<and>
   prev_prev (advance_n 5 (new_tokenizer ''abcdefgh'')) = CHR ''c'' \<and>
   line (advance_n 5 (new_tokenizer ''abcdefgh'')) = 0 \<and>
   col (advance_n 5 (new_tokenizer ''abcdefgh'')) = 5 \<and>
   token (advance_n 1 (mytoml_tokenizer_backtrace (advance_n 5 (new_tokenizer ''abcdefgh'')) 1))
     = CHR ''e'' \<and>
   prev (advance_n 1 (mytoml_tokenizer_backtrace (advance_n 5 (new_tokenizer ''abcdefgh'')) 1))
     = CHR ''d'' \<and>
   prev_prev (advance_n 1 (mytoml_tokenizer_backtrace (advance_n 5 (new_tokenizer ''abcdefgh'')) 1))
     = CHR ''c'' \<and>
   cursor (advance_n 1 (mytoml_tokenizer_backtrace (advance_n 5 (new_tokenizer ''abcdefgh'')) 1))
     = 5 \<and>
   line (advance_n 1 (mytoml_tokenizer_backtrace (advance_n 5 (new_tokenizer ''abcdefgh'')) 1))
     = 0 \<and>
   col (advance_n 1 (mytoml_tokenizer_backtrace (advance_n 5 (new_tokenizer ''abcdefgh'')) 1))
     = 5"
proof -
  let ?s = "''abcdefgh''"
  let ?T = "advance_n 5 (new_tokenizer ?s)"
  have h1: "strm ?T = ?s" by code_simp
  have h2: "cursor ?T = int 5" by code_simp
  have h3: "5 \<le> length ?s" by simp
  have h4: "\<forall>i. Suc i < 5 \<longrightarrow> ?s ! i \<noteq> EOF_byte"
  proof (intro allI impI)
    fix i :: nat
    assume "Suc i < 5"
    then have "i < length ?s" by simp
    then have "?s ! i \<in> set ?s" by (rule nth_mem)
    moreover have "EOF_byte \<notin> set ?s" by simp
    ultimately show "?s ! i \<noteq> EOF_byte" by metis
  qed
  have h5: "token ?T = tok_at ?s (5 - 1)" by code_simp
  have h6: "prev ?T = ?s ! (5 - 2)" by code_simp
  have h7: "prev_prev ?T = ?s ! (5 - 3)" by code_simp
  have h8: "1 \<le> (1::nat)" and h9: "(1::nat) + 2 < 5" by simp_all
  have g1: "\<not> fault ?T" by code_simp
  have g2: "0 \<le> line ?T" by code_simp
  have g3: "int 1 + 2 \<le> col ?T" by code_simp
  have g4: "\<forall>i. 5 - (1 + 2) \<le> i \<and> i < 5 \<longrightarrow> ?s ! i \<noteq> LF"
  proof (intro allI impI)
    fix i :: nat
    assume "5 - (1 + 2) \<le> i \<and> i < 5"
    then have "i < length ?s" by simp
    then have "?s ! i \<in> set ?s" by (rule nth_mem)
    moreover have "LF \<notin> set ?s" by simp
    ultimately show "?s ! i \<noteq> LF" by metis
  qed
  have v: "token ?T = CHR ''e''" "prev ?T = CHR ''d''" "prev_prev ?T = CHR ''c''"
    "line ?T = 0" "col ?T = 5"
    by code_simp+
  note th = backtrace_then_advance [OF h1 h2 h3 h4 h5 h6 h7 h8 h9]
  show ?thesis using th g1 g2 g3 g4 h1 h2 v by simp
qed

text \<open>
  Counterexample for C4 as stated. After \<open>abcde\<close> of \<open>abcdefgh\<close> was read,
  \<open>backtrace(1)\<close> followed by \<open>1 + 2\<close> advances leaves \<open>g\<close> in \<open>token\<close>, not \<open>e\<close>. And
  with \<open>n\<close> advances the line and the column are not restored across a newline: after
  the five bytes of the first line of \<open>abcd\<close>, newline, \<open>ef\<close> were read, at line 0 and
  column 5, \<open>backtrace(1)\<close> and one advance end at line 1 and column 2.
\<close>

theorem backtrace_counterexample:
  "token (advance_n 5 (new_tokenizer ''abcdefgh'')) = CHR ''e'' \<and>
   token (advance_n (1 + 2)
            (mytoml_tokenizer_backtrace (advance_n 5 (new_tokenizer ''abcdefgh'')) 1))
     = CHR ''g'' \<and>
   line (advance_n 5 (new_tokenizer ''abcd\<newline>ef'')) = 0 \<and>
   col (advance_n 5 (new_tokenizer ''abcd\<newline>ef'')) = 5 \<and>
   line (advance_n 1 (mytoml_tokenizer_backtrace (advance_n 5 (new_tokenizer ''abcd\<newline>ef'')) 1))
     = 1 \<and>
   col (advance_n 1 (mytoml_tokenizer_backtrace (advance_n 5 (new_tokenizer ''abcd\<newline>ef'')) 1))
     = 2"
  by code_simp

section \<open>Properties of the key model\<close>

text \<open>
  Claim C2, as amended. When the subkey being added has the identifier of an existing
  subkey of kind Key, the merge is accepted and returns the existing node, the store
  unchanged, if the new subkey is of kind Key or Table; it is refused (\<open>NULL\<close>) if the
  new subkey is of kind KeyLeaf, TableLeaf or ArrayTable.
\<close>

theorem add_sub_key_onto_key:
  assumes "mytoml_value_has_sub_key h key subkey = Some s" and "ktype (h ! s) = TOML_KEY"
  shows "mytoml_value_add_sub_key (Suc n) h key subkey =
           (if ktype (h ! subkey) = TOML_KEY \<or> ktype (h ! subkey) = TOML_TABLE
            then Inr (Some s, h) else Inr (None, h))"
  using assms by (cases "ktype (h ! subkey)") (simp_all add: mytoml_value_keys_compatible_def)

text \<open>Witness for C2: a Table \<open>a\<close> is merged into the existing Key \<open>a\<close> of the root.\<close>

theorem add_sub_key_onto_key_witness:
  "mytoml_value_has_sub_key (redefinition_store TOML_KEY TOML_TABLE) 0 2 = Some 1 \<and>
   ktype (redefinition_store TOML_KEY TOML_TABLE ! 1) = TOML_KEY \<and>
   mytoml_value_add_sub_key (Suc 0) (redefinition_store TOML_KEY TOML_TABLE) 0 2 =
     Inr (Some 1, redefinition_store TOML_KEY TOML_TABLE)"
proof -
  have a: "mytoml_value_has_sub_key (redefinition_store TOML_KEY TOML_TABLE) 0 2 = Some 1"
    by (simp add: redefinition_store_def mytoml_value_has_sub_key_def kh_get_def)
  have b: "ktype (redefinition_store TOML_KEY TOML_TABLE ! 1) = TOML_KEY"
    by (simp add: redefinition_store_def)
  have c: "ktype (redefinition_store TOML_KEY TOML_TABLE ! 2) = TOML_TABLE"
    by (simp add: redefinition_store_def)
  show ?thesis using add_sub_key_onto_key [OF a b, of 0] a b c by simp
qed

text \<open>
  Counterexample for C2 as stated: onto an existing Key \<open>a\<close>, a new KeyLeaf, TableLeaf
  or ArrayTable \<open>a\<close> is refused; and the document \<open>a.b = 1\<close>, \<open>a = 2\<close>, which defines
  the KeyLeaf \<open>a\<close> after the Key \<open>a\<close>, fails to parse.
\<close>

theorem key_row_counterexample:
  "mytoml_value_add_sub_key 1 (redefinition_store TOML_KEY TOML_KEYLEAF) 0 2 =
     Inr (None, redefinition_store TOML_KEY TOML_KEYLEAF) \<and>
   mytoml_value_add_sub_key 1 (redefinition_store TOML_KEY TOML_TABLELEAF) 0 2 =
     Inr (None, redefinition_store TOML_KEY TOML_TABLELEAF) \<and>
   mytoml_value_add_sub_key 1 (redefinition_store TOML_KEY TOML_ARRAYTABLE) 0 2 =
     Inr (None, redefinition_store TOML_KEY TOML_ARRAYTABLE) \<and>
   toml_load_file_name 100 ''a.b = 1\<newline>a = 2\<newline>'' = Inl ParseFailure"
  by code_simp

text \<open>
  Claim C8. When the subkey being added has the identifier of an existing subkey \<open>s\<close>:
  if \<open>s\<close> is a Table and the new subkey a TableLeaf, the merge succeeds, returns \<open>s\<close>
  and makes \<open>s\<close> a TableLeaf, after which adding the TableLeaf again is refused; and
  if \<open>s\<close> is a KeyLeaf, the new subkey is refused whatever its kind.
\<close>

theorem tableleaf_promotion_once:
  assumes "mytoml_value_has_sub_key h key subkey = Some s" and "s < length h"
  shows "(ktype (h ! s) = TOML_TABLE \<and> ktype (h ! subkey) = TOML_TABLELEAF \<longrightarrow>
            mytoml_value_add_sub_key (Suc n) h key subkey =
              Inr (Some s, h[s := (h ! s)\<lparr> ktype := TOML_TABLELEAF \<rparr>]) \<and>
            ktype (h[s := (h ! s)\<lparr> ktype := TOML_TABLELEAF \<rparr>] ! s) = TOML_TABLELEAF \<and>
            mytoml_value_add_sub_key (Suc m) (h[s := (h ! s)\<lparr> ktype := TOML_TABLELEAF \<rparr>])
                key subkey =
              Inr (None, h[s := (h ! s)\<lparr> ktype := TOML_TABLELEAF \<rparr>])) \<and>
         (ktype (h ! s) = TOML_KEYLEAF \<longrightarrow>
            mytoml_value_add_sub_key (Suc n) h key subkey = Inr (None, h))"
proof (intro conjI impI)
  assume k: "ktype (h ! s) = TOML_KEYLEAF"
  show "mytoml_value_add_sub_key (Suc n) h key subkey = Inr (None, h)"
    using assms k by (simp add: mytoml_value_keys_compatible_def)
next
  assume t: "ktype (h ! s) = TOML_TABLE \<and> ktype (h ! subkey) = TOML_TABLELEAF"
  let ?h = "h[s := (h ! s)\<lparr> ktype := TOML_TABLELEAF \<rparr>]"
  show first: "mytoml_value_add_sub_key (Suc n) h key subkey = Inr (Some s, ?h)"
    using assms t by (simp add: mytoml_value_keys_compatible_def)
  show up: "ktype (?h ! s) = TOML_TABLELEAF"
    using assms by simp
  have ne: "subkey \<noteq> s" using t by auto
  have sk: "subkeys (?h ! key) = subkeys (h ! key)"
    using assms by (cases "key = s") simp_all
  have id: "key_id (?h ! subkey) = key_id (h ! subkey)"
    using ne by simp
  have has: "mytoml_value_has_sub_key ?h key subkey = Some s"
    using assms(1) sk id by (simp add: mytoml_value_has_sub_key_def)
  have ty: "ktype (?h ! subkey) = TOML_TABLELEAF"
    using ne t by simp
  show "mytoml_value_add_sub_key (Suc m) ?h key subkey = Inr (None, ?h)"
    using has up ty by (simp add: mytoml_value_keys_compatible_def)
qed

text \<open>
  Witness for C8: a TableLeaf \<open>a\<close> onto the Table \<open>a\<close> of the root, once and again, and
  a Key \<open>a\<close> onto a KeyLeaf \<open>a\<close>. In documents: \<open>[a.b]\<close> twice is a parse error;
  \<open>[a]\<close> after \<open>[a.b]\<close> is accepted once and rejected the second time; \<open>a = 1\<close> twice
  is a parse error.
\<close>

theorem tableleaf_promotion_once_witness:
  "mytoml_value_has_sub_key (redefinition_store TOML_TABLE TOML_TABLELEAF) 0 2 = Some 1 \<and>
   mytoml_value_add_sub_key (Suc 0) (redefinition_store TOML_TABLE TOML_TABLELEAF) 0 2 =
     Inr (Some 1, redefinition_store TOML_TABLELEAF TOML_TABLELEAF) \<and>
   mytoml_value_add_sub_key (Suc 0) (redefinition_store TOML_TABLELEAF TOML_TABLELEAF) 0 2 =
     Inr (None, redefinition_store TOML_TABLELEAF TOML_TABLELEAF) \<and>
   mytoml_value_has_sub_key (redefinition_store TOML_KEYLEAF TOML_KEY) 0 2 = Some 1 \<and>
   mytoml_value_add_sub_key (Suc 0) (redefinition_store TOML_KEYLEAF TOML_KEY) 0 2 =
     Inr (None, redefinition_store TOML_KEYLEAF TOML_KEY) \<and>
   toml_load_file_name 100 ''[a.b]\<newline>[a.b]\<newline>'' = Inl ParseFailure \<and>
   toml_load_file_name 100 ''[a.b]\<newline>[a]\<newline>[a]\<newline>'' = Inl ParseFailure \<and>
   toml_load_file_name 100 ''a = 1\<newline>a = 1\<newline>'' = Inl ParseFailure"
proof -
  have a: "mytoml_value_has_sub_key (redefinition_store TOML_TABLE TOML_TABLELEAF) 0 2 = Some 1"
    by (simp add: redefinition_store_def mytoml_value_has_sub_key_def kh_get_def)
  have b: "1 < length (redefinition_store TOML_TABLE TOML_TABLELEAF)"
    by (simp add: redefinition_store_def)
  have c: "mytoml_value_has_sub_key (redefinition_store TOML_KEYLEAF TOML_KEY) 0 2 = Some 1"
    by (simp add: redefinition_store_def mytoml_value_has_sub_key_def kh_get_def)
  have d: "1 < length (redefinition_store TOML_KEYLEAF TOML_KEY)"
    by (simp add: redefinition_store_def)
  have e: "(redefinition_store TOML_TABLE TOML_TABLELEAF)
             [1 := (redefinition_store TOML_TABLE TOML_TABLELEAF ! 1)\<lparr> ktype := TOML_TABLELEAF \<rparr>] =
           redefinition_store TOML_TABLELEAF TOML_TABLELEAF"
    by (simp add: redefinition_store_def)
  have f: "ktype (redefinition_store TOML_TABLE TOML_TABLELEAF ! 1) = TOML_TABLE"
    "ktype (redefinition_store TOML_TABLE TOML_TABLELEAF ! 2) = TOML_TABLELEAF"
    "ktype (redefinition_store TOML_KEYLEAF TOML_KEY ! 1) = TOML_KEYLEAF"
    by (simp_all add: redefinition_store_def)
  have g: "toml_load_file_name 100 ''[a.b]\<newline>[a.b]\<newline>'' = Inl ParseFailure \<and>
    toml_load_file_name 100 ''[a.b]\<newline>[a]\<newline>[a]\<newline>'' = Inl ParseFailure \<and>
    toml_load_file_name 100 ''a = 1\<newline>a = 1\<newline>'' = Inl ParseFailure"
    by code_simp
  have t1: "mytoml_value_add_sub_key (Suc 0) (redefinition_store TOML_TABLE TOML_TABLELEAF) 0 2 =
              Inr (Some 1, (redefinition_store TOML_TABLE TOML_TABLELEAF)
                 [1 := (redefinition_store TOML_TABLE TOML_TABLELEAF ! 1)
                         \<lparr> ktype := TOML_TABLELEAF \<rparr>]) \<and>
            mytoml_value_add_sub_key (Suc 0) ((redefinition_store TOML_TABLE TOML_TABLELEAF)
                 [1 := (redefinition_store TOML_TABLE TOML_TABLELEAF ! 1)
                         \<lparr> ktype := TOML_TABLELEAF \<rparr>]) 0 2 =
              Inr (None, (redefinition_store TOML_TABLE TOML_TABLELEAF)
                 [1 := (redefinition_store TOML_TABLE TOML_TABLELEAF ! 1)
                         \<lparr> ktype := TOML_TABLELEAF \<rparr>])"
    using tableleaf_promotion_once [OF a b, of 0 0] f by blast
  have t2: "mytoml_value_add_sub_key (Suc 0) (redefinition_store TOML_KEYLEAF TOML_KEY) 0 2 =
              Inr (None, redefinition_store TOML_KEYLEAF TOML_KEY)"
    using tableleaf_promotion_once [OF c d, of 0 0] f by blast
  show ?thesis
    using t1 t2 a c g unfolding e by blast
qed

text \<open>
  Claim C9 fails on the code. \<open>toml_get_key\<close> compares the requested identifier with the
  identifier of the queried node before it searches the subkeys, and on a match it
  returns the queried node, whatever the subkeys hold. A subkey that bears the name of
  its parent cannot be reached: in the document \<open>a.a = 1\<close> the node \<open>a\<close> (address 1)
  holds the subkey \<open>a\<close> (address 2), and lookup of \<open>a\<close> on it returns the node itself;
  in the document \<open>root = 1\<close> lookup of \<open>root\<close> on the root returns the root, not the
  key of the document (address 1).
\<close>

theorem get_key_hides_subkey:
  "toml_get_key h (Some k) (key_id (h ! k)) = Some k \<and>
   toml_load_file_name 100 ''a.a = 1\<newline>'' =
     Inr (0, [\<lparr> ktype = TOML_TABLE, key_id = ''root'', subkeys = [(''a'', 1)],
            kvalue = None, idx = - 1 \<rparr>,
          \<lparr> ktype = TOML_KEY, key_id = ''a'', subkeys = [(''a'', 2)],
            kvalue = None, idx = - 1 \<rparr>,
          \<lparr> ktype = TOML_KEYLEAF, key_id = ''a'', subkeys = [],
            kvalue = Some (TomlValue TOML_INT [] (DDouble (Finite 1)) 0 False), idx = - 1 \<rparr>]) \<and>
   kh_get (subkeys ([\<lparr> ktype = TOML_TABLE, key_id = ''root'', subkeys = [(''a'', 1)],
            kvalue = None, idx = - 1 \<rparr>,
          \<lparr> ktype = TOML_KEY, key_id = ''a'', subkeys = [(''a'', 2)],
            kvalue = None, idx = - 1 \<rparr>,
          \<lparr> ktype = TOML_KEYLEAF, key_id = ''a'', subkeys = [],
            kvalue = Some (TomlValue TOML_INT [] (DDouble (Finite 1)) 0 False), idx = - 1 \<rparr>] ! 1)) ''a'' = Some 2 \<and>
   toml_get_key [\<lparr> ktype = TOML_TABLE, key_id = ''root'', subkeys = [(''a'', 1)],
            kvalue = None, idx = - 1 \<rparr>,
          \<lparr> ktype = TOML_KEY, key_id = ''a'', subkeys = [(''a'', 2)],
            kvalue = None, idx = - 1 \<rparr>,
          \<lparr> ktype = TOML_KEYLEAF, key_id = ''a'', subkeys = [],
            kvalue = Some (TomlValue TOML_INT [] (DDouble (Finite 1)) 0 False), idx = - 1 \<rparr>] (Some 1) ''a'' = Some 1 \<and>
   toml_load_file_name 100 ''root = 1\<newline>'' =
     Inr (0, [\<lparr> ktype = TOML_TABLE, key_id = ''root'', subkeys = [(''root'', 1)],
            kvalue = None, idx = - 1 \<rparr>,
          \<lparr> ktype = TOML_KEYLEAF, key_id = ''root'', subkeys = [],
            kvalue = Some (TomlValue TOML_INT [] (DDouble (Finite 1)) 0 False), idx = - 1 \<rparr>]) \<and>
   kh_get (subkeys ([\<lparr> ktype = TOML_TABLE, key_id = ''root'', subkeys = [(''root'', 1)],
            kvalue = None, idx = - 1 \<rparr>,
          \<lparr> ktype = TOML_KEYLEAF, key_id = ''root'', subkeys = [],
            kvalue = Some (TomlValue TOML_INT [] (DDouble (Finite 1)) 0 False), idx = - 1 \<rparr>] ! 0)) ''root'' = Some 1 \<and>
   toml_get_key [\<lparr> ktype = TOML_TABLE, key_id = ''root'', subkeys = [(''root'', 1)],
            kvalue = None, idx = - 1 \<rparr>,
          \<lparr> ktype = TOML_KEYLEAF, key_id = ''root'', subkeys = [],
            kvalue = Some (TomlValue TOML_INT [] (DDouble (Finite 1)) 0 False), idx = - 1 \<rparr>] (Some 0) ''root'' = Some 0"
proof -
  have a: "toml_get_key h (Some k) (key_id (h ! k)) = Some k"
    by (simp add: toml_get_key_def)
  have b: "toml_load_file_name 100 ''a.a = 1\<newline>'' =
     Inr (0, [\<lparr> ktype = TOML_TABLE, key_id = ''root'', subkeys = [(''a'', 1)],
            kvalue = None, idx = - 1 \<rparr>,
          \<lparr> ktype = TOML_KEY, key_id = ''a'', subkeys = [(''a'', 2)],
            kvalue = None, idx = - 1 \<rparr>,
          \<lparr> ktype = TOML_KEYLEAF, key_id = ''a'', subkeys = [],
            kvalue = Some (TomlValue TOML_INT [] (DDouble (Finite 1)) 0 False), idx = - 1 \<rparr>]) \<and>
   kh_get (subkeys ([\<lparr> ktype = TOML_TABLE, key_id = ''root'', subkeys = [(''a'', 1)],
            kvalue = None, idx = - 1 \<rparr>,
          \<lparr> ktype = TOML_KEY, key_id = ''a'', subkeys = [(''a'', 2)],
            kvalue = None, idx = - 1 \<rparr>,
          \<lparr> ktype = TOML_KEYLEAF, key_id = ''a'', subkeys = [],
            kvalue = Some (TomlValue TOML_INT [] (DDouble (Finite 1)) 0 False), idx = - 1 \<rparr>] ! 1)) ''a'' = Some 2 \<and>
   toml_get_key [\<lparr> ktype = TOML_TABLE, key_id = ''root'', subkeys = [(''a'', 1)],
            kvalue = None, idx = - 1 \<rparr>,
          \<lparr> ktype = TOML_KEY, key_id = ''a'', subkeys = [(''a'', 2)],
            kvalue = None, idx = - 1 \<rparr>,
          \<lparr> ktype = TOML_KEYLEAF, key_id = ''a'', subkeys = [],
            kvalue = Some (TomlValue TOML_INT [] (DDouble (Finite 1)) 0 False), idx = - 1 \<rparr>] (Some 1) ''a'' = Some 1 \<and>
   toml_load_file_name 100 ''root = 1\<newline>'' =
     Inr (0, [\<lparr> ktype = TOML_TABLE, key_id = ''root'', subkeys = [(''root'', 1)],
            kvalue = None, idx = - 1 \<rparr>,
          \<lparr> ktype = TOML_KEYLEAF, key_id = ''root'', subkeys = [],
            kvalue = Some (TomlValue TOML_INT [] (DDouble (Finite 1)) 0 False), idx = - 1 \<rparr>]) \<and>
   kh_get (subkeys ([\<lparr> ktype = TOML_TABLE, key_id = ''root'', subkeys = [(''root'', 1)],
            kvalue = None, idx = - 1 \<rparr>,
          \<lparr> ktype = TOML_KEYLEAF, key_id = ''root'', subkeys = [],
            kvalue = Some (TomlValue TOML_INT [] (DDouble (Finite 1)) 0 False), idx = - 1 \<rparr>] ! 0)) ''root'' = Some 1 \<and>
   toml_get_key [\<lparr> ktype = TOML_TABLE, key_id = ''root'', subkeys = [(''root'', 1)],
            kvalue = None, idx = - 1 \<rparr>,
          \<lparr> ktype = TOML_KEYLEAF, key_id = ''root'', subkeys = [],
            kvalue = Some (TomlValue TOML_INT [] (DDouble (Finite 1)) 0 False), idx = - 1 \<rparr>] (Some 0) ''root'' = Some 0"
    by code_simp
  show ?thesis
    by (rule conjI [OF a b])
qed

section \<open>Properties of the parser and the serializer\<close>

text \<open>
  Claim C1 fails on the code. The document \<open>[[t]]\<close>, \<open>n = 1\<close>, \<open>[[t]]\<close>, \<open>n = 2\<close> is
  not parsed: \<open>toml_load_file_name\<close> returns \<open>NULL\<close>.
\<close>

theorem array_table_document_fails:
  "toml_load_file_name 100 ''[[t]]\<newline>n = 1\<newline>[[t]]\<newline>n = 2'' = Inl ParseFailure"
  by code_simp

text \<open>
  The reason: a key is created with \<open>idx = -1\<close> in a \<open>size_t\<close>, and the first
  array-of-tables header on it fails the check \<open>idx < MYTOML_MAX_ARRAY_LENGTH - 1\<close>.
\<close>

lemma new_row_first_fails:
  "idx (h ! table) = - 1 \<Longrightarrow> new_row n tok h table = failed tok"
  by (cases "table < length h")
     (simp_all add: new_row_def MYTOML_MAX_ARRAY_LENGTH_def Let_def list_update_beyond)

text \<open>
  Claim C3 fails on the code for \<open>toml_loads\<close>: on the empty string it returns \<open>NULL\<close>,
  where \<open>toml_load_file_name\<close> on the empty file returns a root without subkeys.
\<close>

theorem toml_loads_empty_fails:
  "toml_loads 100 [] = Inl ParseFailure \<and>
   toml_load_file_name 100 [] = Inr (0, [\<lparr> ktype = TOML_TABLE, key_id = ''root'', subkeys = [], kvalue = None, idx = - 1 \<rparr>])"
  by code_simp

text \<open>
  Claim C5 fails on the code in its second half. One newline after the opening
  delimiter is dropped, and so is a second one: both documents give \<open>hello\<close> followed
  by a newline.
\<close>

theorem multiline_leading_newlines:
  \<open>toml_load_file_name 100 ''s = """\<newline>hello\<newline>"""'' =
     Inr (0, [\<lparr> ktype = TOML_TABLE, key_id = ''root'', subkeys = [(''s'', 1)],
                kvalue = None, idx = - 1 \<rparr>,
              \<lparr> ktype = TOML_KEYLEAF, key_id = ''s'', subkeys = [],
                kvalue = Some (TomlValue TOML_STRING [] (DString ''hello\<newline>'') 0 False), idx = - 1 \<rparr>]) \<and>
   toml_load_file_name 100 ''s = """\<newline>\<newline>hello\<newline>"""'' =
     Inr (0, [\<lparr> ktype = TOML_TABLE, key_id = ''root'', subkeys = [(''s'', 1)],
                kvalue = None, idx = - 1 \<rparr>,
              \<lparr> ktype = TOML_KEYLEAF, key_id = ''s'', subkeys = [],
                kvalue = Some (TomlValue TOML_STRING [] (DString ''hello\<newline>'') 0 False), idx = - 1 \<rparr>])\<close>
  by code_simp

text \<open>
  Claim C6 fails on the code for positive infinity: the serializer appends a quote and
  a closing brace before the quoted \<open>inf\<close>.
\<close>

theorem dump_positive_infinity:
  \<open>toml_value_dump_buffer fmt_g fmt_f (TomlValue TOML_FLOAT [] (DDouble PosInf) p sci) =
     Inr ''{"type": "float", "value": "}"inf"}''\<close>
  by (simp add: toml_value_dump_buffer_def)

section \<open>Properties of the number parser\<close>

text \<open>
  Characters that are digits of a base, and what \<open>strtoul\<close> makes of a string of them.
\<close>

lemma base_digit_props:
  assumes "base_digit b c" and "b = 2 \<or> b = 8 \<or> b = 16"
  shows "c \<noteq> CHR ''_''" and "c \<noteq> NUL" and "c \<noteq> EOF_byte" and "\<not> c_isspace c"
    and "c \<noteq> CHR ''+''" and "c \<noteq> CHR ''-''" and "c \<noteq> CHR ''x''" and "c \<noteq> CHR ''X''"
    and "is_digit c \<or> (b = 16 \<and> is_hex_digit c)"
  using assms
  by (auto simp add: base_digit_def digit_val_def char_val_def Let_def c_isspace_def
        is_digit_def is_hex_digit_def split: if_splits)

lemma separated_hd: "separated b w \<Longrightarrow> w \<noteq> [] \<and> base_digit b (hd w)"
  by (induction b w rule: separated.induct) simp_all

lemma separated_chars: "separated b w \<Longrightarrow> \<forall>c\<in>set w. base_digit b c \<or> c = CHR ''_''"
  by (induction b w rule: separated.induct) (auto split: if_splits)

lemma base_digit_underscore: "\<not> base_digit b (CHR ''_'')"
  by (simp add: base_digit_def digit_val_def char_val_def)

lemma separated_digits:
  "separated b w \<Longrightarrow> digits_of w \<noteq> [] \<and> (\<forall>c\<in>set (digits_of w). base_digit b c)"
  using separated_hd [of b w] separated_chars [of b w] base_digit_underscore [of b]
  by (cases w) (auto simp add: digits_of_def)

lemma take_digits_all:
  "\<forall>c\<in>set ds. base_digit b c \<Longrightarrow>
   take_digits b ds acc cnt =
     (foldl (\<lambda>a c. a * b + (case digit_val c of None \<Rightarrow> 0 | Some d \<Rightarrow> d)) acc ds,
      cnt + length ds)"
  by (induction ds arbitrary: acc cnt) (auto simp add: base_digit_def split: option.splits)

lemma foldl_digits_nonneg:
  "0 \<le> b \<Longrightarrow> 0 \<le> acc \<Longrightarrow>
   0 \<le> foldl (\<lambda>a c. a * b + (case digit_val c of None \<Rightarrow> 0 | Some d \<Rightarrow> d)) acc ds"
proof (induction ds arbitrary: acc)
  case Nil
  then show ?case by simp
next
  case (Cons c ds)
  have "0 \<le> (case digit_val c of None \<Rightarrow> 0 | Some d \<Rightarrow> d)"
    by (auto simp add: digit_val_def Let_def split: option.splits if_splits)
  then have "0 \<le> acc * b + (case digit_val c of None \<Rightarrow> 0 | Some d \<Rightarrow> d)"
    using Cons.prems by simp
  then show ?case using Cons.IH [OF Cons.prems(1)] by simp
qed

lemma digits_value_nonneg: "0 \<le> b \<Longrightarrow> 0 \<le> digits_value b ds"
  unfolding digits_value_def by (rule foldl_digits_nonneg) simp_all

lemma strtoul_digits:
  assumes ne: "ds \<noteq> []" and dg: "\<forall>c\<in>set ds. base_digit b c"
    and b: "b = 2 \<or> b = 8 \<or> b = 16"
  shows "strtoul (c_str ds) b =
           (if digits_value b ds > ULONG_MAX then ULONG_MAX else digits_value b ds, length ds)"
proof -
  obtain c cs where ds: "ds = c # cs" using ne by (cases ds) auto
  have c: "base_digit b c" using dg ds by simp
  note pc = base_digit_props [OF c b]
  have nn: "\<forall>c\<in>set ds. c \<noteq> NUL" using dg base_digit_props(2) [OF _ b] by blast
  have cs: "c_str ds = ds" using nn by (simp add: c_str_def takeWhile_eq_all_conv)
  have dw: "dropWhile c_isspace ds = ds" using pc(4) ds by simp
  have sl: "sign_len ds = 0" using pc(5,6) ds by (simp add: sign_len_def)
  have ng: "\<not> is_neg ds" using pc(6) ds by (simp add: is_neg_def)
  have hp: "\<not> hex_prefix ds"
  proof (cases cs)
    case Nil
    then show ?thesis using ds by (simp add: hex_prefix_def)
  next
    case (Cons d r)
    then have "base_digit b d" using dg ds by simp
    from base_digit_props(7,8) [OF this b] show ?thesis
      using ds Cons by (simp add: hex_prefix_def)
  qed
  have td: "take_digits b ds 0 0 = (digits_value b ds, length ds)"
    using take_digits_all [OF dg, of 0 0] by (simp add: digits_value_def)
  show ?thesis
    using ne by (simp add: strtoul_def cs dw sl ng hp td Let_def del: take_digits.simps)
qed

lemma digit_iteration:
  assumes "is_null t" and "int (length val) < MYTOML_MAX_STRING_LENGTH"
    and "token t \<notin> set num_end" and "token t \<noteq> CHR ''_''"
  shows "base_unit_loop (Suc n) t b num_end val =
           base_unit_loop n (advance t) b num_end (val @ [token t])"
  using assms
  by (simp add: mytoml_tokenizer_has_token_def is_number_end_def is_underscore_def)

lemma underscore_iteration:
  assumes "is_null t" and "int (length val) < MYTOML_MAX_STRING_LENGTH"
    and "token t = CHR ''_''" and "CHR ''_'' \<notin> set num_end"
  shows "base_unit_loop (Suc n) t b num_end val =
           (if (is_digit (token (advance t)) \<or> (b = 16 \<and> is_hex_digit (token (advance t)))) \<and>
               (is_digit (prev_prev (advance t)) \<or>
                (b = 16 \<and> is_hex_digit (prev_prev (advance t))))
            then base_unit_loop n (advance (advance t)) b num_end (val @ [token (advance t)])
            else Inr (Finite (- 1), advance t))"
  using assms
  by (simp add: mytoml_tokenizer_has_token_def is_number_end_def is_underscore_def Let_def)

lemma end_iteration:
  assumes "is_null t" and "int (length val) < MYTOML_MAX_STRING_LENGTH"
    and "token t \<in> set num_end" and "val \<noteq> []"
  shows "base_unit_loop (Suc n) t b num_end val =
           (let (num, used) = strtoul (c_str val) b
            in if used = length val then Inr (Finite (of_int num), t)
               else Inr (Finite (- 1), t))"
  using assms
  by (simp add: mytoml_tokenizer_has_token_def is_number_end_def)

lemma advance_n_at:
  assumes "strm t = s" and "cursor t = int (Suc p)" and "is_null t"
    and "p + Suc k < length s"
    and "\<forall>i. p < i \<and> i < p + Suc k \<longrightarrow> s ! i \<noteq> EOF_byte"
  shows "strm (advance_n (Suc k) t) = s"
    and "cursor (advance_n (Suc k) t) = int (Suc (p + Suc k))"
    and "token (advance_n (Suc k) t) = tok_at s (p + Suc k)"
    and "is_null (advance_n (Suc k) t) = (s ! (p + Suc k) \<noteq> EOF_byte)"
    and "prev (advance_n (Suc k) t) = token (advance_n k t)"
    and "fault (advance_n (Suc k) t) = fault t"
proof -
  have le: "Suc p + k \<le> length s" using assms(4) by simp
  have lt: "Suc p + k < length s" using assms(4) by simp
  have ne: "\<forall>i. Suc p \<le> i \<and> i < Suc p + k \<longrightarrow> s ! i \<noteq> EOF_byte" using assms(5) by simp
  have l: "strm (advance_n k t) = s" "cursor (advance_n k t) = int (Suc p + k)"
    "is_null (advance_n k t)" "fault (advance_n k t) = fault t"
    using advance_n_live [OF assms(1-3) le ne] by simp_all
  note st = advance_step [OF l(1) l(2) l(3) lt]
  show "strm (advance_n (Suc k) t) = s" using st(1) by simp
  show "cursor (advance_n (Suc k) t) = int (Suc (p + Suc k))" using st(2) by simp
  show "token (advance_n (Suc k) t) = tok_at s (p + Suc k)" using st(4) by simp
  show "is_null (advance_n (Suc k) t) = (s ! (p + Suc k) \<noteq> EOF_byte)" using st(3) by simp
  show "prev (advance_n (Suc k) t) = token (advance_n k t)" using st(5) by simp
  show "fault (advance_n (Suc k) t) = fault t" using st(7) l(4) by simp
qed

text \<open>
  The loop of \<open>_mytoml_parser_parse_base_unit\<close> over a body: every digit takes one
  iteration, an underscore and the digit after it take one together.
\<close>

lemma body_run:
  assumes "separated b w" and "b = 2 \<or> b = 8 \<or> b = 16"
    and "strm t = pre @ w @ rest" and "rest \<noteq> []"
    and "cursor t = int (Suc (length pre))" and "is_null t" and "token t = hd w"
    and "\<forall>c\<in>set w. c \<notin> set num_end"
    and "int (length val) + int (length (digits_of w)) \<le> MYTOML_MAX_STRING_LENGTH"
  shows "base_unit_loop (length (digits_of w) + n) t b num_end val =
           base_unit_loop n (advance_n (length w) t) b num_end (val @ digits_of w)"
  using assms
proof (induction b w arbitrary: t pre val n rule: separated.induct)
  case (1 b)
  then show ?case by simp
next
  case (2 b c)
  have c: "base_digit b c" using "2.prems"(1) by simp
  note p = base_digit_props [OF c "2.prems"(2)]
  have d: "digits_of [c] = [c]" using p(1) by (simp add: digits_of_def)
  have "base_unit_loop (Suc n) t b num_end val =
          base_unit_loop n (advance t) b num_end (val @ [token t])"
    using "2.prems" p d by (intro digit_iteration) simp_all
  then show ?case using "2.prems"(7) d by (simp del: base_unit_loop.simps)
next
  case (3 b c d r)
  let ?s = "pre @ (c # d # r) @ rest"
  have c: "base_digit b c" using "3.prems"(1) by simp
  note pc = base_digit_props [OF c "3.prems"(2)]
  have tk: "token t = c" using "3.prems"(7) by simp
  have len: "Suc (length pre) < length ?s" by simp
  note st = advance_step [OF "3.prems"(3) "3.prems"(5) "3.prems"(6) len]
  have sd: "?s ! Suc (length pre) = d" by (simp add: nth_append)
  have sc: "?s ! length pre = c" by (simp add: nth_append)
  show ?case
  proof (cases "d = CHR ''_''")
    case True
    have sr: "separated b r" using "3.prems"(1) True by simp
    obtain d' r' where r: "r = d' # r'" using separated_hd [OF sr] by (cases r) auto
    have d': "base_digit b d'" using separated_hd [OF sr] r by simp
    note pd = base_digit_props [OF d' "3.prems"(2)]
    obtain k where k: "length (digits_of r) = Suc k"
      using r pd(1) by (simp add: digits_of_def)
    have dw: "digits_of (c # d # r) = c # digits_of r"
      using True pc(1) by (simp add: digits_of_def)
    have lv: "int (length val) < MYTOML_MAX_STRING_LENGTH"
      and lv1: "int (length (val @ [c])) < MYTOML_MAX_STRING_LENGTH"
      and lv2: "int (length (val @ [c])) + int (length (digits_of r)) \<le> MYTOML_MAX_STRING_LENGTH"
      using "3.prems"(9) dw k by simp_all
    let ?t1 = "advance t"
    let ?t2 = "advance ?t1"
    have t1: "strm ?t1 = ?s" "cursor ?t1 = int (Suc (Suc (length pre)))" "is_null ?t1"
      "token ?t1 = CHR ''_''" "prev ?t1 = c"
      using st sd sc True tk by (simp_all add: tok_at_def)
    have len2: "Suc (Suc (length pre)) < length ?s" using r by simp
    note st2 = advance_step [OF t1(1) t1(2) t1(3) len2]
    have sd2: "?s ! Suc (Suc (length pre)) = d'" using r by (simp add: nth_append)
    have t2: "strm ?t2 = (pre @ [c, d]) @ r @ rest"
      "cursor ?t2 = int (Suc (length (pre @ [c, d])))" "is_null ?t2"
      "token ?t2 = hd r" "prev_prev ?t2 = c"
      using st2 sd2 t1 pd(3) r by (simp_all add: tok_at_def)
    have nd: "d' \<notin> set num_end" "c \<notin> set num_end" "CHR ''_'' \<notin> set num_end"
      "\<forall>c\<in>set r. c \<notin> set num_end"
      using "3.prems"(8) r True by simp_all
    have s1: "base_unit_loop (Suc (Suc k + n)) t b num_end val =
                base_unit_loop (Suc k + n) ?t1 b num_end (val @ [c])"
      using digit_iteration [OF "3.prems"(6) lv, of num_end "Suc k + n" b] nd(2) pc(1) tk
      by simp
    have s2: "base_unit_loop (Suc (k + n)) ?t1 b num_end (val @ [c]) =
                base_unit_loop (k + n) (advance ?t2) b num_end ((val @ [c]) @ [token ?t2])"
      using underscore_iteration [OF t1(3) lv1 t1(4) nd(3), of "k + n" b] t2(4,5) r pd(9) pc(9)
      by simp
    have s3: "base_unit_loop (Suc (k + n)) ?t2 b num_end (val @ [c]) =
                base_unit_loop (k + n) (advance ?t2) b num_end ((val @ [c]) @ [token ?t2])"
      using digit_iteration [OF t2(3) lv1, of num_end "k + n" b] t2(4) r nd(1) pd(1)
      by simp
    have ih: "base_unit_loop (length (digits_of r) + n) ?t2 b num_end (val @ [c]) =
                base_unit_loop n (advance_n (length r) ?t2) b num_end ((val @ [c]) @ digits_of r)"
      by (rule "3.IH"(1) [OF True sr "3.prems"(2) t2(1) "3.prems"(4) t2(2) t2(3) t2(4) nd(4) lv2])
    have sh: "advance_n (length r) ?t2 = advance_n (length (c # d # r)) t"
      by (simp add: advance_n_shift)
    have f: "length (digits_of (c # d # r)) + n = Suc (Suc k + n)" using dw k by simp
    have g: "length (digits_of r) + n = Suc (k + n)" using k by simp
    have "base_unit_loop (length (digits_of (c # d # r)) + n) t b num_end val =
            base_unit_loop (length (digits_of r) + n) ?t2 b num_end (val @ [c])"
      unfolding f g using s1 s2 s3 by (simp del: base_unit_loop.simps)
    then show ?thesis
      using ih unfolding sh dw by (simp del: base_unit_loop.simps)
  next
    case False
    have sr: "separated b (d # r)" using "3.prems"(1) False by simp
    have d: "base_digit b d" using separated_hd [OF sr] by simp
    note pd = base_digit_props [OF d "3.prems"(2)]
    have dw: "digits_of (c # d # r) = c # digits_of (d # r)"
      using pc(1) by (simp add: digits_of_def)
    have lv: "int (length val) < MYTOML_MAX_STRING_LENGTH"
      and lv2: "int (length (val @ [c])) + int (length (digits_of (d # r))) \<le>
                  MYTOML_MAX_STRING_LENGTH"
      using "3.prems"(9) dw by simp_all
    let ?t1 = "advance t"
    have t1: "strm ?t1 = (pre @ [c]) @ (d # r) @ rest"
      "cursor ?t1 = int (Suc (length (pre @ [c])))" "is_null ?t1"
      "token ?t1 = hd (d # r)"
      using st sd pd(3) by (simp_all add: tok_at_def)
    have nd: "c \<notin> set num_end" "\<forall>c\<in>set (d # r). c \<notin> set num_end"
      using "3.prems"(8) by simp_all
    have s1: "base_unit_loop (Suc (length (digits_of (d # r)) + n)) t b num_end val =
                base_unit_loop (length (digits_of (d # r)) + n) ?t1 b num_end (val @ [c])"
      using digit_iteration [OF "3.prems"(6) lv, of num_end _ b] nd(1) pc(1) tk
      by simp
    have ih: "base_unit_loop (length (digits_of (d # r)) + n) ?t1 b num_end (val @ [c]) =
                base_unit_loop n (advance_n (length (d # r)) ?t1) b num_end
                  ((val @ [c]) @ digits_of (d # r))"
      by (rule "3.IH"(2) [OF False sr "3.prems"(2) t1(1) "3.prems"(4) t1(2) t1(3) t1(4) nd(2) lv2])
    have sh: "advance_n (length (d # r)) ?t1 = advance_n (length (c # d # r)) t"
      by (simp add: advance_n_shift)
    have f: "length (digits_of (c # d # r)) + n = Suc (length (digits_of (d # r)) + n)"
      using dw by simp
    show ?thesis
      using s1 ih unfolding sh f unfolding dw by (simp del: base_unit_loop.simps)
  qed
qed

lemma run_end_state:
  assumes sep: "separated b w" and b: "b = 2 \<or> b = 8 \<or> b = 16"
    and s: "strm t = pre @ w @ e # post"
    and cu: "cursor t = int (Suc (length pre))" and nu: "is_null t" and tk: "token t = hd w"
  shows "strm (advance_n (length w) t) = pre @ w @ e # post"
    and "cursor (advance_n (length w) t) = int (Suc (length pre + length w))"
    and "token (advance_n (length w) t) = (if e = EOF_byte then NUL else e)"
    and "is_null (advance_n (length w) t) = (e \<noteq> EOF_byte)"
    and "prev (advance_n (length w) t) = last w"
    and "fault (advance_n (length w) t) = fault t"
proof -
  let ?s = "pre @ w @ e # post"
  let ?p = "length pre"
  obtain c r where w: "w = c # r" using separated_hd [OF sep] by (cases w) auto
  have ch: "\<forall>c\<in>set w. c \<noteq> EOF_byte"
    using separated_chars [OF sep] base_digit_props(3) [OF _ b] by auto
  have nth: "\<And>i. i < length w \<Longrightarrow> ?s ! (?p + i) = w ! i" by (simp add: nth_append)
  have ne: "\<forall>i. ?p < i \<and> i < ?p + Suc (length r) \<longrightarrow> ?s ! i \<noteq> EOF_byte"
  proof (intro allI impI)
    fix i assume i: "?p < i \<and> i < ?p + Suc (length r)"
    then have "i - ?p < length w" using w by auto
    then have "?s ! (?p + (i - ?p)) = w ! (i - ?p)" and "w ! (i - ?p) \<in> set w"
      using nth by simp_all
    then show "?s ! i \<noteq> EOF_byte" using ch i by auto
  qed
  have lt: "?p + Suc (length r) < length ?s" using w by simp
  note at = advance_n_at [OF s cu nu lt ne]
  have e: "?s ! (?p + Suc (length r)) = e" using w by (simp add: nth_append)
  show "strm (advance_n (length w) t) = ?s" using at(1) w by simp
  show "cursor (advance_n (length w) t) = int (Suc (?p + length w))" using at(2) w by simp
  show "token (advance_n (length w) t) = (if e = EOF_byte then NUL else e)"
    using at(3) e w by (simp add: tok_at_def)
  show "is_null (advance_n (length w) t) = (e \<noteq> EOF_byte)" using at(4) e w by simp
  show "fault (advance_n (length w) t) = fault t" using at(6) w by simp
  show "prev (advance_n (length w) t) = last w"
  proof (cases r)
    case Nil
    then show ?thesis using at(5) w tk by simp
  next
    case (Cons d r')
    have lt': "?p + Suc (length r') < length ?s" using w Cons by simp
    have ne': "\<forall>i. ?p < i \<and> i < ?p + Suc (length r') \<longrightarrow> ?s ! i \<noteq> EOF_byte"
      using ne Cons by simp
    note at' = advance_n_at [OF s cu nu lt' ne']
    have "Suc (length r') < length w" using w Cons by simp
    then have n1: "?s ! (?p + Suc (length r')) = w ! Suc (length r')" by (rule nth)
    have l: "last w = w ! Suc (length r')" using w Cons by (simp add: last_conv_nth)
    have "last w \<in> set w" using w by simp
    then have "last w \<noteq> EOF_byte" using ch by blast
    then have "tok_at ?s (?p + Suc (length r')) = last w"
      using n1 l by (simp add: tok_at_def)
    then show ?thesis using at(5) at'(3) w Cons by simp
  qed
qed

lemma marker_state:
  assumes s: "strm t = pre @ CHR ''0'' # m # rest" and r: "rest \<noteq> []"
    and cu: "cursor t = int (Suc (length pre))" and nu: "is_null t"
    and m: "m \<noteq> EOF_byte"
  shows "token (advance t) = m"
    and "strm (advance (advance t)) = (pre @ [CHR ''0'', m]) @ rest"
    and "cursor (advance (advance t)) = int (Suc (length (pre @ [CHR ''0'', m])))"
    and "token (advance (advance t)) = (if hd rest = EOF_byte then NUL else hd rest)"
    and "is_null (advance (advance t)) = (hd rest \<noteq> EOF_byte)"
    and "prev (advance (advance t)) = m"
    and "fault (advance (advance t)) = fault t"
proof -
  let ?s = "pre @ CHR ''0'' # m # rest"
  have l1: "Suc (length pre) < length ?s" by simp
  note s1 = advance_step [OF s cu nu l1]
  have m1: "?s ! Suc (length pre) = m" by (simp add: nth_append)
  have n1: "is_null (advance t)" using s1(3) m1 m by simp
  have l2: "Suc (Suc (length pre)) < length ?s" using r by simp
  note s2 = advance_step [OF s1(1) s1(2) n1 l2]
  have m2: "?s ! Suc (Suc (length pre)) = hd rest" using r by (cases rest) (simp_all add: nth_append)
  show "token (advance t) = m" using s1(4) m1 m by (simp add: tok_at_def)
  then show "prev (advance (advance t)) = m" using s2(5) by simp
  show "strm (advance (advance t)) = (pre @ [CHR ''0'', m]) @ rest" using s2(1) by simp
  show "cursor (advance (advance t)) = int (Suc (length (pre @ [CHR ''0'', m])))"
    using s2(2) by simp
  show "token (advance (advance t)) = (if hd rest = EOF_byte then NUL else hd rest)"
    using s2(4) m2 by (simp add: tok_at_def)
  show "is_null (advance (advance t)) = (hd rest \<noteq> EOF_byte)" using s2(3) m2 by simp
  show "fault (advance (advance t)) = fault t" using s2(7) s1(7) by simp
qed

lemma marker_iteration:
  assumes "is_null t" and "token t = CHR ''0''" and "CHR ''0'' \<notin> set num_end"
    and "(m, b) \<in> {(CHR ''x'', 16), (CHR ''o'', 8), (CHR ''b'', 2)}"
    and "token (advance t) = m"
  shows "number_loop (Suc n) t num_end [] num0 =
           based_number n (advance (advance t)) b num_end num0"
  using assms
  by (auto simp add: mytoml_tokenizer_has_token_def MYTOML_MAX_STRING_LENGTH_def
        is_number_end_def Let_def)

lemma base_marked_accepts:
  assumes s: "strm t = pre @ CHR ''0'' # m # w @ e # post"
    and cu: "cursor t = int (Suc (length pre))" and nu: "is_null t"
    and tk: "token t = CHR ''0''"
    and mb: "(m, b) \<in> {(CHR ''x'', 16), (CHR ''o'', 8), (CHR ''b'', 2)}"
    and sep: "separated b w"
    and e: "e \<in> set num_end" "e \<noteq> EOF_byte"
    and z: "CHR ''0'' \<notin> set num_end" and wn: "\<forall>c\<in>set w. c \<notin> set num_end"
    and ln: "int (length (digits_of w)) < MYTOML_MAX_STRING_LENGTH"
    and v: "digits_value b (digits_of w) < 2 ^ 53"
  shows "mytoml_parser_parse_number (length (digits_of w) + 2 + n) t num_end =
           Inr (num0, Finite (of_int (digits_value b (digits_of w))),
                advance_n (length w + 2) t)"
proof -
  let ?t2 = "advance (advance t)"
  let ?T = "advance_n (length w) ?t2"
  let ?ds = "digits_of w"
  have b: "b = 2 \<or> b = 8 \<or> b = 16" and m: "m \<noteq> EOF_byte" using mb by auto
  have hw: "w \<noteq> []" "base_digit b (hd w)" using separated_hd [OF sep] by simp_all
  have hd: "hd (w @ e # post) = hd w" using hw by simp
  have hn: "hd w \<noteq> EOF_byte" using base_digit_props(3) [OF hw(2) b] .
  have s': "strm t = pre @ CHR ''0'' # m # (w @ e # post)" using s by simp
  have rn: "w @ e # post \<noteq> []" by simp
  note ms = marker_state [OF s' rn cu nu m]
  have t2: "strm ?t2 = (pre @ [CHR ''0'', m]) @ w @ e # post"
    "cursor ?t2 = int (Suc (length (pre @ [CHR ''0'', m])))" "is_null ?t2" "token ?t2 = hd w"
    using ms hd hn by simp_all
  have first: "number_loop (Suc (length ?ds + Suc n)) t num_end [] num0 =
                 based_number (length ?ds + Suc n) ?t2 b num_end num0"
    by (rule marker_iteration [OF nu tk z mb ms(1)])
  have ep: "e # post \<noteq> []" by simp
  have lv: "int (length ([]::string)) + int (length ?ds) \<le> MYTOML_MAX_STRING_LENGTH"
    using ln by simp
  have run: "base_unit_loop (length ?ds + Suc n) ?t2 b num_end [] =
               base_unit_loop (Suc n) ?T b num_end ([] @ ?ds)"
    by (rule body_run [OF sep b t2(1) ep t2(2) t2(3) t2(4) wn lv])
  note es = run_end_state [OF sep b t2(1) t2(2) t2(3) t2(4)]
  have T: "is_null ?T" "token ?T \<in> set num_end" using es(3,4) e by simp_all
  note sd = separated_digits [OF sep]
  have dn: "?ds \<noteq> []" and dg: "\<forall>c\<in>set ?ds. base_digit b c" using sd by simp_all
  have vm: "\<not> digits_value b ?ds > ULONG_MAX" using v by (simp add: ULONG_MAX_def)
  have cv: "strtoul (c_str ?ds) b = (digits_value b ?ds, length ?ds)"
    using strtoul_digits [OF dn dg b] vm by simp
  have fin: "base_unit_loop (Suc n) ?T b num_end ?ds =
               Inr (Finite (of_int (digits_value b ?ds)), ?T)"
    using end_iteration [OF T(1) ln T(2) dn, of n b] cv by simp
  have nn: "0 \<le> digits_value b ?ds" using b by (intro digits_value_nonneg) auto
  have n1: "Finite (of_int (digits_value b ?ds)) \<noteq> Finite (- 1)"
    using nn of_int_eq_iff [of "digits_value b ?ds" "- 1", where 'a = rat] by simp
  have sh: "?T = advance_n (length w + 2) t" by (simp add: advance_n_shift)
  have "mytoml_parser_parse_number (length ?ds + 2 + n) t num_end =
          based_number (length ?ds + Suc n) ?t2 b num_end num0"
    using first by (simp add: mytoml_parser_parse_number_def del: number_loop.simps)
  also have "\<dots> = Inr (num0, Finite (of_int (digits_value b ?ds)), ?T)"
    using run fin n1
    by (simp add: based_number_def mytoml_parser_parse_base_unit_def del: base_unit_loop.simps)
  finally show ?thesis unfolding sh .
qed

lemma base_marked_rejects_underscore:
  assumes s: "strm t = pre @ CHR ''0'' # m # u @ CHR ''_'' # x # post"
    and cu: "cursor t = int (Suc (length pre))" and nu: "is_null t"
    and tk: "token t = CHR ''0''"
    and mb: "(m, b) \<in> {(CHR ''x'', 16), (CHR ''o'', 8), (CHR ''b'', 2)}"
    and u: "u = [] \<or> separated b u \<and> \<not> is_digit x \<and> \<not> is_hex_digit x"
    and z: "CHR ''0'' \<notin> set num_end" and us: "CHR ''_'' \<notin> set num_end"
    and un: "\<forall>c\<in>set u. c \<notin> set num_end"
    and ln: "int (length (digits_of u)) < MYTOML_MAX_STRING_LENGTH"
    and nf: "\<not> fault t"
  shows "mytoml_parser_parse_number (length (digits_of u) + 2 + n) t num_end =
           Inl ParseFailure"
proof -
  let ?t2 = "advance (advance t)"
  let ?ds = "digits_of u"
  let ?rest = "u @ CHR ''_'' # x # post"
  have b: "b = 2 \<or> b = 8 \<or> b = 16" and m: "m \<noteq> EOF_byte" using mb by auto
  have md: "\<not> (is_digit m \<or> (b = 16 \<and> is_hex_digit m))"
    using mb by (auto simp add: is_digit_def is_hex_digit_def char_val_def)
  have rn: "?rest \<noteq> []" by simp
  note ms = marker_state [OF s rn cu nu m]
  have first: "number_loop (Suc (length ?ds + Suc n)) t num_end [] num0 =
                 based_number (length ?ds + Suc n) ?t2 b num_end num0"
    by (rule marker_iteration [OF nu tk z mb ms(1)])
  have pn: "mytoml_parser_parse_number (length ?ds + 2 + n) t num_end =
          based_number (length ?ds + Suc n) ?t2 b num_end num0"
    using first by (simp add: mytoml_parser_parse_number_def del: number_loop.simps)
  have "\<exists>T. base_unit_loop (length ?ds + Suc n) ?t2 b num_end [] = Inr (Finite (- 1), T) \<and>
            \<not> fault T"
  proof (cases "u = []")
    case True
    have t2: "strm ?t2 = (pre @ [CHR ''0'', m]) @ CHR ''_'' # x # post"
      "cursor ?t2 = int (Suc (length (pre @ [CHR ''0'', m])))" "is_null ?t2"
      "token ?t2 = CHR ''_''" "prev ?t2 = m" "\<not> fault ?t2"
      using ms True nf by simp_all
    have l3: "Suc (length (pre @ [CHR ''0'', m])) <
                length ((pre @ [CHR ''0'', m]) @ CHR ''_'' # x # post)" by simp
    note s3 = advance_step [OF t2(1) t2(2) t2(3) l3]
    have pp: "prev_prev (advance ?t2) = m" using s3(6) t2(5) by simp
    have l0: "int (length ([]::string)) < MYTOML_MAX_STRING_LENGTH"
      by (simp add: MYTOML_MAX_STRING_LENGTH_def)
    have "base_unit_loop (Suc n) ?t2 b num_end [] = Inr (Finite (- 1), advance ?t2)"
      using underscore_iteration [OF t2(3) l0 t2(4) us, of n b] pp md by simp
    moreover have "\<not> fault (advance ?t2)" using s3(7) t2(6) by simp
    ultimately show ?thesis using True by (simp add: digits_of_def del: base_unit_loop.simps)
  next
    case False
    then have sep: "separated b u" and xd: "\<not> is_digit x" "\<not> is_hex_digit x"
      using u by simp_all
    let ?T = "advance_n (length u) ?t2"
    have hw: "u \<noteq> []" "base_digit b (hd u)" using separated_hd [OF sep] by simp_all
    have hd: "hd ?rest = hd u" using hw by simp
    have hn: "hd u \<noteq> EOF_byte" using base_digit_props(3) [OF hw(2) b] .
    have t2: "strm ?t2 = (pre @ [CHR ''0'', m]) @ u @ CHR ''_'' # x # post"
      "cursor ?t2 = int (Suc (length (pre @ [CHR ''0'', m])))" "is_null ?t2" "token ?t2 = hd u"
      using ms hd hn by simp_all
    have ep: "CHR ''_'' # x # post \<noteq> []" by simp
    have lv: "int (length ([]::string)) + int (length ?ds) \<le> MYTOML_MAX_STRING_LENGTH"
      using ln by simp
    have run: "base_unit_loop (length ?ds + Suc n) ?t2 b num_end [] =
                 base_unit_loop (Suc n) ?T b num_end ([] @ ?ds)"
      by (rule body_run [OF sep b t2(1) ep t2(2) t2(3) t2(4) un lv])
    note es = run_end_state [OF sep b t2(1) t2(2) t2(3) t2(4)]
    have T: "strm ?T = (pre @ [CHR ''0'', m] @ u @ [CHR ''_'']) @ x # post"
      "cursor ?T = int (length (pre @ [CHR ''0'', m] @ u @ [CHR ''_'']))"
      "is_null ?T" "token ?T = CHR ''_''" "\<not> fault ?T"
      using es ms(7) nf by simp_all
    have l3: "length (pre @ [CHR ''0'', m] @ u @ [CHR ''_'']) <
                length ((pre @ [CHR ''0'', m] @ u @ [CHR ''_'']) @ x # post)" by simp
    note s3 = advance_step [OF T(1) T(2) T(3) l3]
    have xs: "((pre @ [CHR ''0'', m] @ u @ [CHR ''_'']) @ x # post) !
                length (pre @ [CHR ''0'', m] @ u @ [CHR ''_'']) = x"
      by (simp only: nth_append_length)
    have tx: "token (advance ?T) = (if x = EOF_byte then NUL else x)"
      using s3(4) xs by (simp add: tok_at_def)
    have nd: "\<not> is_digit (token (advance ?T))" "\<not> is_hex_digit (token (advance ?T))"
      using tx xd by (auto simp add: is_digit_def is_hex_digit_def char_val_def)
    have "base_unit_loop (Suc n) ?T b num_end ?ds = Inr (Finite (- 1), advance ?T)"
      using underscore_iteration [OF T(3) ln T(4) us, of n b] nd by simp
    moreover have "\<not> fault (advance ?T)" using s3(7) T(5) by simp
    ultimately show ?thesis using run by (simp del: base_unit_loop.simps)
  qed
  then obtain T where "base_unit_loop (length ?ds + Suc n) ?t2 b num_end [] =
      Inr (Finite (- 1), T)" and "\<not> fault T"
    by blast
  then show ?thesis
    using pn
    by (simp add: based_number_def mytoml_parser_parse_base_unit_def failed_def
          del: base_unit_loop.simps)
qed

lemma strtod_signed_zero:
  "strtod (c_str ''-0'') = Some (NegZero, 2)"
  "strtod (c_str ''+0'') = Some (Finite 0, 2)"
  by code_simp+

lemma sign_iteration:
  assumes "is_null t" and "token t = sg" and "sg = CHR ''+'' \<or> sg = CHR ''-''"
    and "sg \<notin> set num_end"
  shows "number_loop (Suc n) t num_end [] num0 = number_loop n (advance t) num_end [sg] num0"
  using assms
  by (auto simp add: mytoml_tokenizer_has_token_def MYTOML_MAX_STRING_LENGTH_def
        is_number_end_def is_decimal_point_def is_underscore_def)

lemma signed_zero_iteration:
  assumes "is_null t" and "token t = CHR ''0''" and "CHR ''0'' \<notin> set num_end"
  shows "number_loop (Suc n) t num_end [sg] num0 =
           number_loop n (advance t) num_end [sg, CHR ''0''] num0"
  using assms
  by (simp add: mytoml_tokenizer_has_token_def MYTOML_MAX_STRING_LENGTH_def
        is_number_end_def is_decimal_point_def is_underscore_def)

lemma stop_at_marker:
  assumes "is_null t" and "token t = CHR ''x'' \<or> token t = CHR ''o'' \<or> token t = CHR ''b''"
    and "sg = CHR ''+'' \<or> sg = CHR ''-''"
  shows "number_loop (Suc n) t num_end [sg, CHR ''0''] num0 =
           Inr (num0, if sg = CHR ''-'' then NegZero else Finite 0, t)"
  using assms strtod_signed_zero
  by (auto simp add: mytoml_tokenizer_has_token_def MYTOML_MAX_STRING_LENGTH_def
        is_number_end_def is_decimal_point_def is_underscore_def number_finish_def
        is_zero_def)

lemma signed_marker_stops:
  assumes s: "strm t = pre @ sg # CHR ''0'' # m # post"
    and cu: "cursor t = int (Suc (length pre))" and nu: "is_null t" and tk: "token t = sg"
    and sg: "sg = CHR ''+'' \<or> sg = CHR ''-''"
    and m: "m = CHR ''x'' \<or> m = CHR ''o'' \<or> m = CHR ''b''"
    and sn: "sg \<notin> set num_end" and z: "CHR ''0'' \<notin> set num_end"
  shows "mytoml_parser_parse_number (3 + n) t num_end =
           Inr (num0, if sg = CHR ''-'' then NegZero else Finite 0, advance_n 2 t) \<and>
         token (advance_n 2 t) = m"
proof -
  let ?s = "pre @ sg # CHR ''0'' # m # post"
  have l1: "Suc (length pre) < length ?s" by simp
  note s1 = advance_step [OF s cu nu l1]
  have c1: "?s ! Suc (length pre) = CHR ''0''" by (simp add: nth_append)
  have t1: "is_null (advance t)" "token (advance t) = CHR ''0''"
    using s1(3,4) c1 by (simp_all add: tok_at_def)
  have l2: "Suc (Suc (length pre)) < length ?s" by simp
  note s2 = advance_step [OF s1(1) s1(2) t1(1) l2]
  have c2: "?s ! Suc (Suc (length pre)) = m" by (simp add: nth_append)
  have t2: "is_null (advance (advance t))" "token (advance (advance t)) = m"
    using s2(3,4) c2 m by (auto simp add: tok_at_def)
  have tm: "token (advance (advance t)) = CHR ''x'' \<or> token (advance (advance t)) = CHR ''o'' \<or>
            token (advance (advance t)) = CHR ''b''"
    using t2(2) m by simp
  have "mytoml_parser_parse_number (3 + n) t num_end =
          number_loop (Suc (Suc (Suc n))) t num_end [] num0"
    by (simp add: mytoml_parser_parse_number_def numeral_3_eq_3 del: number_loop.simps)
  also have "\<dots> = number_loop (Suc (Suc n)) (advance t) num_end [sg] num0"
    by (rule sign_iteration [OF nu tk sg sn])
  also have "\<dots> = number_loop (Suc n) (advance (advance t)) num_end [sg, CHR ''0''] num0"
    by (rule signed_zero_iteration [OF t1 z])
  also have "\<dots> = Inr (num0, if sg = CHR ''-'' then NegZero else Finite 0, advance (advance t))"
    by (rule stop_at_marker [OF t2(1) tm sg])
  finally show ?thesis using t2(2) by (simp add: numeral_2_eq_2)
qed

text \<open>
  Claim C7, as amended. A base marker \<open>0x\<close>, \<open>0o\<close> or \<open>0b\<close> is accepted only as the
  first characters of the number, without a sign, followed by digits of the base with
  underscores only between digits. For every tokenizer that has just read the \<open>0\<close> of
  a number at the start of its text:
  \<^item> a marker followed by a body of digits of the base, single underscores between two
    digits only, and then by a terminator of the number gives the Integer that the
    digits denote (for fewer than \<open>MYTOML_MAX_STRING_LENGTH\<close> digits and a value below
    \<open>2 ^ 53\<close>, which a \<open>double\<close> holds exactly);
  \<^item> an underscore right after the marker, or after such a body and before a character
    that is no digit (a second underscore, a terminator), makes the number fail;
  \<^item> after a sign the \<open>0\<close> is an ordinary digit: the number ends before the marker,
    with the value zero, and the marker is left to the caller.

  On whole documents: \<open>n = 0xDE_AD_BE_EF\<close> on a line of its own parses to Integer
  3735928559, \<open>0o17\<close> to 15 and \<open>0b101\<close> to 5; a leading, trailing or doubled
  underscore, a digit outside the base, and a signed base-marked number such as
  \<open>+0x1\<close> make the document fail to parse.
\<close>

theorem base_marked_numbers:
  "(\<forall>t pre m b w e post num_end n.
      strm t = pre @ CHR ''0'' # m # w @ e # post \<and> cursor t = int (Suc (length pre)) \<and>
      is_null t \<and> token t = CHR ''0'' \<and>
      (m, b) \<in> {(CHR ''x'', 16), (CHR ''o'', 8), (CHR ''b'', 2)} \<and> separated b w \<and>
      e \<in> set num_end \<and> e \<noteq> EOF_byte \<and> CHR ''0'' \<notin> set num_end \<and>
      (\<forall>c\<in>set w. c \<notin> set num_end) \<and>
      int (length (digits_of w)) < MYTOML_MAX_STRING_LENGTH \<and>
      digits_value b (digits_of w) < 2 ^ 53 \<longrightarrow>
      mytoml_parser_parse_number (length (digits_of w) + 2 + n) t num_end =
        Inr (num0, Finite (of_int (digits_value b (digits_of w))), advance_n (length w + 2) t)) \<and>
   (\<forall>t pre m b u x post num_end n.
      strm t = pre @ CHR ''0'' # m # u @ CHR ''_'' # x # post \<and>
      cursor t = int (Suc (length pre)) \<and> is_null t \<and> token t = CHR ''0'' \<and>
      (m, b) \<in> {(CHR ''x'', 16), (CHR ''o'', 8), (CHR ''b'', 2)} \<and>
      (u = [] \<or> separated b u \<and> \<not> is_digit x \<and> \<not> is_hex_digit x) \<and>
      CHR ''0'' \<notin> set num_end \<and> CHR ''_'' \<notin> set num_end \<and>
      (\<forall>c\<in>set u. c \<notin> set num_end) \<and>
      int (length (digits_of u)) < MYTOML_MAX_STRING_LENGTH \<and> \<not> fault t \<longrightarrow>
      mytoml_parser_parse_number (length (digits_of u) + 2 + n) t num_end = Inl ParseFailure) \<and>
   (\<forall>t pre sg m post num_end n.
      strm t = pre @ sg # CHR ''0'' # m # post \<and> cursor t = int (Suc (length pre)) \<and>
      is_null t \<and> token t = sg \<and> (sg = CHR ''+'' \<or> sg = CHR ''-'') \<and>
      (m = CHR ''x'' \<or> m = CHR ''o'' \<or> m = CHR ''b'') \<and>
      sg \<notin> set num_end \<and> CHR ''0'' \<notin> set num_end \<longrightarrow>
      mytoml_parser_parse_number (3 + n) t num_end =
        Inr (num0, if sg = CHR ''-'' then NegZero else Finite 0, advance_n 2 t) \<and>
      token (advance_n 2 t) = m) \<and>
   toml_load_file_name 100 ''n = 0xDE_AD_BE_EF\<newline>'' =
     Inr (0, [\<lparr> ktype = TOML_TABLE, key_id = ''root'', subkeys = [(''n'', 1)],
                kvalue = None, idx = - 1 \<rparr>,
              \<lparr> ktype = TOML_KEYLEAF, key_id = ''n'', subkeys = [],
                kvalue = Some (TomlValue TOML_INT [] (DDouble (Finite 3735928559)) 0 False), idx = - 1 \<rparr>]) \<and>
   toml_load_file_name 100 ''n = 0o17\<newline>'' =
     Inr (0, [\<lparr> ktype = TOML_TABLE, key_id = ''root'', subkeys = [(''n'', 1)],
                kvalue = None, idx = - 1 \<rparr>,
              \<lparr> ktype = TOML_KEYLEAF, key_id = ''n'', subkeys = [],
                kvalue = Some (TomlValue TOML_INT [] (DDouble (Finite 15)) 0 False), idx = - 1 \<rparr>]) \<and>
   toml_load_file_name 100 ''n = 0b101\<newline>'' =
     Inr (0, [\<lparr> ktype = TOML_TABLE, key_id = ''root'', subkeys = [(''n'', 1)],
                kvalue = None, idx = - 1 \<rparr>,
              \<lparr> ktype = TOML_KEYLEAF, key_id = ''n'', subkeys = [],
                kvalue = Some (TomlValue TOML_INT [] (DDouble (Finite 5)) 0 False), idx = - 1 \<rparr>]) \<and>
   toml_load_file_name 100 ''n = 0x_1\<newline>'' = Inl ParseFailure \<and>
   toml_load_file_name 100 ''n = 0x1_\<newline>'' = Inl ParseFailure \<and>
   toml_load_file_name 100 ''n = 0x1__2\<newline>'' = Inl ParseFailure \<and>
   toml_load_file_name 100 ''n = 0o8\<newline>'' = Inl ParseFailure \<and>
   toml_load_file_name 100 ''n = 0b2\<newline>'' = Inl ParseFailure \<and>
   toml_load_file_name 100 ''n = +0x1\<newline>'' = Inl ParseFailure \<and>
   toml_load_file_name 100 ''n = -0x01\<newline>'' = Inl ParseFailure"
proof -
  have a: "\<forall>t pre m b w e post num_end n.
      strm t = pre @ CHR ''0'' # m # w @ e # post \<and> cursor t = int (Suc (length pre)) \<and>
      is_null t \<and> token t = CHR ''0'' \<and>
      (m, b) \<in> {(CHR ''x'', 16), (CHR ''o'', 8), (CHR ''b'', 2)} \<and> separated b w \<and>
      e \<in> set num_end \<and> e \<noteq> EOF_byte \<and> CHR ''0'' \<notin> set num_end \<and>
      (\<forall>c\<in>set w. c \<notin> set num_end) \<and>
      int (length (digits_of w)) < MYTOML_MAX_STRING_LENGTH \<and>
      digits_value b (digits_of w) < 2 ^ 53 \<longrightarrow>
      mytoml_parser_parse_number (length (digits_of w) + 2 + n) t num_end =
        Inr (num0, Finite (of_int (digits_value b (digits_of w))), advance_n (length w + 2) t)"
    by (intro allI impI, elim conjE, rule base_marked_accepts; assumption)
  have b: "\<forall>t pre m b u x post num_end n.
      strm t = pre @ CHR ''0'' # m # u @ CHR ''_'' # x # post \<and>
      cursor t = int (Suc (length pre)) \<and> is_null t \<and> token t = CHR ''0'' \<and>
      (m, b) \<in> {(CHR ''x'', 16), (CHR ''o'', 8), (CHR ''b'', 2)} \<and>
      (u = [] \<or> separated b u \<and> \<not> is_digit x \<and> \<not> is_hex_digit x) \<and>
      CHR ''0'' \<notin> set num_end \<and> CHR ''_'' \<notin> set num_end \<and>
      (\<forall>c\<in>set u. c \<notin> set num_end) \<and>
      int (length (digits_of u)) < MYTOML_MAX_STRING_LENGTH \<and> \<not> fault t \<longrightarrow>
      mytoml_parser_parse_number (length (digits_of u) + 2 + n) t num_end = Inl ParseFailure"
    by (intro allI impI, elim conjE, rule base_marked_rejects_underscore; assumption)
  have c: "\<forall>t pre sg m post num_end n.
      strm t = pre @ sg # CHR ''0'' # m # post \<and> cursor t = int (Suc (length pre)) \<and>
      is_null t \<and> token t = sg \<and> (sg = CHR ''+'' \<or> sg = CHR ''-'') \<and>
      (m = CHR ''x'' \<or> m = CHR ''o'' \<or> m = CHR ''b'') \<and>
      sg \<notin> set num_end \<and> CHR ''0'' \<notin> set num_end \<longrightarrow>
      mytoml_parser_parse_number (3 + n) t num_end =
        Inr (num0, if sg = CHR ''-'' then NegZero else Finite 0, advance_n 2 t) \<and>
      token (advance_n 2 t) = m"
    by (intro allI impI, elim conjE, rule signed_marker_stops; assumption)
  have d: "toml_load_file_name 100 ''n = 0xDE_AD_BE_EF\<newline>'' =
     Inr (0, [\<lparr> ktype = TOML_TABLE, key_id = ''root'', subkeys = [(''n'', 1)],
                kvalue = None, idx = - 1 \<rparr>,
              \<lparr> ktype = TOML_KEYLEAF, key_id = ''n'', subkeys = [],
                kvalue = Some (TomlValue TOML_INT [] (DDouble (Finite 3735928559)) 0 False), idx = - 1 \<rparr>]) \<and>
   toml_load_file_name 100 ''n = 0o17\<newline>'' =
     Inr (0, [\<lparr> ktype = TOML_TABLE, key_id = ''root'', subkeys = [(''n'', 1)],
                kvalue = None, idx = - 1 \<rparr>,
              \<lparr> ktype = TOML_KEYLEAF, key_id = ''n'', subkeys = [],
                kvalue = Some (TomlValue TOML_INT [] (DDouble (Finite 15)) 0 False), idx = - 1 \<rparr>]) \<and>
   toml_load_file_name 100 ''n = 0b101\<newline>'' =
     Inr (0, [\<lparr> ktype = TOML_TABLE, key_id = ''root'', subkeys = [(''n'', 1)],
                kvalue = None, idx = - 1 \<rparr>,
              \<lparr> ktype = TOML_KEYLEAF, key_id = ''n'', subkeys = [],
                kvalue = Some (TomlValue TOML_INT [] (DDouble (Finite 5)) 0 False), idx = - 1 \<rparr>]) \<and>
   toml_load_file_name 100 ''n = 0x_1\<newline>'' = Inl ParseFailure \<and>
   toml_load_file_name 100 ''n = 0x1_\<newline>'' = Inl ParseFailure \<and>
   toml_load_file_name 100 ''n = 0x1__2\<newline>'' = Inl ParseFailure \<and>
   toml_load_file_name 100 ''n = 0o8\<newline>'' = Inl ParseFailure \<and>
   toml_load_file_name 100 ''n = 0b2\<newline>'' = Inl ParseFailure \<and>
   toml_load_file_name 100 ''n = +0x1\<newline>'' = Inl ParseFailure \<and>
   toml_load_file_name 100 ''n = -0x01\<newline>'' = Inl ParseFailure"
    by code_simp
  show ?thesis
    by (rule conjI [OF a conjI [OF b conjI [OF c d]]])
qed

text \<open>
  Witness for C7: the three general parts at the tokenizers that have read \<open>n = 0\<close> of
  \<open>n = 0xDE_AD_BE_EF\<close> and of \<open>n = 0x1__2\<close>, and \<open>n = -\<close> of \<open>n = -0x1\<close>, each line ended
  by a newline.
\<close>

theorem base_marked_numbers_witness:
  "separated 16 ''DE_AD_BE_EF'' \<and>
   digits_value 16 (digits_of ''DE_AD_BE_EF'') = 3735928559 \<and>
   token (advance_n 5 (new_tokenizer (''n = 0xDE_AD_BE_EF\<newline>'' @ [EOF_byte]))) = CHR ''0'' \<and>
   mytoml_parser_parse_number 10
       (advance_n 5 (new_tokenizer (''n = 0xDE_AD_BE_EF\<newline>'' @ [EOF_byte]))) ''# \<newline>'' =
     Inr (num0, Finite 3735928559,
          advance_n 18 (new_tokenizer (''n = 0xDE_AD_BE_EF\<newline>'' @ [EOF_byte]))) \<and>
   token (advance_n 5 (new_tokenizer (''n = 0x1__2\<newline>'' @ [EOF_byte]))) = CHR ''0'' \<and>
   mytoml_parser_parse_number 3
       (advance_n 5 (new_tokenizer (''n = 0x1__2\<newline>'' @ [EOF_byte]))) ''# \<newline>'' =
     Inl ParseFailure \<and>
   token (advance_n 5 (new_tokenizer (''n = -0x1\<newline>'' @ [EOF_byte]))) = CHR ''-'' \<and>
   mytoml_parser_parse_number 3
       (advance_n 5 (new_tokenizer (''n = -0x1\<newline>'' @ [EOF_byte]))) ''# \<newline>'' =
     Inr (num0, NegZero, advance_n 7 (new_tokenizer (''n = -0x1\<newline>'' @ [EOF_byte]))) \<and>
   token (advance_n 7 (new_tokenizer (''n = -0x1\<newline>'' @ [EOF_byte]))) = CHR ''x''"
proof -
  let ?ne = "''# \<newline>''"
  let ?t = "advance_n 5 (new_tokenizer (''n = 0xDE_AD_BE_EF\<newline>'' @ [EOF_byte]))"
  have h: "strm ?t = ''n = '' @ CHR ''0'' # CHR ''x'' # ''DE_AD_BE_EF'' @ LF # [EOF_byte]"
    "cursor ?t = int (Suc (length ''n = ''))" "is_null ?t" "token ?t = CHR ''0''"
    by code_simp+
  have g: "(CHR ''x'', 16::int) \<in> {(CHR ''x'', 16), (CHR ''o'', 8), (CHR ''b'', 2)}"
    "LF \<in> set ?ne" "LF \<noteq> EOF_byte" "CHR ''0'' \<notin> set ?ne"
    "\<forall>c\<in>set ''DE_AD_BE_EF''. c \<notin> set ?ne"
    by simp_all
  have sp: "separated 16 ''DE_AD_BE_EF''" by code_simp
  have dv: "digits_value 16 (digits_of ''DE_AD_BE_EF'') = 3735928559" by code_simp
  have dl: "length (digits_of ''DE_AD_BE_EF'') = 8" by (simp add: digits_of_def)
  have bd: "int (length (digits_of ''DE_AD_BE_EF'')) < MYTOML_MAX_STRING_LENGTH"
    "digits_value 16 (digits_of ''DE_AD_BE_EF'') < 2 ^ 53"
    unfolding dv dl by (simp_all add: MYTOML_MAX_STRING_LENGTH_def)
  have "mytoml_parser_parse_number (length (digits_of ''DE_AD_BE_EF'') + 2 + 0) ?t ?ne =
          Inr (num0, Finite (of_int (digits_value 16 (digits_of ''DE_AD_BE_EF''))),
               advance_n (length ''DE_AD_BE_EF'' + 2) ?t)"
    using base_marked_numbers [THEN conjunct1] h g sp bd by blast
  moreover have "advance_n (length ''DE_AD_BE_EF'' + 2) ?t =
      advance_n 18 (new_tokenizer (''n = 0xDE_AD_BE_EF\<newline>'' @ [EOF_byte]))"
    by code_simp
  moreover have "length (digits_of ''DE_AD_BE_EF'') + 2 + 0 = 10" using dl by simp
  ultimately have r1: "mytoml_parser_parse_number 10 ?t ?ne =
      Inr (num0, Finite 3735928559,
           advance_n 18 (new_tokenizer (''n = 0xDE_AD_BE_EF\<newline>'' @ [EOF_byte])))"
    using dv by simp
  let ?u = "advance_n 5 (new_tokenizer (''n = 0x1__2\<newline>'' @ [EOF_byte]))"
  have hu: "strm ?u = ''n = '' @ CHR ''0'' # CHR ''x'' # ''1'' @ CHR ''_'' # CHR ''_'' #
              (''2\<newline>'' @ [EOF_byte])"
    "cursor ?u = int (Suc (length ''n = ''))" "is_null ?u" "token ?u = CHR ''0''" "\<not> fault ?u"
    by code_simp+
  have gu: "''1'' = [] \<or> separated 16 ''1'' \<and> \<not> is_digit (CHR ''_'') \<and> \<not> is_hex_digit (CHR ''_'')"
    "CHR ''_'' \<notin> set ?ne" "\<forall>c\<in>set ''1''. c \<notin> set ?ne"
    "int (length (digits_of ''1'')) < MYTOML_MAX_STRING_LENGTH"
    by (simp_all add: base_digit_def digit_val_def char_val_def is_digit_def is_hex_digit_def
          digits_of_def MYTOML_MAX_STRING_LENGTH_def)
  have "mytoml_parser_parse_number (length (digits_of ''1'') + 2 + 0) ?u ?ne = Inl ParseFailure"
    using base_marked_numbers [THEN conjunct2, THEN conjunct1] hu g(1,4) gu by blast
  then have r2: "mytoml_parser_parse_number 3 ?u ?ne = Inl ParseFailure"
    by (simp add: digits_of_def numeral_3_eq_3 del: number_loop.simps)
  let ?v = "advance_n 5 (new_tokenizer (''n = -0x1\<newline>'' @ [EOF_byte]))"
  have hv: "strm ?v = ''n = '' @ CHR ''-'' # CHR ''0'' # CHR ''x'' # (''1\<newline>'' @ [EOF_byte])"
    "cursor ?v = int (Suc (length ''n = ''))" "is_null ?v" "token ?v = CHR ''-''"
    by code_simp+
  have gv: "CHR ''-'' = CHR ''+'' \<or> CHR ''-'' = CHR ''-''"
    "CHR ''x'' = CHR ''x'' \<or> CHR ''x'' = CHR ''o'' \<or> CHR ''x'' = CHR ''b''"
    "CHR ''-'' \<notin> set ?ne"
    by simp_all
  have "mytoml_parser_parse_number (3 + 0) ?v ?ne =
          Inr (num0, if CHR ''-'' = CHR ''-'' then NegZero else Finite 0, advance_n 2 ?v) \<and>
        token (advance_n 2 ?v) = CHR ''x''"
    using base_marked_numbers [THEN conjunct2, THEN conjunct2, THEN conjunct1] hv gv g(4)
    by blast
  moreover have "advance_n 2 ?v = advance_n 7 (new_tokenizer (''n = -0x1\<newline>'' @ [EOF_byte]))"
    by code_simp
  ultimately have r3: "mytoml_parser_parse_number 3 ?v ?ne =
      Inr (num0, NegZero, advance_n 7 (new_tokenizer (''n = -0x1\<newline>'' @ [EOF_byte])))"
    "token (advance_n 7 (new_tokenizer (''n = -0x1\<newline>'' @ [EOF_byte]))) = CHR ''x''"
    by (simp_all del: number_loop.simps)
  show ?thesis
    by (intro conjI sp dv h(4) r1 hu(4) r2 hv(4) r3)
qed

text \<open>
  Counterexample for C7 as stated: the document \<open>n = -0x1\<close> fails to parse.
\<close>

theorem signed_base_marker_counterexample:
  "toml_load_file_name 100 ''n = -0x1\<newline>'' = Inl ParseFailure"
  by code_simp

text \<open>
  Numbers made of zeros. The loop of \<open>_mytoml_parser_parse_number\<close> is followed over a
  literal of any length: the first zero takes the branch that looks for a base marker,
  every further zero is appended, and the conversion at the terminator or at the end of
  the input finds the value zero and skips the test for a leading zero.
\<close>

lemma take_digits_zeros:
  "take_digits 10 (replicate m (CHR ''0'')) acc cnt = (acc * 10 ^ m, cnt + m)"
  by (induction m arbitrary: acc cnt) (simp_all add: digit_val_def char_val_def)

lemma c_str_zeros: "c_str (replicate m (CHR ''0'')) = replicate m (CHR ''0'')"
  by (simp add: c_str_def takeWhile_eq_all_conv)

lemma strtod_zeros:
  assumes "0 < m"
  shows "strtod (replicate m (CHR ''0'')) = Some (Finite 0, m)"
proof -
  obtain k where m: "m = Suc k" using assms by (cases m) auto
  have hp: "\<not> hex_prefix (CHR ''0'' # replicate k (CHR ''0''))"
    by (cases k) (simp_all add: hex_prefix_def)
  have td: "take_digits 10 (CHR ''0'' # replicate k (CHR ''0'')) 0 0 = (0, Suc k)"
    using take_digits_zeros [of "Suc k" 0 0] by simp
  show ?thesis
    unfolding m
    by (simp add: strtod_def c_isspace_def char_val_def sign_len_def is_neg_def
          starts_with_ci_def to_upper_def hp td Let_def signed_zero_def pow10_def
          del: take_digits.simps)
qed


lemma number_finish_zeros:
  "0 < m \<Longrightarrow> number_finish tok (replicate m (CHR ''0'')) num0 = Inr (num0, Finite 0, tok)"
  by (simp add: number_finish_def c_str_zeros strtod_zeros is_zero_def)

lemma zero_iteration:
  assumes "is_null t" and "token t = CHR ''0''" and "0 < m"
    and "int m < MYTOML_MAX_STRING_LENGTH" and "CHR ''0'' \<notin> set num_end"
  shows "number_loop (Suc n) t num_end (replicate m (CHR ''0'')) num0 =
           number_loop n (advance t) num_end (replicate (Suc m) (CHR ''0'')) num0"
  using assms
  by (simp add: mytoml_tokenizer_has_token_def is_number_end_def is_decimal_point_def
        is_underscore_def replicate_append_same)

lemma finish_iteration:
  assumes "0 < m" and "int m < MYTOML_MAX_STRING_LENGTH"
    and "\<not> is_null t \<or> token t \<in> set num_end"
  shows "number_loop (Suc n) t num_end (replicate m (CHR ''0'')) num0 = Inr (num0, Finite 0, t)"
  using assms
  by (auto simp add: mytoml_tokenizer_has_token_def is_number_end_def number_finish_zeros)

lemma zeros_run:
  assumes "strm t = s" and "cursor t = int c" and "is_null t" and "token t = CHR ''0''"
    and "\<forall>i<j. s ! (c + i) = CHR ''0''"
    and "c + j < length s"
    and "s ! (c + j) = EOF_byte \<or> s ! (c + j) \<in> set num_end"
    and "0 < m" and "int m + int j + 1 < MYTOML_MAX_STRING_LENGTH"
    and z: "CHR ''0'' \<notin> set num_end"
  shows "number_loop (j + 2 + n) t num_end (replicate m (CHR ''0'')) num0 =
           Inr (num0, Finite 0, advance_n (Suc j) t)"
  using assms(1-9)
proof (induction j arbitrary: t c m)
  case 0
  have lt: "c < length s" using "0.prems" by simp
  note a = advance_step [OF "0.prems"(1) "0.prems"(2) "0.prems"(3) lt]
  have fin: "\<not> is_null (advance t) \<or> token (advance t) \<in> set num_end"
    using a(3) a(4) "0.prems"(7) by (auto simp add: tok_at_def)
  have m1: "int m < MYTOML_MAX_STRING_LENGTH" "int (Suc m) < MYTOML_MAX_STRING_LENGTH"
    using "0.prems"(9) by simp_all
  have "number_loop (0 + 2 + n) t num_end (replicate m (CHR ''0'')) num0 =
        number_loop (Suc n) (advance t) num_end (replicate (Suc m) (CHR ''0'')) num0"
    using zero_iteration [OF "0.prems"(3) "0.prems"(4) "0.prems"(8) m1(1) z, of "Suc n"]
    by simp
  also have "\<dots> = Inr (num0, Finite 0, advance t)"
    using finish_iteration [OF _ m1(2) fin, of n] by simp
  finally show ?case by simp
next
  case (Suc j)
  have lt: "c < length s" using Suc.prems by simp
  note a = advance_step [OF Suc.prems(1) Suc.prems(2) Suc.prems(3) lt]
  have s0: "s ! c = CHR ''0''" using Suc.prems(5) by (metis add.right_neutral zero_less_Suc)
  have m1: "int m < MYTOML_MAX_STRING_LENGTH" using Suc.prems(9) by simp
  have l1: "strm (advance t) = s" "cursor (advance t) = int (Suc c)" "is_null (advance t)"
    "token (advance t) = CHR ''0''"
    using a s0 by (simp_all add: tok_at_def)
  have z1: "\<forall>i<j. s ! (Suc c + i) = CHR ''0''"
    using Suc.prems(5) by (metis add_Suc_shift Suc_less_eq)
  have e1: "Suc c + j < length s" using Suc.prems(6) by simp
  have t1: "s ! (Suc c + j) = EOF_byte \<or> s ! (Suc c + j) \<in> set num_end"
    using Suc.prems(7) by simp
  have b1: "int (Suc m) + int j + 1 < MYTOML_MAX_STRING_LENGTH" using Suc.prems(9) by simp
  have "number_loop (Suc j + 2 + n) t num_end (replicate m (CHR ''0'')) num0 =
        number_loop (j + 2 + n) (advance t) num_end (replicate (Suc m) (CHR ''0'')) num0"
    using zero_iteration [OF Suc.prems(3) Suc.prems(4) Suc.prems(8) m1 z, of "j + 2 + n"]
    by simp
  also have "\<dots> = Inr (num0, Finite 0, advance_n (Suc j) (advance t))"
    using Suc.IH [OF l1 z1 e1 t1 _ b1] by simp
  finally show ?case by (simp add: advance_n_shift)
qed

lemma first_zero_iteration:
  assumes "is_null t" and "token t = CHR ''0''" and "CHR ''0'' \<notin> set num_end"
    and "token (advance t) \<noteq> CHR ''x''" and "token (advance t) \<noteq> CHR ''o''"
    and "token (advance t) \<noteq> CHR ''b''"
  shows "number_loop (Suc n) t num_end [] num0 =
           number_loop n (advance t) num_end [CHR ''0''] num0"
  using assms
  by (simp add: mytoml_tokenizer_has_token_def MYTOML_MAX_STRING_LENGTH_def
        is_number_end_def)

lemma zero_literal_parses:
  assumes "strm t = s" and "cursor t = int c" and "is_null t" and "token t = CHR ''0''"
    and "\<forall>i<j. s ! (c + i) = CHR ''0''"
    and "c + j < length s"
    and "s ! (c + j) = EOF_byte \<or> s ! (c + j) \<in> set num_end"
    and "s ! (c + j) \<noteq> CHR ''x''" and "s ! (c + j) \<noteq> CHR ''o''" and "s ! (c + j) \<noteq> CHR ''b''"
    and "int j + 1 < MYTOML_MAX_STRING_LENGTH"
    and z: "CHR ''0'' \<notin> set num_end"
  shows "mytoml_parser_parse_number (j + 2 + n) t num_end =
           Inr (\<lparr> ntype = TOML_INT, nprecision = 0, nscientific = False \<rparr>, Finite 0,
                advance_n (Suc j) t)"
proof -
  have lt: "c < length s" using assms(6) by simp
  note a = advance_step [OF assms(1) assms(2) assms(3) lt]
  have nz: "\<not> is_number_end (CHR ''0'') num_end" using z by (simp add: is_number_end_def)
  have tk: "token (advance t) \<noteq> CHR ''x''" "token (advance t) \<noteq> CHR ''o''"
    "token (advance t) \<noteq> CHR ''b''"
  proof -
    have "token (advance t) = CHR ''0'' \<or> token (advance t) = tok_at s (c + j)"
    proof (cases j)
      case 0 then show ?thesis using a(4) by simp
    next
      case (Suc j')
      then have "s ! c = CHR ''0''" using assms(5) by (metis add.right_neutral zero_less_Suc)
      then show ?thesis using a(4) by (simp add: tok_at_def)
    qed
    then show "token (advance t) \<noteq> CHR ''x''" "token (advance t) \<noteq> CHR ''o''"
      "token (advance t) \<noteq> CHR ''b''"
      using assms(8-10) by (auto simp add: tok_at_def split: if_splits)
  qed
  have first: "number_loop (Suc (j + 1 + n)) t num_end [] num0 =
               number_loop (j + 1 + n) (advance t) num_end [CHR ''0''] num0"
    by (rule first_zero_iteration [OF assms(3,4) z tk])
  show ?thesis
  proof (cases j)
    case 0
    have fin: "\<not> is_null (advance t) \<or> token (advance t) \<in> set num_end"
      using a(3) a(4) assms(7) 0 by (auto simp add: tok_at_def)
    have "number_loop (Suc n) (advance t) num_end (replicate 1 (CHR ''0'')) num0 =
            Inr (num0, Finite 0, advance t)"
      using finish_iteration [OF _ _ fin, of 1 n] by (simp add: MYTOML_MAX_STRING_LENGTH_def)
    then show ?thesis
      using first 0 by (simp add: mytoml_parser_parse_number_def del: number_loop.simps)
  next
    case (Suc j')
    have s0: "s ! c = CHR ''0''" using assms(5) Suc by (metis add.right_neutral zero_less_Suc)
    have l1: "strm (advance t) = s" "cursor (advance t) = int (Suc c)" "is_null (advance t)"
      "token (advance t) = CHR ''0''"
      using a s0 by (simp_all add: tok_at_def)
    have z1: "\<forall>i<j'. s ! (Suc c + i) = CHR ''0''"
      using assms(5) Suc by (metis add_Suc_shift Suc_less_eq)
    have e1: "Suc c + j' < length s" using assms(6) Suc by simp
    have t1: "s ! (Suc c + j') = EOF_byte \<or> s ! (Suc c + j') \<in> set num_end"
      using assms(7) Suc by simp
    have b1: "int 1 + int j' + 1 < MYTOML_MAX_STRING_LENGTH" using assms(11) Suc by simp
    have "number_loop (j' + 2 + n) (advance t) num_end (replicate 1 (CHR ''0'')) num0 =
            Inr (num0, Finite 0, advance_n (Suc j') (advance t))"
      using zeros_run [OF l1 z1 e1 t1 _ b1 z, of n] by simp
    then show ?thesis
      using first Suc
      by (simp add: mytoml_parser_parse_number_def advance_n_shift del: number_loop.simps)
  qed
qed


text \<open>
  Claim C10. The rejection of a leading zero applies only to a value that is not zero:
  a literal of \<open>j + 1\<close> zeros (fewer than \<open>MYTOML_MAX_STRING_LENGTH\<close>) that is followed
  by a terminator or by the end of the input is parsed by the number parser to Integer
  0, whatever \<open>j\<close>; the documents \<open>x = 00\<close> and \<open>x = 000\<close> parse to Integer 0, while
  \<open>x = 01\<close> is rejected.
\<close>

theorem repeated_zeros_accepted:
  "(\<forall>t s c j n num_end.
      strm t = s \<and> cursor t = int c \<and> is_null t \<and> token t = CHR ''0'' \<and>
      (\<forall>i<j. s ! (c + i) = CHR ''0'') \<and> c + j < length s \<and>
      (s ! (c + j) = EOF_byte \<or> s ! (c + j) \<in> set num_end) \<and>
      s ! (c + j) \<noteq> CHR ''x'' \<and> s ! (c + j) \<noteq> CHR ''o'' \<and> s ! (c + j) \<noteq> CHR ''b'' \<and>
      int j + 1 < MYTOML_MAX_STRING_LENGTH \<and> CHR ''0'' \<notin> set num_end \<longrightarrow>
      mytoml_parser_parse_number (j + 2 + n) t num_end =
        Inr (num0, Finite 0, advance_n (Suc j) t)) \<and>
   toml_load_file_name 100 ''x = 00'' =
     Inr (0, [\<lparr> ktype = TOML_TABLE, key_id = ''root'', subkeys = [(''x'', 1)],
                kvalue = None, idx = - 1 \<rparr>,
              \<lparr> ktype = TOML_KEYLEAF, key_id = ''x'', subkeys = [],
                kvalue = Some (TomlValue TOML_INT [] (DDouble (Finite 0)) 0 False), idx = - 1 \<rparr>]) \<and>
   toml_load_file_name 100 ''x = 000'' =
     Inr (0, [\<lparr> ktype = TOML_TABLE, key_id = ''root'', subkeys = [(''x'', 1)],
                kvalue = None, idx = - 1 \<rparr>,
              \<lparr> ktype = TOML_KEYLEAF, key_id = ''x'', subkeys = [],
                kvalue = Some (TomlValue TOML_INT [] (DDouble (Finite 0)) 0 False), idx = - 1 \<rparr>]) \<and>
   toml_load_file_name 100 ''x = 01'' = Inl ParseFailure"
proof -
  have docs: "toml_load_file_name 100 ''x = 00'' =
     Inr (0, [\<lparr> ktype = TOML_TABLE, key_id = ''root'', subkeys = [(''x'', 1)],
                kvalue = None, idx = - 1 \<rparr>,
              \<lparr> ktype = TOML_KEYLEAF, key_id = ''x'', subkeys = [],
                kvalue = Some (TomlValue TOML_INT [] (DDouble (Finite 0)) 0 False), idx = - 1 \<rparr>]) \<and>
   toml_load_file_name 100 ''x = 000'' =
     Inr (0, [\<lparr> ktype = TOML_TABLE, key_id = ''root'', subkeys = [(''x'', 1)],
                kvalue = None, idx = - 1 \<rparr>,
              \<lparr> ktype = TOML_KEYLEAF, key_id = ''x'', subkeys = [],
                kvalue = Some (TomlValue TOML_INT [] (DDouble (Finite 0)) 0 False), idx = - 1 \<rparr>]) \<and>
   toml_load_file_name 100 ''x = 01'' = Inl ParseFailure"
    by code_simp
  show ?thesis
    using docs zero_literal_parses by blast
qed

text \<open>
  Witness for C10: the tokenizer that has read \<open>x = 0\<close> of the buffer of the file
  \<open>x = 00\<close>, one zero and the end of the input ahead of it.
\<close>

theorem repeated_zeros_accepted_witness:
  "strm (advance_n 5 (new_tokenizer (''x = 00'' @ [EOF_byte]))) = ''x = 00'' @ [EOF_byte] \<and>
   cursor (advance_n 5 (new_tokenizer (''x = 00'' @ [EOF_byte]))) = 5 \<and>
   is_null (advance_n 5 (new_tokenizer (''x = 00'' @ [EOF_byte]))) \<and>
   token (advance_n 5 (new_tokenizer (''x = 00'' @ [EOF_byte]))) = CHR ''0'' \<and>
   (''x = 00'' @ [EOF_byte]) ! 5 = CHR ''0'' \<and>
   (''x = 00'' @ [EOF_byte]) ! 6 = EOF_byte \<and>
   mytoml_parser_parse_number 3 (advance_n 5 (new_tokenizer (''x = 00'' @ [EOF_byte])))
       ''# \<newline>'' =
     Inr (num0, Finite 0, advance_n 7 (new_tokenizer (''x = 00'' @ [EOF_byte])))"
proof -
  let ?s = "''x = 00'' @ [EOF_byte]"
  let ?t = "advance_n 5 (new_tokenizer ?s)"
  have h: "strm ?t = ?s" "cursor ?t = int 5" "is_null ?t" "token ?t = CHR ''0''"
    by code_simp+
  have z: "\<forall>i<1. ?s ! (5 + i) = CHR ''0''" by simp
  have l: "5 + 1 < length ?s" by simp
  have e: "?s ! (5 + 1) = EOF_byte \<or> ?s ! (5 + 1) \<in> set ''# \<newline>''" by simp
  have x: "?s ! (5 + 1) \<noteq> CHR ''x''" "?s ! (5 + 1) \<noteq> CHR ''o''" "?s ! (5 + 1) \<noteq> CHR ''b''"
    by simp_all
  have b: "int 1 + 1 < MYTOML_MAX_STRING_LENGTH" by (simp add: MYTOML_MAX_STRING_LENGTH_def)
  have n: "CHR ''0'' \<notin> set ''# \<newline>''" by simp
  have a: "advance_n (Suc 1) ?t = advance_n 7 (new_tokenizer ?s)" by code_simp
  have k: "(1::nat) + 2 + 0 = 3" by simp
  have "mytoml_parser_parse_number (1 + 2 + 0) ?t ''# \<newline>'' =
          Inr (num0, Finite 0, advance_n (Suc 1) ?t)"
    using repeated_zeros_accepted h z l e x b n by blast
  then have r: "mytoml_parser_parse_number 3 ?t ''# \<newline>'' =
          Inr (num0, Finite 0, advance_n 7 (new_tokenizer ?s))"
    by (simp only: k a)
  have c: "cursor ?t = 5" using h(2) by simp
  have v: "?s ! 5 = CHR ''0''" "?s ! 6 = EOF_byte" by simp_all
  show ?thesis by (intro conjI h(1) c h(3) h(4) v r)
qed

end
